(* ===== verification/Prelude.thy ===== *)
theory Prelude
  imports Complex_Main "HOL-Library.List_Lexorder" "HOL-Library.Char_ord"
    "HOL-Library.Product_Lexorder" "HOL-Library.Multiset" "HOL-Library.Sublist"
begin

text \<open>
  The runtime the control plane is written against, as far as the modelled code uses it:
  JavaScript strings (code units below 256, as \<open>char list\<close>), dates (a time value in
  milliseconds or an invalid date), safe integers, the comparator idiom
  \<open>cmp1(a, b) || cmp2(a, b)\<close> with the stable \<open>Array.prototype.toSorted\<close>, fallible code as
  a sum (\<open>Inl\<close> is the exception), and the list and sum lemmas every component shares.
\<close>

section \<open>Identifiers, strings and time\<close>

text \<open>Identifiers are the canonical lower-case texts of UUIDs.\<close>

type_synonym uuid = string

text \<open>Time values and durations in milliseconds since the epoch, as \<open>Date.getTime\<close> reads them.\<close>

type_synonym millis = int

text \<open>Byte strings (digests, ciphertexts).\<close>

type_synonym bytes = "nat list"

text \<open>A \<open>Date\<close>: \<open>InvalidDate\<close> is the one whose \<open>getTime()\<close> is \<open>NaN\<close>.\<close>

datatype js_date = Date millis | InvalidDate

fun getTime :: "js_date \<Rightarrow> millis option" where
  "getTime (Date t) = Some t"
| "getTime InvalidDate = None"

text \<open>\<open>a !== b\<close> on two \<open>getTime()\<close> results: \<open>NaN\<close> differs from everything, itself included.\<close>

fun nan_neq :: "millis option \<Rightarrow> millis option \<Rightarrow> bool" where
  "nan_neq (Some a) (Some b) = (a \<noteq> b)"
| "nan_neq _ _ = True"

fun valid_date :: "js_date \<Rightarrow> bool" where
  "valid_date (Date t) = True"
| "valid_date InvalidDate = False"

text \<open>The text \<open>toISOString\<close> writes and \<open>Date.parse\<close> reads back.\<close>

datatype iso_text = Iso millis

fun date_parse :: "iso_text \<Rightarrow> millis" where
  "date_parse (Iso t) = t"

text \<open>White space of \<open>String.prototype.trim\<close> within the code units modelled.\<close>

definition js_space :: "char \<Rightarrow> bool" where
  "js_space c \<longleftrightarrow> of_char c \<in> {9, 10, 11, 12, 13, 32, 160 :: nat}"

definition js_trim :: "string \<Rightarrow> string" where
  "js_trim s = rev (dropWhile js_space (rev (dropWhile js_space s)))"

text \<open>Length of the UTF-8 encoding: two bytes from code unit 128 on.\<close>

definition utf8_length :: "string \<Rightarrow> nat" where
  "utf8_length s = sum_list (map (\<lambda>c. if of_char c < (128::nat) then 1 else 2) s)"

definition max_safe_integer :: int where
  "max_safe_integer = 9007199254740991"

definition safe_integer :: "int \<Rightarrow> bool" where
  "safe_integer n \<longleftrightarrow> - max_safe_integer \<le> n \<and> n \<le> max_safe_integer"

text \<open>\<open>localeCompare\<close> on canonical UUID texts: the order of their code units.\<close>

definition localeCompare :: "string \<Rightarrow> string \<Rightarrow> int" where
  "localeCompare a b = (if a < b then - 1 else if a = b then 0 else 1)"

text \<open>\<open>x || y\<close> on numbers.\<close>

definition js_or :: "int \<Rightarrow> int \<Rightarrow> int" where
  "js_or x y = (if x \<noteq> 0 then x else y)"

section \<open>Fallible code\<close>

text \<open>Sequencing: the first exception ends the computation.\<close>

definition ebind :: "'e + 'a \<Rightarrow> ('a \<Rightarrow> 'e + 'b) \<Rightarrow> 'e + 'b" where
  "ebind x f = (case x of Inl e \<Rightarrow> Inl e | Inr a \<Rightarrow> f a)"

definition ensure :: "bool \<Rightarrow> 'e \<Rightarrow> 'e + unit" where
  "ensure b e = (if b then Inr () else Inl e)"

text \<open>A \<open>catch\<close> that rewrites errors.\<close>

definition map_error :: "('e \<Rightarrow> 'f) \<Rightarrow> 'e + 'a \<Rightarrow> 'f + 'a" where
  "map_error h x = (case x of Inl e \<Rightarrow> Inl (h e) | Inr a \<Rightarrow> Inr a)"

text \<open>\<open>Array.prototype.map\<close> with a callback that may throw.\<close>

fun emap :: "('a \<Rightarrow> 'e + 'b) \<Rightarrow> 'a list \<Rightarrow> 'e + 'b list" where
  "emap f [] = Inr []"
| "emap f (x # xs) =
     (case f x of Inl e \<Rightarrow> Inl e
      | Inr y \<Rightarrow> (case emap f xs of Inl e \<Rightarrow> Inl e | Inr ys \<Rightarrow> Inr (y # ys)))"

text \<open>A \<open>for\<close> loop over a list whose body may throw, threading a state.\<close>

fun efold :: "('a \<Rightarrow> 's \<Rightarrow> 'e + 's) \<Rightarrow> 'a list \<Rightarrow> 's \<Rightarrow> 'e + 's" where
  "efold f [] s = Inr s"
| "efold f (x # xs) s = (case f x s of Inl e \<Rightarrow> Inl e | Inr s' \<Rightarrow> efold f xs s')"

lemma ebind_simps [simp]: "ebind (Inl e) f = Inl e" "ebind (Inr a) f = f a"
  by (simp_all add: ebind_def)

lemma ebind_Inr_iff: "ebind x f = Inr b \<longleftrightarrow> (\<exists>a. x = Inr a \<and> f a = Inr b)"
  by (cases x) auto

lemma ensure_Inr [simp]: "ensure b e = Inr u \<longleftrightarrow> b"
  by (simp add: ensure_def)

lemma ensure_Inl [simp]: "ensure b e = Inl e' \<longleftrightarrow> \<not> b \<and> e' = e"
  by (auto simp: ensure_def)

lemma ensure_simps [simp]: "ensure True e = Inr ()" "ensure False e = Inl e"
  by (simp_all add: ensure_def)

lemma map_error_simps [simp]:
  "map_error h (Inl e) = Inl (h e)" "map_error h (Inr a) = Inr a"
  by (simp_all add: map_error_def)

lemma map_error_Inr [simp]: "map_error h x = Inr a \<longleftrightarrow> x = Inr a"
  by (cases x) simp_all

lemma emap_Inr_iff: "emap f xs = Inr ys \<longleftrightarrow> list_all2 (\<lambda>x y. f x = Inr y) xs ys"
proof (induction xs arbitrary: ys)
  case Nil
  show ?case by (cases ys) auto
next
  case (Cons x xs)
  show ?case
    by (cases ys; cases "f x"; cases "emap f xs") (auto simp: Cons.IH [symmetric])
qed

lemma list_all2_member:
  assumes "list_all2 R xs ys" and "y \<in> set ys"
  obtains x where "x \<in> set xs" and "R x y"
  using assms by (induction rule: list_all2_induct) auto

lemma emap_total: "(\<And>x. x \<in> set xs \<Longrightarrow> f x = Inr (g x)) \<Longrightarrow> emap f xs = Inr (map g xs)"
  by (induction xs) auto

lemma emap_Inr_length: "emap f xs = Inr ys \<Longrightarrow> length ys = length xs"
  by (auto simp: emap_Inr_iff dest: list_all2_lengthD)

lemma efold_append:
  "efold f (xs @ ys) s = (case efold f xs s of Inl e \<Rightarrow> Inl e | Inr s' \<Rightarrow> efold f ys s')"
  by (induction xs arbitrary: s) (auto split: sum.splits)

text \<open>Progress rule for loops: the facts about the elements still to come keep the body from failing.\<close>

lemma efold_progress:
  assumes "J xs s" and "\<And>x xs s. J (x # xs) s \<Longrightarrow> \<exists>s'. f x s = Inr s' \<and> J xs s'"
  shows "\<exists>s'. efold f xs s = Inr s' \<and> J [] s'"
  using assms(1)
proof (induction xs arbitrary: s)
  case (Cons x xs)
  from assms(2) [OF Cons.prems] obtain s1 where "f x s = Inr s1" "J xs s1" by blast
  with Cons.IH [of s1] show ?case by simp
qed simp

lemma emap_progress: "\<forall>x\<in>set xs. \<exists>y. f x = Inr y \<Longrightarrow> \<exists>ys. emap f xs = Inr ys"
  by (induction xs) auto

text \<open>Invariant rule for loops: what the body keeps holds after the loop.\<close>

lemma efold_invariant:
  assumes "efold f xs s = Inr s'" and "P s"
    and "\<And>x s s'. x \<in> set xs \<Longrightarrow> P s \<Longrightarrow> f x s = Inr s' \<Longrightarrow> P s'"
  shows "P s'"
  using assms
proof (induction xs arbitrary: s)
  case Nil
  then show ?case by simp
next
  case (Cons x xs)
  from Cons.prems(1) obtain s1 where s1: "f x s = Inr s1" "efold f xs s1 = Inr s'"
    by (auto split: sum.splits)
  have "P s1" by (rule Cons.prems(3) [OF _ Cons.prems(2) s1(1)]) simp
  moreover have "P t'" if "y \<in> set xs" "P t" "f y t = Inr t'" for y t t'
    using that by (intro Cons.prems(3) [of y t t']) auto
  ultimately show ?case using Cons.IH [OF s1(2)] by blast
qed

section \<open>Sorting with a comparator\<close>

fun insert_by :: "('a \<Rightarrow> 'a \<Rightarrow> int) \<Rightarrow> 'a \<Rightarrow> 'a list \<Rightarrow> 'a list" where
  "insert_by cmp x [] = [x]"
| "insert_by cmp x (y # ys) = (if cmp x y \<le> 0 then x # y # ys else y # insert_by cmp x ys)"

text \<open>\<open>xs.toSorted(cmp)\<close>: stable.\<close>

definition toSorted :: "('a \<Rightarrow> 'a \<Rightarrow> int) \<Rightarrow> 'a list \<Rightarrow> 'a list" where
  "toSorted cmp xs = foldr (insert_by cmp) xs []"

lemma set_insert_by [simp]: "set (insert_by cmp x xs) = insert x (set xs)"
  by (induction xs) auto

lemma mset_insert_by [simp]: "mset (insert_by cmp x xs) = add_mset x (mset xs)"
  by (induction xs) auto

lemma mset_toSorted [simp]: "mset (toSorted cmp xs) = mset xs"
  by (induction xs) (simp_all add: toSorted_def)

lemma set_toSorted [simp]: "set (toSorted cmp xs) = set xs"
  by (metis mset_toSorted set_mset_mset)

lemma length_toSorted [simp]: "length (toSorted cmp xs) = length xs"
  by (metis mset_toSorted size_mset)

lemma distinct_map_toSorted [simp]:
  "distinct (map f (toSorted cmp xs)) \<longleftrightarrow> distinct (map f xs)"
proof -
  have "mset (map f (toSorted cmp xs)) = mset (map f xs)" by simp
  then show ?thesis by (metis mset_eq_imp_distinct_iff)
qed

text \<open>
  A comparator that agrees, on the elements of \<open>S\<close>, with comparing a key of a linearly
  ordered type: sorting with it is the library's \<open>sort_key\<close>.
\<close>

locale keyed_comparator =
  fixes cmp :: "'a \<Rightarrow> 'a \<Rightarrow> int"
    and key :: "'a \<Rightarrow> 'k::linorder"
    and S :: "'a set"
  assumes cmp_key: "a \<in> S \<Longrightarrow> b \<in> S \<Longrightarrow> cmp a b \<le> 0 \<longleftrightarrow> key a \<le> key b"
begin

lemma insert_by_insort:
  "x \<in> S \<Longrightarrow> set ys \<subseteq> S \<Longrightarrow> insert_by cmp x ys = insort_key key x ys"
  by (induction ys) (auto simp: cmp_key)

lemma toSorted_sort_key: "set xs \<subseteq> S \<Longrightarrow> toSorted cmp xs = sort_key key xs"
proof (induction xs)
  case Nil
  show ?case by (simp add: toSorted_def)
next
  case (Cons x xs)
  then have "toSorted cmp (x # xs) = insert_by cmp x (sort_key key xs)"
    by (simp add: toSorted_def)
  with Cons.prems show ?case by (simp add: insert_by_insort)
qed

lemma toSorted_sorted: "set xs \<subseteq> S \<Longrightarrow> sorted (map key (toSorted cmp xs))"
  by (simp add: toSorted_sort_key)

lemma toSorted_stable:
  "set xs \<subseteq> S \<Longrightarrow> filter (\<lambda>y. key y = k) (toSorted cmp xs) = filter (\<lambda>y. key y = k) xs"
  by (simp add: toSorted_sort_key sort_key_stable)

lemma toSorted_unique:
  assumes "set xs \<subseteq> S" and "mset xs = mset ys" and "inj_on key (set xs)"
  shows "toSorted cmp xs = toSorted cmp ys"
proof -
  from assms(1,2) have "set ys \<subseteq> S" by (metis set_mset_mset)
  moreover have "sort_key key xs = sort_key key ys"
  proof (rule properties_for_sort_key)
    show "mset (sort_key key ys) = mset xs" using assms(2) by simp
    show "sorted (map key (sort_key key ys))" by simp
    fix k
    assume k: "k \<in> set (sort_key key ys)"
    have inj: "inj_on key (set ys)" using assms(2,3) by (metis set_mset_mset)
    have "filter (\<lambda>x. key k = key x) ys = filter (\<lambda>x. k = x) ys"
      using inj k by (intro filter_cong) (auto dest: inj_onD)
    moreover have "filter (\<lambda>x. key k = key x) xs = filter (\<lambda>x. k = x) xs"
      using assms(2,3) k by (intro filter_cong) (auto dest: inj_onD dest!: mset_eq_setD)
    moreover have "filter (\<lambda>x. k = x) xs = filter (\<lambda>x. k = x) ys"
      by (metis assms(2) filter_mset_eq_conv mset_filter replicate_count_mset_eq_filter_eq
          count_mset count_list_eq_length_filter)
    ultimately show "filter (\<lambda>x. key k = key x) (sort_key key ys) = filter (\<lambda>x. key k = key x) xs"
      using sort_key_stable [of key "key k" ys] by (metis (mono_tags, lifting) filter_cong)
  qed
  ultimately show ?thesis using assms(1) by (simp add: toSorted_sort_key)
qed

end

end
