(* ===== verification/Challenge_Policies.thy ===== *)
theory Challenge_Policies
  imports Prelude
begin

text \<open>
  The policy part of \<open>shared/contracts/challenges.ts\<close>: flag, scoring and instance policies as
  tagged unions, and their schemas as parsers (\<open>None\<close> is a failed \<open>safeParse\<close>; the parsed value
  has its texts trimmed). Numbers of a policy are integers: the schemas refuse any other.
\<close>

section \<open>Policies\<close>

datatype flag_policy =
    StaticFlag string                \<comment> \<open>digest\<close>
  | TeamDerivedFlag int              \<comment> \<open>key_version\<close>
  | SynchronousFlag string           \<comment> \<open>validator\<close>

datatype scoring_policy =
    FixedV1 int                      \<comment> \<open>points\<close>
  | DecayV1 int int int              \<comment> \<open>initial_points, minimum_points, decay_solves\<close>

datatype instance_provider = Docker | Kubernetes

datatype entry_protocol = Http | Tcp

record dynamic_instance_policy =
  dip_provider :: instance_provider
  dip_image :: string
  dip_entry_port :: int
  dip_entry_protocol :: entry_protocol

datatype instance_policy = NoInstance | DynamicInstance dynamic_instance_policy

section \<open>Schemas\<close>

definition lower_hex :: "char \<Rightarrow> bool" where
  "lower_hex c \<longleftrightarrow> (let n = of_char c :: nat in (48 \<le> n \<and> n \<le> 57) \<or> (97 \<le> n \<and> n \<le> 102))"

text \<open>The \<open>i\<close> flag of the digest's expression: upper-case hex digits match too.\<close>

definition hex_digit :: "char \<Rightarrow> bool" where
  "hex_digit c \<longleftrightarrow> lower_hex c \<or> (let n = of_char c :: nat in 65 \<le> n \<and> n \<le> 70)"

definition lower_alnum :: "char \<Rightarrow> bool" where
  "lower_alnum c \<longleftrightarrow> (let n = of_char c :: nat in (48 \<le> n \<and> n \<le> 57) \<or> (97 \<le> n \<and> n \<le> 122))"

text \<open>
  The expression \<open>^[a-z0-9]+(?:[._-][a-z0-9]+)*$\<close>: alphanumeric runs joined by single separators
  taken from \<open>seps\<close>. \<open>inrun\<close> says whether the last character read belongs to a run.
\<close>

fun slug_from :: "string \<Rightarrow> bool \<Rightarrow> string \<Rightarrow> bool" where
  "slug_from seps inrun [] = inrun"
| "slug_from seps inrun (c # cs) =
     (if lower_alnum c then slug_from seps True cs
      else inrun \<and> c \<in> set seps \<and> slug_from seps False cs)"

definition staticFlagPolicySchema :: "string \<Rightarrow> flag_policy option" where
  "staticFlagPolicySchema digest =
     (let d = js_trim digest in
      if length d = 64 \<and> list_all hex_digit d then Some (StaticFlag d) else None)"

definition teamDerivedFlagPolicySchema :: "int \<Rightarrow> flag_policy option" where
  "teamDerivedFlagPolicySchema v =
     (if safe_integer v \<and> 0 < v then Some (TeamDerivedFlag v) else None)"

definition synchronousFlagPolicySchema :: "string \<Rightarrow> flag_policy option" where
  "synchronousFlagPolicySchema validator =
     (let v = js_trim validator in
      if 1 \<le> length v \<and> length v \<le> 128 \<and> slug_from ''._-'' False v
      then Some (SynchronousFlag v) else None)"

fun challengeFlagPolicySchema :: "flag_policy \<Rightarrow> flag_policy option" where
  "challengeFlagPolicySchema (StaticFlag d) = staticFlagPolicySchema d"
| "challengeFlagPolicySchema (TeamDerivedFlag v) = teamDerivedFlagPolicySchema v"
| "challengeFlagPolicySchema (SynchronousFlag v) = synchronousFlagPolicySchema v"

definition fixedScoringPolicySchema :: "int \<Rightarrow> bool" where
  "fixedScoringPolicySchema points \<longleftrightarrow> 0 < points \<and> points \<le> 1000000"

definition decayScoringPolicySchema :: "int \<Rightarrow> int \<Rightarrow> int \<Rightarrow> bool" where
  "decayScoringPolicySchema initial minimum decay \<longleftrightarrow>
     0 < initial \<and> initial \<le> 1000000 \<and> 0 \<le> minimum \<and> minimum \<le> 1000000
     \<and> 0 < decay \<and> decay \<le> 1000000"

text \<open>The union with its refinement: a decaying score never starts below its minimum.\<close>

fun challengeScoringPolicySchema :: "scoring_policy \<Rightarrow> scoring_policy option" where
  "challengeScoringPolicySchema (FixedV1 p) =
     (if fixedScoringPolicySchema p then Some (FixedV1 p) else None)"
| "challengeScoringPolicySchema (DecayV1 i m d) =
     (if decayScoringPolicySchema i m d \<and> m \<le> i then Some (DecayV1 i m d) else None)"

definition dynamicInstancePolicySchema ::
  "dynamic_instance_policy \<Rightarrow> dynamic_instance_policy option" where
  "dynamicInstancePolicySchema p =
     (let image = js_trim (dip_image p) in
      if 1 \<le> length image \<and> length image \<le> 512
         \<and> 1 \<le> dip_entry_port p \<and> dip_entry_port p \<le> 65535
      then Some (p\<lparr>dip_image := image\<rparr>) else None)"

fun challengeInstancePolicySchema :: "instance_policy \<Rightarrow> instance_policy option" where
  "challengeInstancePolicySchema NoInstance = Some NoInstance"
| "challengeInstancePolicySchema (DynamicInstance p) =
     map_option DynamicInstance (dynamicInstancePolicySchema p)"

lemma scoring_schema_Some:
  "challengeScoringPolicySchema p = Some q \<Longrightarrow> q = p"
  by (cases p) (auto split: if_splits)

lemma js_trim_ends:
  assumes "js_trim s = c # cs"
  shows "\<not> js_space c" and "\<not> js_space (last (c # cs))"
proof -
  let ?u = "dropWhile js_space s"
  let ?t = "dropWhile js_space (rev ?u)"
  have t: "rev ?t = c # cs" using assms by (simp only: js_trim_def)
  then have r: "?t \<noteq> []" by auto
  then have l: "?u \<noteq> []" by (metis dropWhile.simps(1) rev.simps(1))
  obtain zs where "rev ?u = zs @ ?t" using suffix_dropWhile by (metis suffixE)
  then have "last ?t = last (rev ?u)" using r by (metis last_appendR)
  then have "c = hd ?u" using t l r by (metis hd_rev last_rev list.sel(1) rev_rev_ident)
  then show "\<not> js_space c" using hd_dropWhile [OF l] by simp
  have "last (c # cs) = hd ?t" using r by (simp flip: t add: last_rev)
  then show "\<not> js_space (last (c # cs))" using hd_dropWhile [OF r] by (simp del: last.simps)
qed

lemma js_trim_fixed:
  assumes "s = [] \<or> (\<not> js_space (hd s) \<and> \<not> js_space (last s))"
  shows "js_trim s = s"
proof (cases "s = []")
  case False
  with assms have h: "\<not> js_space (hd s)" and l: "\<not> js_space (last s)" by auto
  have d: "dropWhile js_space xs = xs" if "xs \<noteq> []" "\<not> js_space (hd xs)" for xs
    using that by (cases xs) simp_all
  have "dropWhile js_space s = s" using False h by (rule d)
  moreover have "dropWhile js_space (rev s) = rev s"
    using False l by (intro d) (simp_all add: hd_rev)
  ultimately show ?thesis by (simp only: js_trim_def rev_rev_ident)
qed (simp add: js_trim_def)

lemma js_trim_idem [simp]: "js_trim (js_trim s) = js_trim s"
proof (cases "js_trim s")
  case Nil
  then show ?thesis by (simp add: js_trim_fixed)
next
  case (Cons c cs)
  from js_trim_ends [OF Cons] have "\<not> js_space (hd (js_trim s))" "\<not> js_space (last (js_trim s))"
    by (simp_all add: Cons del: last.simps)
  then show ?thesis by (intro js_trim_fixed) simp
qed

text \<open>Parsing is idempotent: what a schema accepts, it accepts again unchanged.\<close>

lemma flag_schema_idem:
  "challengeFlagPolicySchema p = Some q \<Longrightarrow> challengeFlagPolicySchema q = Some q"
  by (cases p) (auto simp: staticFlagPolicySchema_def teamDerivedFlagPolicySchema_def
      synchronousFlagPolicySchema_def Let_def split: if_splits)

lemma instance_schema_idem:
  "challengeInstancePolicySchema p = Some q \<Longrightarrow> challengeInstancePolicySchema q = Some q"
  by (cases p) (auto simp: dynamicInstancePolicySchema_def Let_def split: if_splits)

end
