(* ===== verification/Scoring.thy ===== *)
theory Scoring
  imports Challenge_Policies
begin

text \<open>
  \<open>server/domains/submissions/scoring.ts\<close>: the value of a challenge for a count of official
  solves. Double arithmetic is a parameter: \<open>js_round\<close> rounds the exact result of an operation to
  a double and \<open>js_exp\<close> is \<open>Math.exp\<close>; integers up to 1000000 and solve counts are exact doubles.
\<close>

section \<open>The scoring function\<close>

record js_math =
  js_round :: "real \<Rightarrow> real"
  js_exp :: "real \<Rightarrow> real"

datatype scoring_error = InvalidScoringPolicy | InvalidSolveCount

definition decayed_points :: "js_math \<Rightarrow> int \<Rightarrow> int \<Rightarrow> int \<Rightarrow> int \<Rightarrow> real" where
  "decayed_points m initial minimum decay n =
     js_round m (of_int minimum
       + js_round m (of_int (initial - minimum)
           * js_exp m (js_round m (of_int (1 - n) / of_int decay))))"

definition calculateChallengeScore ::
  "js_math \<Rightarrow> scoring_policy \<Rightarrow> int \<Rightarrow> scoring_error + int" where
  "calculateChallengeScore m policy officialSolveCount =
     (case challengeScoringPolicySchema policy of
        None \<Rightarrow> Inl InvalidScoringPolicy
      | Some parsed \<Rightarrow>
          if \<not> safe_integer officialSolveCount \<or> officialSolveCount < 0
          then Inl InvalidSolveCount
          else (case parsed of
              FixedV1 points \<Rightarrow> Inr points
            | DecayV1 initial minimum decay \<Rightarrow>
                if officialSolveCount \<le> 1 \<or> initial = minimum then Inr initial
                else Inr (max minimum (min initial
                       \<lfloor>decayed_points m initial minimum decay officialSolveCount\<rfloor>))))"

section \<open>Arithmetic the code relies on\<close>

text \<open>
  What IEEE 754 and the language promise: rounding is monotone and leaves safe integers alone;
  \<open>Math.exp\<close> is monotone and, at arguments that are not positive, between 0 and 1.
\<close>

locale js_arithmetic =
  fixes m :: js_math
  assumes round_mono: "x \<le> y \<Longrightarrow> js_round m x \<le> js_round m y"
    and round_int: "safe_integer z \<Longrightarrow> js_round m (of_int z) = of_int z"
    and exp_mono: "x \<le> y \<Longrightarrow> js_exp m x \<le> js_exp m y"
    and exp_unit: "x \<le> 0 \<Longrightarrow> 0 \<le> js_exp m x \<and> js_exp m x \<le> 1"
begin

lemma decayed_antimono:
  assumes "minimum \<le> initial" and "0 < decay" and "n \<le> n'"
  shows "decayed_points m initial minimum decay n' \<le> decayed_points m initial minimum decay n"
proof -
  have "of_int (1 - n') / of_int decay \<le> (of_int (1 - n) / of_int decay :: real)"
    using assms by (intro divide_right_mono) auto
  then have e: "js_exp m (js_round m (of_int (1 - n') / of_int decay))
      \<le> js_exp m (js_round m (of_int (1 - n) / of_int decay))"
    by (intro exp_mono round_mono)
  have "(0::real) \<le> of_int (initial - minimum)" using assms(1) by simp
  from mult_left_mono [OF e this] show ?thesis
    unfolding decayed_points_def by (intro round_mono add_left_mono)
qed

lemma decayed_le_initial:
  assumes "decayScoringPolicySchema initial minimum decay" and "minimum \<le> initial" and "1 \<le> n"
  shows "decayed_points m initial minimum decay n \<le> of_int initial"
proof -
  have si: "safe_integer (initial - minimum)" "safe_integer initial" "safe_integer 0"
    using assms(1,2) by (auto simp: decayScoringPolicySchema_def safe_integer_def max_safe_integer_def)
  have "of_int (1 - n) / of_int decay \<le> (0::real)"
    using assms by (intro divide_nonpos_pos) (auto simp: decayScoringPolicySchema_def)
  then have "js_round m (of_int (1 - n) / of_int decay) \<le> 0"
    using round_mono round_int [of 0] si by fastforce
  then have "js_exp m (js_round m (of_int (1 - n) / of_int decay)) \<le> 1"
    using exp_unit by blast
  then have "of_int (initial - minimum) * js_exp m (js_round m (of_int (1 - n) / of_int decay))
      \<le> (of_int (initial - minimum) :: real)"
    using assms(2) by (intro mult_left_le) auto
  from round_mono [OF this] round_int [OF si(1)]
  have "of_int minimum + js_round m (of_int (initial - minimum)
      * js_exp m (js_round m (of_int (1 - n) / of_int decay))) \<le> (of_int initial :: real)"
    by simp
  from round_mono [OF this] round_int [OF si(2)] show ?thesis
    by (simp add: decayed_points_def)
qed

text \<open>More solves never raise the value of a challenge.\<close>

lemma score_antimono:
  assumes n: "calculateChallengeScore m p n = Inr s"
    and n': "calculateChallengeScore m p n' = Inr s'" and le: "n \<le> n'"
  shows "s' \<le> s"
proof (cases p)
  case (FixedV1 x)
  with n n' show ?thesis by (auto simp: calculateChallengeScore_def split: if_splits)
next
  case (DecayV1 i mn d)
  with n have ok: "decayScoringPolicySchema i mn d" "mn \<le> i"
    by (auto simp: calculateChallengeScore_def split: if_splits)
  have "decayed_points m i mn d n' \<le> decayed_points m i mn d n"
    using ok le by (intro decayed_antimono) (auto simp: decayScoringPolicySchema_def)
  from floor_mono [OF this] show ?thesis
    using n n' le ok DecayV1 by (auto simp: calculateChallengeScore_def split: if_splits)
qed

end

text \<open>Exact real arithmetic is one instance.\<close>

definition exact_math :: js_math where
  "exact_math = \<lparr>js_round = (\<lambda>x. x), js_exp = exp\<rparr>"

interpretation exact: js_arithmetic exact_math
  by unfold_locales (simp_all add: exact_math_def)

section \<open>Properties of the scoring function\<close>

lemma score_Inr_iff:
  "(\<exists>s. calculateChallengeScore m p n = Inr s) \<longleftrightarrow>
     challengeScoringPolicySchema p \<noteq> None \<and> safe_integer n \<and> 0 \<le> n"
  by (cases p) (auto simp: calculateChallengeScore_def)

lemma score_nonneg: "calculateChallengeScore m p n = Inr s \<Longrightarrow> 0 \<le> s \<and> s \<le> 1000000"
  by (cases p) (auto simp: calculateChallengeScore_def fixedScoringPolicySchema_def
      decayScoringPolicySchema_def split: if_splits)

end
