(* ===== verification/Scoring_Replay.thy ===== *)
theory Scoring_Replay
  imports Scoring
begin

text \<open>
  \<open>server/domains/submissions/scoring-replay.ts\<close>: recomputing the scores of a contest from its
  stored facts. A \<open>Map\<close> keyed by id is an association list in insertion order; every thrown
  \<open>ScoringReplayInvariantError\<close> is a constructor of \<open>replay_error\<close>.
\<close>

section \<open>Facts and results\<close>

datatype submission_mode = Official | Practice

datatype submission_result = Incorrect | Correct | AlreadySolved | RateLimited | Ineligible

datatype participation_status = Pending | Accepted | Rejected | Withdrawn

record replay_challenge_fact =
  rc_id :: uuid
  rc_scoringPolicy :: scoring_policy

record replay_participation_fact =
  rp_id :: uuid
  rp_teamId :: uuid
  rp_teamName :: string
  rp_divisionId :: "uuid option"
  rp_status :: participation_status

record replay_submission_fact =
  rs_id :: uuid
  rs_challengeId :: uuid
  rs_participationId :: uuid
  rs_mode :: submission_mode
  rs_result :: submission_result
  rs_submittedAt :: js_date

record replay_solve_fact =
  sv_id :: uuid
  sv_submissionId :: uuid
  sv_challengeId :: uuid
  sv_participationId :: uuid
  sv_mode :: submission_mode
  sv_solveOrder :: int
  sv_solvedAt :: js_date

record replay_adjustment_fact =
  ra_id :: uuid
  ra_participationId :: uuid
  ra_pointsDelta :: int
  ra_createdAt :: js_date

record contest_scoring_facts =
  f_challenges :: "replay_challenge_fact list"
  f_participations :: "replay_participation_fact list"
  f_submissions :: "replay_submission_fact list"
  f_solves :: "replay_solve_fact list"
  f_adjustments :: "replay_adjustment_fact list"

record first_solve =
  fs_solveId :: uuid
  fs_submissionId :: uuid
  fs_participationId :: uuid
  fs_solvedAt :: iso_text

record replayed_challenge_score =
  cs_challengeId :: uuid
  cs_officialSolveCount :: int
  cs_currentPoints :: int
  cs_firstSolve :: "first_solve option"

record replayed_solve =
  rv_solveId :: uuid
  rv_challengeId :: uuid
  rv_solvedAt :: iso_text

record replayed_participation_score =
  ps_participationId :: uuid
  ps_teamId :: uuid
  ps_teamName :: string
  ps_divisionId :: "uuid option"
  ps_status :: participation_status
  ps_solves :: "replayed_solve list"
  ps_officialSolveCount :: int
  ps_solvePoints :: int
  ps_adjustmentPoints :: int
  ps_totalPoints :: int
  ps_lastScoringAt :: "iso_text option"

record replayed_rank_summary =
  rk_rank :: nat
  rk_participationId :: uuid
  rk_teamId :: uuid
  rk_totalPoints :: int
  rk_lastScoringAt :: "iso_text option"

record contest_scoring_replay =
  r_factVersion :: int
  r_challengeScores :: "replayed_challenge_score list"
  r_participationScores :: "replayed_participation_score list"
  r_rankingSummary :: "replayed_rank_summary list"

datatype replay_error =
    DuplicateId string uuid
  | SolveUnknownChallenge uuid
  | SolveUnknownParticipation uuid
  | SolveMismatch uuid
  | InvalidSolveOrder uuid
  | InvalidTimestamp string
  | DuplicateSolvePair uuid uuid
  | DuplicateSolveSubmission uuid
  | SubmissionUnknownChallenge uuid
  | SubmissionUnknownParticipation uuid
  | CorrectSubmissionWithoutSolve uuid
  | NonContiguousSolveOrder uuid
  | AdjustmentUnknownParticipation uuid
  | InvalidPointsDelta uuid
  | UnsafeSum string
  | ScoringInputError scoring_error
  | InvalidTimeValue                 \<comment> \<open>the \<open>RangeError\<close> of \<open>toISOString\<close>\<close>
  | UndefinedAccumulator             \<comment> \<open>the \<open>TypeError\<close> of a failed non-null assertion\<close>

section \<open>Helpers\<close>

fun uniqueById_loop :: "('a \<Rightarrow> uuid) \<Rightarrow> string \<Rightarrow> 'a list \<Rightarrow> (uuid \<times> 'a) list
    \<Rightarrow> replay_error + (uuid \<times> 'a) list" where
  "uniqueById_loop ident kind [] result = Inr result"
| "uniqueById_loop ident kind (f # facts) result =
     (if map_of result (ident f) \<noteq> None then Inl (DuplicateId kind (ident f))
      else uniqueById_loop ident kind facts (result @ [(ident f, f)]))"

definition uniqueById :: "('a \<Rightarrow> uuid) \<Rightarrow> string \<Rightarrow> 'a list \<Rightarrow> replay_error + (uuid \<times> 'a) list" where
  "uniqueById ident kind facts = uniqueById_loop ident kind facts []"

text \<open>The difference of two time values, \<open>NaN\<close> (falsy, here 0) when one of them is.\<close>

fun date_diff :: "js_date \<Rightarrow> js_date \<Rightarrow> int" where
  "date_diff (Date a) (Date b) = a - b"
| "date_diff _ _ = 0"

definition compareSolveFacts :: "replay_solve_fact \<Rightarrow> replay_solve_fact \<Rightarrow> int" where
  "compareSolveFacts a b =
     js_or (localeCompare (sv_challengeId a) (sv_challengeId b))
       (js_or (sv_solveOrder a - sv_solveOrder b)
         (js_or (date_diff (sv_solvedAt a) (sv_solvedAt b))
           (localeCompare (sv_id a) (sv_id b))))"

definition compareAdjustmentFacts :: "replay_adjustment_fact \<Rightarrow> replay_adjustment_fact \<Rightarrow> int" where
  "compareAdjustmentFacts a b =
     js_or (date_diff (ra_createdAt a) (ra_createdAt b)) (localeCompare (ra_id a) (ra_id b))"

text \<open>\<open>null\<close> is \<open>Number.POSITIVE_INFINITY\<close>: \<open>None\<close> is above every time.\<close>

definition nullableTimestamp :: "iso_text option \<Rightarrow> millis option" where
  "nullableTimestamp v = map_option date_parse v"

fun infinity_less :: "millis option \<Rightarrow> millis option \<Rightarrow> bool" where
  "infinity_less (Some a) (Some b) = (a < b)"
| "infinity_less (Some a) None = True"
| "infinity_less None _ = False"

definition compareReplayedParticipationScores ::
  "replayed_participation_score \<Rightarrow> replayed_participation_score \<Rightarrow> int" where
  "compareReplayedParticipationScores a b =
     (if ps_totalPoints a \<noteq> ps_totalPoints b
      then (if ps_totalPoints a > ps_totalPoints b then - 1 else 1)
      else
        let aLast = nullableTimestamp (ps_lastScoringAt a);
            bLast = nullableTimestamp (ps_lastScoringAt b)
        in if aLast \<noteq> bLast then (if infinity_less aLast bLast then - 1 else 1)
           else js_or (localeCompare (ps_teamId a) (ps_teamId b))
                  (localeCompare (ps_participationId a) (ps_participationId b)))"

definition requireValidDate :: "js_date \<Rightarrow> string \<Rightarrow> replay_error + unit" where
  "requireValidDate d label = ensure (valid_date d) (InvalidTimestamp label)"

definition laterDate :: "js_date option \<Rightarrow> js_date \<Rightarrow> replay_error + js_date option" where
  "laterDate current candidate =
     ebind (requireValidDate candidate ''Scoring fact'') (\<lambda>_.
       Inr (case current of
              None \<Rightarrow> Some candidate
            | Some c \<Rightarrow> (if date_diff candidate c > 0 then Some candidate else Some c)))"

definition safeAdd :: "int \<Rightarrow> int \<Rightarrow> string \<Rightarrow> replay_error + int" where
  "safeAdd left right label =
     (if safe_integer (left + right) then Inr (left + right) else Inl (UnsafeSum label))"

fun toISOString :: "js_date \<Rightarrow> replay_error + iso_text" where
  "toISOString (Date t) = Inr (Iso t)"
| "toISOString InvalidDate = Inl InvalidTimeValue"

section \<open>The solve index\<close>

record solve_index =
  ix_solvesByChallenge :: "uuid \<Rightarrow> replay_solve_fact list"
  ix_solvedPairs :: "(uuid \<times> uuid) set"
  ix_solvedSubmissionIds :: "uuid set"

definition empty_index :: solve_index where
  "empty_index = \<lparr>ix_solvesByChallenge = (\<lambda>_. []), ix_solvedPairs = {}, ix_solvedSubmissionIds = {}\<rparr>"

text \<open>The condition under which a solve does not match one correct official submission.\<close>

definition solve_mismatch :: "replay_solve_fact \<Rightarrow> replay_submission_fact option \<Rightarrow> bool" where
  "solve_mismatch solve sub = (case sub of None \<Rightarrow> True
     | Some submission \<Rightarrow>
         rs_mode submission \<noteq> Official
         \<or> rs_result submission \<noteq> Correct
         \<or> rs_challengeId submission \<noteq> sv_challengeId solve
         \<or> rs_participationId submission \<noteq> sv_participationId solve
         \<or> nan_neq (getTime (rs_submittedAt submission)) (getTime (sv_solvedAt solve)))"

text \<open>The body of the loop over the official solves.\<close>

definition index_solve ::
  "(uuid \<times> replay_challenge_fact) list \<Rightarrow> (uuid \<times> replay_participation_fact) list
    \<Rightarrow> (uuid \<times> replay_submission_fact) list \<Rightarrow> replay_solve_fact \<Rightarrow> solve_index
    \<Rightarrow> replay_error + solve_index" where
  "index_solve challenges participations submissions solve ix =
     (if map_of challenges (sv_challengeId solve) = None then Inl (SolveUnknownChallenge (sv_id solve))
      else if map_of participations (sv_participationId solve) = None
      then Inl (SolveUnknownParticipation (sv_id solve))
      else if solve_mismatch solve (map_of submissions (sv_submissionId solve))
      then Inl (SolveMismatch (sv_id solve))
      else if \<not> safe_integer (sv_solveOrder solve) \<or> sv_solveOrder solve \<le> 0
      then Inl (InvalidSolveOrder (sv_id solve))
      else ebind (requireValidDate (sv_solvedAt solve) (''Solve '' @ sv_id solve)) (\<lambda>_.
        let pair = (sv_participationId solve, sv_challengeId solve) in
        if pair \<in> ix_solvedPairs ix then Inl (DuplicateSolvePair (fst pair) (snd pair))
        else if sv_submissionId solve \<in> ix_solvedSubmissionIds ix
        then Inl (DuplicateSolveSubmission (sv_submissionId solve))
        else Inr \<lparr>ix_solvesByChallenge = (ix_solvesByChallenge ix)
                    (sv_challengeId solve := ix_solvesByChallenge ix (sv_challengeId solve) @ [solve]),
                  ix_solvedPairs = insert pair (ix_solvedPairs ix),
                  ix_solvedSubmissionIds = insert (sv_submissionId solve) (ix_solvedSubmissionIds ix)\<rparr>))"

text \<open>The body of the loop over the submissions.\<close>

definition check_submission ::
  "(uuid \<times> replay_challenge_fact) list \<Rightarrow> (uuid \<times> replay_participation_fact) list \<Rightarrow> uuid set
    \<Rightarrow> replay_submission_fact \<Rightarrow> unit \<Rightarrow> replay_error + unit" where
  "check_submission challenges participations solvedSubmissionIds submission _ =
     ebind (requireValidDate (rs_submittedAt submission) (''Submission '' @ rs_id submission)) (\<lambda>_.
       if map_of challenges (rs_challengeId submission) = None
       then Inl (SubmissionUnknownChallenge (rs_id submission))
       else if map_of participations (rs_participationId submission) = None
       then Inl (SubmissionUnknownParticipation (rs_id submission))
       else if rs_mode submission = Official \<and> rs_result submission = Correct
               \<and> rs_id submission \<notin> solvedSubmissionIds
       then Inl (CorrectSubmissionWithoutSolve (rs_id submission))
       else Inr ())"

section \<open>Challenge scores\<close>

fun contiguous_from :: "int \<Rightarrow> replay_solve_fact list \<Rightarrow> bool" where
  "contiguous_from k [] = True"
| "contiguous_from k (solve # solves) = (sv_solveOrder solve = k \<and> contiguous_from (k + 1) solves)"

definition first_solve_of :: "replay_solve_fact list \<Rightarrow> replay_error + first_solve option" where
  "first_solve_of solves = (case solves of [] \<Rightarrow> Inr None
     | first # _ \<Rightarrow> ebind (toISOString (sv_solvedAt first)) (\<lambda>t.
         Inr (Some \<lparr>fs_solveId = sv_id first, fs_submissionId = sv_submissionId first,
                    fs_participationId = sv_participationId first, fs_solvedAt = t\<rparr>)))"

definition score_challenge ::
  "js_math \<Rightarrow> (uuid \<Rightarrow> replay_solve_fact list) \<Rightarrow> replay_challenge_fact
    \<Rightarrow> replay_error + replayed_challenge_score" where
  "score_challenge m solvesByChallenge challenge =
     (let solves = toSorted compareSolveFacts (solvesByChallenge (rc_id challenge)) in
      if \<not> contiguous_from 1 solves then Inl (NonContiguousSolveOrder (rc_id challenge))
      else ebind (map_error ScoringInputError
                    (calculateChallengeScore m (rc_scoringPolicy challenge) (int (length solves))))
             (\<lambda>currentPoints. ebind (first_solve_of solves) (\<lambda>first.
               Inr \<lparr>cs_challengeId = rc_id challenge, cs_officialSolveCount = int (length solves),
                    cs_currentPoints = currentPoints, cs_firstSolve = first\<rparr>)))"

section \<open>Participation accumulators\<close>

record accumulator =
  ac_participation :: replay_participation_fact
  ac_officialSolveCount :: int
  ac_solves :: "replay_solve_fact list"
  ac_solvePoints :: int
  ac_adjustmentPoints :: int
  ac_lastScoringAt :: "js_date option"

definition fresh_accumulator :: "replay_participation_fact \<Rightarrow> accumulator" where
  "fresh_accumulator p = \<lparr>ac_participation = p, ac_officialSolveCount = 0, ac_solves = [],
     ac_solvePoints = 0, ac_adjustmentPoints = 0, ac_lastScoringAt = None\<rparr>"

text \<open>Mutating the object a \<open>Map\<close> holds under a key.\<close>

definition put_at :: "uuid \<Rightarrow> 'a \<Rightarrow> (uuid \<times> 'a) list \<Rightarrow> (uuid \<times> 'a) list" where
  "put_at k v kvs = map (\<lambda>(k', v'). if k' = k then (k', v) else (k', v')) kvs"

definition accumulate_solve ::
  "(uuid \<rightharpoonup> int) \<Rightarrow> replay_solve_fact \<Rightarrow> (uuid \<times> accumulator) list
    \<Rightarrow> replay_error + (uuid \<times> accumulator) list" where
  "accumulate_solve challengePoints solve accs =
     (case map_of accs (sv_participationId solve) of None \<Rightarrow> Inl UndefinedAccumulator
      | Some a \<Rightarrow>
          (case challengePoints (sv_challengeId solve) of None \<Rightarrow> Inl (UnsafeSum ''solve points'')
           | Some points \<Rightarrow>
               ebind (safeAdd (ac_solvePoints a) points ''solve points'') (\<lambda>sum.
               ebind (laterDate (ac_lastScoringAt a) (sv_solvedAt solve)) (\<lambda>t.
                 Inr (put_at (sv_participationId solve)
                   (a\<lparr>ac_officialSolveCount := ac_officialSolveCount a + 1,
                      ac_solves := ac_solves a @ [solve],
                      ac_solvePoints := sum, ac_lastScoringAt := t\<rparr>) accs)))))"

definition accumulate_adjustment ::
  "replay_adjustment_fact \<Rightarrow> (uuid \<times> accumulator) list
    \<Rightarrow> replay_error + (uuid \<times> accumulator) list" where
  "accumulate_adjustment adj accs =
     (case map_of accs (ra_participationId adj) of
        None \<Rightarrow> Inl (AdjustmentUnknownParticipation (ra_id adj))
      | Some a \<Rightarrow>
          if \<not> safe_integer (ra_pointsDelta adj) \<or> ra_pointsDelta adj = 0
          then Inl (InvalidPointsDelta (ra_id adj))
          else ebind (requireValidDate (ra_createdAt adj) (''Score adjustment '' @ ra_id adj)) (\<lambda>_.
               ebind (safeAdd (ac_adjustmentPoints a) (ra_pointsDelta adj) ''adjustment points'') (\<lambda>sum.
               ebind (laterDate (ac_lastScoringAt a) (ra_createdAt adj)) (\<lambda>t.
                 Inr (put_at (ra_participationId adj)
                   (a\<lparr>ac_adjustmentPoints := sum, ac_lastScoringAt := t\<rparr>) accs)))))"

definition compareSolvesByChallenge :: "replay_solve_fact \<Rightarrow> replay_solve_fact \<Rightarrow> int" where
  "compareSolvesByChallenge a b =
     js_or (localeCompare (sv_challengeId a) (sv_challengeId b)) (compareSolveFacts a b)"

definition replayed_solve_of :: "replay_solve_fact \<Rightarrow> replay_error + replayed_solve" where
  "replayed_solve_of solve = ebind (toISOString (sv_solvedAt solve)) (\<lambda>t.
     Inr \<lparr>rv_solveId = sv_id solve, rv_challengeId = sv_challengeId solve, rv_solvedAt = t\<rparr>)"

definition iso_option :: "js_date option \<Rightarrow> replay_error + iso_text option" where
  "iso_option d = (case d of None \<Rightarrow> Inr None | Some v \<Rightarrow> ebind (toISOString v) (\<lambda>t. Inr (Some t)))"

definition participation_score :: "accumulator \<Rightarrow> replay_error + replayed_participation_score" where
  "participation_score a =
     ebind (safeAdd (ac_solvePoints a) (ac_adjustmentPoints a) ''total points'') (\<lambda>totalPoints.
     ebind (emap replayed_solve_of (toSorted compareSolvesByChallenge (ac_solves a))) (\<lambda>solves.
     ebind (iso_option (ac_lastScoringAt a)) (\<lambda>lastAt.
       Inr \<lparr>ps_participationId = rp_id (ac_participation a),
            ps_teamId = rp_teamId (ac_participation a),
            ps_teamName = rp_teamName (ac_participation a),
            ps_divisionId = rp_divisionId (ac_participation a),
            ps_status = rp_status (ac_participation a),
            ps_solves = solves, ps_officialSolveCount = ac_officialSolveCount a,
            ps_solvePoints = ac_solvePoints a, ps_adjustmentPoints = ac_adjustmentPoints a,
            ps_totalPoints = totalPoints, ps_lastScoringAt = lastAt\<rparr>)))"

section \<open>The replay\<close>

definition rank_row :: "replayed_participation_score \<Rightarrow> nat \<Rightarrow> replayed_rank_summary" where
  "rank_row score index = \<lparr>rk_rank = index + 1, rk_participationId = ps_participationId score,
     rk_teamId = ps_teamId score, rk_totalPoints = ps_totalPoints score,
     rk_lastScoringAt = ps_lastScoringAt score\<rparr>"

definition rankingSummary :: "replayed_participation_score list \<Rightarrow> replayed_rank_summary list" where
  "rankingSummary scores =
     (let ranked = toSorted compareReplayedParticipationScores
                     (filter (\<lambda>s. ps_status s = Accepted) scores)
      in map2 rank_row ranked [0..<length ranked])"

definition officialSolves :: "replay_solve_fact list \<Rightarrow> replay_solve_fact list" where
  "officialSolves solves = toSorted compareSolveFacts (filter (\<lambda>s. sv_mode s = Official) solves)"

definition challengePoints_of :: "replayed_challenge_score list \<Rightarrow> uuid \<rightharpoonup> int" where
  "challengePoints_of scores = map_of (map (\<lambda>s. (cs_challengeId s, cs_currentPoints s)) scores)"

definition replayContestScoring ::
  "js_math \<Rightarrow> contest_scoring_facts \<Rightarrow> replay_error + contest_scoring_replay" where
  "replayContestScoring m facts =
     ebind (uniqueById rc_id ''challenge'' (f_challenges facts)) (\<lambda>challenges.
     ebind (uniqueById rp_id ''participation'' (f_participations facts)) (\<lambda>participations.
     ebind (uniqueById rs_id ''submission'' (f_submissions facts)) (\<lambda>submissions.
     ebind (uniqueById sv_id ''solve'' (f_solves facts)) (\<lambda>_.
     ebind (uniqueById ra_id ''score adjustment'' (f_adjustments facts)) (\<lambda>_.
     let official = officialSolves (f_solves facts) in
     ebind (efold (index_solve challenges participations submissions) official empty_index) (\<lambda>ix.
     ebind (efold (check_submission challenges participations (ix_solvedSubmissionIds ix))
              (f_submissions facts) ()) (\<lambda>_.
     ebind (emap (score_challenge m (ix_solvesByChallenge ix))
              (toSorted (\<lambda>a b. localeCompare (rc_id a) (rc_id b)) (map snd challenges))) (\<lambda>challengeScores.
     ebind (efold (accumulate_solve (challengePoints_of challengeScores)) official
              (map (\<lambda>(_, p). (rp_id p, fresh_accumulator p)) participations)) (\<lambda>accs.
     ebind (efold accumulate_adjustment
              (toSorted compareAdjustmentFacts (f_adjustments facts)) accs) (\<lambda>accs'.
     ebind (emap participation_score (map snd accs')) (\<lambda>scores.
     let participationScores =
           toSorted (\<lambda>a b. localeCompare (ps_participationId a) (ps_participationId b)) scores in
     ebind (safeAdd (int (length official)) (int (length (f_adjustments facts))) ''fact version'')
       (\<lambda>factVersion.
       Inr \<lparr>r_factVersion = factVersion, r_challengeScores = challengeScores,
            r_participationScores = participationScores,
            r_rankingSummary = rankingSummary participationScores\<rparr>))))))))))))"

end
