(* ===== verification/Replay_Lemmas.thy ===== *)
theory Replay_Lemmas
  imports Scoring_Replay
begin

text \<open>
  Closed forms of the phases of \<open>replayContestScoring\<close>: when a loop succeeds, what its facts
  satisfy and what it has computed, stated without the loop.
\<close>

section \<open>Unique ids\<close>

lemma uniqueById_loop_Inr:
  "uniqueById_loop ident k fs acc = Inr m \<longleftrightarrow>
     distinct (map ident fs) \<and> ident ` set fs \<inter> fst ` set acc = {}
     \<and> m = acc @ map (\<lambda>f. (ident f, f)) fs"
proof (induction fs arbitrary: acc)
  case Nil
  show ?case by auto
next
  case (Cons f fs)
  show ?case
    by (auto simp: Cons.IH map_of_eq_None_iff image_iff)
qed

lemma uniqueById_Inr [simp]:
  "uniqueById ident k fs = Inr m \<longleftrightarrow>
     distinct (map ident fs) \<and> m = map (\<lambda>f. (ident f, f)) fs"
  by (auto simp: uniqueById_def uniqueById_loop_Inr)

lemma uniqueById_distinct [simp]:
  "distinct (map ident fs) \<Longrightarrow> uniqueById ident k fs = Inr (map (\<lambda>f. (ident f, f)) fs)"
  by simp

lemma map_of_ident:
  "distinct (map ident fs) \<Longrightarrow> map_of (map (\<lambda>f. (ident f, f)) fs) k = Some f
     \<longleftrightarrow> f \<in> set fs \<and> ident f = k"
  by (subst map_of_eq_Some_iff) (auto simp: comp_def)

lemma map_of_ident_None:
  "map_of (map (\<lambda>f. (ident f, f)) fs) k = None \<longleftrightarrow> k \<notin> ident ` set fs"
  by (auto simp: map_of_eq_None_iff image_iff)

text \<open>Looking up by a unique id does not depend on the order of the facts.\<close>

lemma map_of_ident_perm:
  assumes "distinct (map ident fs)" and "mset fs = mset fs'"
  shows "map_of (map (\<lambda>f. (ident f, f)) fs) = map_of (map (\<lambda>f. (ident f, f)) fs')"
proof -
  have "set fs = set fs'" using assms(2) by (rule mset_eq_setD)
  moreover have "distinct (map ident fs')"
    using assms by (metis mset_eq_imp_distinct_iff mset_map)
  ultimately have "map_of (map (\<lambda>f. (ident f, f)) fs) k = Some f
      \<longleftrightarrow> map_of (map (\<lambda>f. (ident f, f)) fs') k = Some f" for k f
    using assms(1) by (simp add: map_of_ident)
  then show ?thesis by (intro ext) (metis not_None_eq)
qed

section \<open>Comparators\<close>

fun date_time :: "js_date \<Rightarrow> millis" where
  "date_time (Date t) = t"
| "date_time InvalidDate = 0"

definition solve_key :: "replay_solve_fact \<Rightarrow> string \<times> int \<times> int \<times> string" where
  "solve_key s = (sv_challengeId s, sv_solveOrder s, date_time (sv_solvedAt s), sv_id s)"

definition adjustment_key :: "replay_adjustment_fact \<Rightarrow> int \<times> string" where
  "adjustment_key a = (date_time (ra_createdAt a), ra_id a)"

fun last_key :: "iso_text option \<Rightarrow> int \<times> int" where
  "last_key (Some (Iso t)) = (0, t)"
| "last_key None = (1, 0)"

definition rank_key :: "replayed_participation_score \<Rightarrow> int \<times> (int \<times> int) \<times> string \<times> string" where
  "rank_key s = (- ps_totalPoints s, last_key (ps_lastScoringAt s), ps_teamId s, ps_participationId s)"

lemma localeCompare_le0 [simp]: "localeCompare a b \<le> 0 \<longleftrightarrow> a \<le> b"
  by (auto simp: localeCompare_def)

lemma localeCompare_eq0 [simp]: "localeCompare a b = 0 \<longleftrightarrow> a = b"
  by (auto simp: localeCompare_def)

lemma js_or_locale [simp]:
  "js_or (localeCompare a b) n \<le> 0 \<longleftrightarrow> a < b \<or> (a = b \<and> n \<le> 0)"
  by (auto simp: js_or_def localeCompare_def)

lemma js_or_diff [simp]: "js_or (a - b) n \<le> 0 \<longleftrightarrow> a < b \<or> (a = b \<and> n \<le> 0)"
  by (auto simp: js_or_def)

interpretation solves: keyed_comparator compareSolveFacts solve_key "{s. valid_date (sv_solvedAt s)}"
proof unfold_locales
  fix a b :: replay_solve_fact
  assume "a \<in> {s. valid_date (sv_solvedAt s)}" "b \<in> {s. valid_date (sv_solvedAt s)}"
  then obtain t u where "sv_solvedAt a = Date t" "sv_solvedAt b = Date u"
    by (metis mem_Collect_eq valid_date.elims(2))
  then show "compareSolveFacts a b \<le> 0 \<longleftrightarrow> solve_key a \<le> solve_key b"
    by (auto simp: compareSolveFacts_def solve_key_def less_eq_prod_def less_prod_def)
qed

interpretation solves_by_challenge:
  keyed_comparator compareSolvesByChallenge solve_key "{s. valid_date (sv_solvedAt s)}"
proof unfold_locales
  fix a b :: replay_solve_fact
  assume "a \<in> {s. valid_date (sv_solvedAt s)}" "b \<in> {s. valid_date (sv_solvedAt s)}"
  then have "compareSolveFacts a b \<le> 0 \<longleftrightarrow> solve_key a \<le> solve_key b" by (rule solves.cmp_key)
  then show "compareSolvesByChallenge a b \<le> 0 \<longleftrightarrow> solve_key a \<le> solve_key b"
    by (auto simp: compareSolvesByChallenge_def solve_key_def)
qed

interpretation adjustments:
  keyed_comparator compareAdjustmentFacts adjustment_key "{a. valid_date (ra_createdAt a)}"
proof unfold_locales
  fix a b :: replay_adjustment_fact
  assume "a \<in> {s. valid_date (ra_createdAt s)}" "b \<in> {s. valid_date (ra_createdAt s)}"
  then obtain t u where "ra_createdAt a = Date t" "ra_createdAt b = Date u"
    by (metis mem_Collect_eq valid_date.elims(2))
  then show "compareAdjustmentFacts a b \<le> 0 \<longleftrightarrow> adjustment_key a \<le> adjustment_key b"
    by (auto simp: compareAdjustmentFacts_def adjustment_key_def)
qed

lemma infinity_less_key:
  "infinity_less (nullableTimestamp x) (nullableTimestamp y) \<longleftrightarrow> last_key x < last_key y"
  by (cases x rule: last_key.cases; cases y rule: last_key.cases) (auto simp: nullableTimestamp_def)

lemma nullableTimestamp_eq:
  "nullableTimestamp x = nullableTimestamp y \<longleftrightarrow> last_key x = last_key y"
  by (cases x rule: last_key.cases; cases y rule: last_key.cases) (auto simp: nullableTimestamp_def)

interpretation ranking: keyed_comparator compareReplayedParticipationScores rank_key UNIV
  by unfold_locales
    (auto simp: compareReplayedParticipationScores_def rank_key_def Let_def infinity_less_key
      nullableTimestamp_eq)

interpretation challenges_by_id:
  keyed_comparator "\<lambda>a b. localeCompare (rc_id a) (rc_id b)" rc_id UNIV
  by unfold_locales simp

interpretation scores_by_id:
  keyed_comparator "\<lambda>a b. localeCompare (ps_participationId a) (ps_participationId b)"
    ps_participationId UNIV
  by unfold_locales simp

section \<open>The solve index\<close>

definition solve_pair :: "replay_solve_fact \<Rightarrow> uuid \<times> uuid" where
  "solve_pair s = (sv_participationId s, sv_challengeId s)"

definition solve_wf ::
  "(uuid \<rightharpoonup> replay_challenge_fact) \<Rightarrow> (uuid \<rightharpoonup> replay_participation_fact)
    \<Rightarrow> (uuid \<rightharpoonup> replay_submission_fact) \<Rightarrow> replay_solve_fact \<Rightarrow> bool" where
  "solve_wf C P S s \<longleftrightarrow> C (sv_challengeId s) \<noteq> None \<and> P (sv_participationId s) \<noteq> None
     \<and> \<not> solve_mismatch s (S (sv_submissionId s))
     \<and> safe_integer (sv_solveOrder s) \<and> 0 < sv_solveOrder s \<and> valid_date (sv_solvedAt s)"

definition index_extend :: "replay_solve_fact list \<Rightarrow> solve_index \<Rightarrow> solve_index" where
  "index_extend xs ix =
     \<lparr>ix_solvesByChallenge =
        (\<lambda>c. ix_solvesByChallenge ix c @ filter (\<lambda>s. sv_challengeId s = c) xs),
      ix_solvedPairs = ix_solvedPairs ix \<union> solve_pair ` set xs,
      ix_solvedSubmissionIds = ix_solvedSubmissionIds ix \<union> sv_submissionId ` set xs\<rparr>"

lemma index_solve_Inr:
  "index_solve C P S s ix = Inr ix' \<longleftrightarrow>
     solve_wf (map_of C) (map_of P) (map_of S) s \<and> solve_pair s \<notin> ix_solvedPairs ix
     \<and> sv_submissionId s \<notin> ix_solvedSubmissionIds ix \<and> ix' = index_extend [s] ix"
  by (auto simp: index_solve_def solve_wf_def solve_pair_def index_extend_def Let_def ebind_Inr_iff
      requireValidDate_def fun_eq_iff split: if_splits)

lemma index_extend_Cons:
  "index_extend xs (index_extend [s] ix) = index_extend (s # xs) ix"
  by (auto simp: index_extend_def fun_eq_iff)

lemma index_loop_Inr:
  "efold (index_solve C P S) xs ix = Inr ix' \<longleftrightarrow>
     (\<forall>s\<in>set xs. solve_wf (map_of C) (map_of P) (map_of S) s)
     \<and> distinct (map solve_pair xs) \<and> distinct (map sv_submissionId xs)
     \<and> solve_pair ` set xs \<inter> ix_solvedPairs ix = {}
     \<and> sv_submissionId ` set xs \<inter> ix_solvedSubmissionIds ix = {}
     \<and> ix' = index_extend xs ix"
proof (induction xs arbitrary: ix)
  case Nil
  show ?case by (auto simp: index_extend_def)
next
  case (Cons s xs)
  have "efold (index_solve C P S) (s # xs) ix = Inr ix' \<longleftrightarrow>
      (\<exists>ix1. index_solve C P S s ix = Inr ix1 \<and> efold (index_solve C P S) xs ix1 = Inr ix')"
    by (auto split: sum.splits)
  also have "\<dots> \<longleftrightarrow> solve_wf (map_of C) (map_of P) (map_of S) s \<and> solve_pair s \<notin> ix_solvedPairs ix
     \<and> sv_submissionId s \<notin> ix_solvedSubmissionIds ix
     \<and> efold (index_solve C P S) xs (index_extend [s] ix) = Inr ix'"
    by (auto simp: index_solve_Inr)
  also have "\<dots> \<longleftrightarrow> (\<forall>s\<in>set (s # xs). solve_wf (map_of C) (map_of P) (map_of S) s)
     \<and> distinct (map solve_pair (s # xs)) \<and> distinct (map sv_submissionId (s # xs))
     \<and> solve_pair ` set (s # xs) \<inter> ix_solvedPairs ix = {}
     \<and> sv_submissionId ` set (s # xs) \<inter> ix_solvedSubmissionIds ix = {}
     \<and> ix' = index_extend (s # xs) ix"
    unfolding Cons.IH index_extend_Cons by (auto simp: index_extend_def image_iff)
  finally show ?case .
qed

section \<open>Submissions\<close>

definition submission_wf ::
  "(uuid \<rightharpoonup> replay_challenge_fact) \<Rightarrow> (uuid \<rightharpoonup> replay_participation_fact) \<Rightarrow> uuid set
    \<Rightarrow> replay_submission_fact \<Rightarrow> bool" where
  "submission_wf C P solved s \<longleftrightarrow> valid_date (rs_submittedAt s) \<and> C (rs_challengeId s) \<noteq> None
     \<and> P (rs_participationId s) \<noteq> None
     \<and> (rs_mode s = Official \<and> rs_result s = Correct \<longrightarrow> rs_id s \<in> solved)"

lemma check_submissions_Inr:
  "efold (check_submission C P solved) xs u = Inr u' \<longleftrightarrow>
     (\<forall>s\<in>set xs. submission_wf (map_of C) (map_of P) solved s)"
proof (induction xs)
  case Nil
  show ?case by simp
next
  case (Cons s xs)
  have "check_submission C P solved s u = Inr () \<longleftrightarrow> submission_wf (map_of C) (map_of P) solved s"
    by (auto simp: check_submission_def submission_wf_def ebind_Inr_iff requireValidDate_def)
  moreover have "efold (check_submission C P solved) (s # xs) u = Inr u' \<longleftrightarrow>
      check_submission C P solved s u = Inr () \<and> efold (check_submission C P solved) xs () = Inr u'"
    by (auto split: sum.splits)
  ultimately show ?case using Cons.IH by (simp add: unit_eq)
qed

section \<open>Contiguous solve orders\<close>

lemma contiguous_from_nth:
  "contiguous_from k xs \<longleftrightarrow> (\<forall>i < length xs. sv_solveOrder (xs ! i) = k + int i)"
proof (induction xs arbitrary: k)
  case Nil
  show ?case by simp
next
  case (Cons s xs)
  show ?case by (auto simp: Cons.IH less_Suc_eq_0_disj)
qed

section \<open>Accumulators\<close>

lemma map_fst_put_at [simp]: "map fst (put_at k v kvs) = map fst kvs"
  by (auto simp: put_at_def)

text \<open>A loop of the form "look the key up, change its object": each object sees its own facts.\<close>

lemma put_at_loop:
  assumes step: "\<And>x accs accs'. step x accs = Inr accs' \<Longrightarrow>
      \<exists>a. map_of accs (owner x) = Some a \<and> accs' = put_at (owner x) (upd x a) accs"
    and "efold step xs accs = Inr accs'" and "distinct (map fst accs)"
  shows "accs' = map (\<lambda>(k, a). (k, fold upd (filter (\<lambda>x. owner x = k) xs) a)) accs
    \<and> owner ` set xs \<subseteq> fst ` set accs"
  using assms(2,3)
proof (induction xs arbitrary: accs)
  case Nil
  then show ?case by (auto intro: map_idI [symmetric])
next
  case (Cons x xs)
  from Cons.prems(1) obtain accs1 where s1: "step x accs = Inr accs1"
    and rest: "efold step xs accs1 = Inr accs'" by (auto split: sum.splits)
  from step [OF s1] obtain a where a: "map_of accs (owner x) = Some a"
    and accs1: "accs1 = put_at (owner x) (upd x a) accs" by blast
  have "distinct (map fst accs1)" using Cons.prems(2) accs1 by simp
  from Cons.IH [OF rest this]
  have IH: "accs' = map (\<lambda>(k, a). (k, fold upd (filter (\<lambda>x. owner x = k) xs) a)) accs1"
    and sub: "owner ` set xs \<subseteq> fst ` set accs1" by blast+
  have keys: "fst ` set accs1 = fst ` set accs"
    using accs1 by (metis map_fst_put_at set_map)
  have "b = a" if "(owner x, b) \<in> set accs" for b
    using that a Cons.prems(2) by (metis eq_key_imp_eq_value map_of_SomeD)
  then have "accs' = map (\<lambda>(k, a). (k, fold upd (filter (\<lambda>x. owner x = k) (x # xs)) a)) accs"
    unfolding IH accs1 put_at_def by (auto simp: comp_def)
  moreover have "owner x \<in> fst ` set accs" using a by (force dest: map_of_SomeD)
  ultimately show ?case using sub keys by auto
qed

definition later_of :: "js_date option \<Rightarrow> js_date \<Rightarrow> js_date option" where
  "later_of current candidate = (case current of None \<Rightarrow> Some candidate
     | Some c \<Rightarrow> (if date_diff candidate c > 0 then Some candidate else Some c))"

lemma laterDate_Inr [simp]:
  "laterDate c d = Inr r \<longleftrightarrow> valid_date d \<and> r = later_of c d"
  by (auto simp: laterDate_def later_of_def requireValidDate_def ebind_Inr_iff)

lemma safeAdd_Inr [simp]: "safeAdd a b l = Inr r \<longleftrightarrow> safe_integer (a + b) \<and> r = a + b"
  by (auto simp: safeAdd_def)

definition add_solve :: "(uuid \<rightharpoonup> int) \<Rightarrow> replay_solve_fact \<Rightarrow> accumulator \<Rightarrow> accumulator" where
  "add_solve pts s a = a\<lparr>ac_officialSolveCount := ac_officialSolveCount a + 1,
     ac_solves := ac_solves a @ [s],
     ac_solvePoints := ac_solvePoints a + the (pts (sv_challengeId s)),
     ac_lastScoringAt := later_of (ac_lastScoringAt a) (sv_solvedAt s)\<rparr>"

definition add_adjustment :: "replay_adjustment_fact \<Rightarrow> accumulator \<Rightarrow> accumulator" where
  "add_adjustment d a = a\<lparr>ac_adjustmentPoints := ac_adjustmentPoints a + ra_pointsDelta d,
     ac_lastScoringAt := later_of (ac_lastScoringAt a) (ra_createdAt d)\<rparr>"

lemma accumulate_solve_Inr:
  "accumulate_solve pts s accs = Inr accs' \<longleftrightarrow>
     (\<exists>a. map_of accs (sv_participationId s) = Some a \<and> pts (sv_challengeId s) \<noteq> None
        \<and> safe_integer (ac_solvePoints a + the (pts (sv_challengeId s)))
        \<and> valid_date (sv_solvedAt s)
        \<and> accs' = put_at (sv_participationId s) (add_solve pts s a) accs)"
  by (auto simp: accumulate_solve_def add_solve_def ebind_Inr_iff split: option.splits)

lemma accumulate_adjustment_Inr:
  "accumulate_adjustment d accs = Inr accs' \<longleftrightarrow>
     (\<exists>a. map_of accs (ra_participationId d) = Some a
        \<and> safe_integer (ra_pointsDelta d) \<and> ra_pointsDelta d \<noteq> 0 \<and> valid_date (ra_createdAt d)
        \<and> safe_integer (ac_adjustmentPoints a + ra_pointsDelta d)
        \<and> accs' = put_at (ra_participationId d) (add_adjustment d a) accs)"
  by (auto simp: accumulate_adjustment_def add_adjustment_def ebind_Inr_iff requireValidDate_def
      split: option.splits)

lemma fold_add_solve:
  "fold (add_solve pts) xs a = a\<lparr>ac_officialSolveCount := ac_officialSolveCount a + int (length xs),
     ac_solves := ac_solves a @ xs,
     ac_solvePoints := ac_solvePoints a + (\<Sum>s\<leftarrow>xs. the (pts (sv_challengeId s))),
     ac_lastScoringAt := fold (\<lambda>s c. later_of c (sv_solvedAt s)) xs (ac_lastScoringAt a)\<rparr>"
  by (induction xs arbitrary: a) (simp_all add: add_solve_def)

lemma fold_add_adjustment:
  "fold add_adjustment ds a = a\<lparr>ac_adjustmentPoints := ac_adjustmentPoints a + (\<Sum>d\<leftarrow>ds. ra_pointsDelta d),
     ac_lastScoringAt := fold (\<lambda>d c. later_of c (ra_createdAt d)) ds (ac_lastScoringAt a)\<rparr>"
  by (induction ds arbitrary: a) (simp_all add: add_adjustment_def)

lemma solve_loop:
  assumes "efold (accumulate_solve pts) xs accs = Inr accs'" and "distinct (map fst accs)"
  shows "accs' = map (\<lambda>(k, a). (k, fold (add_solve pts)
      (filter (\<lambda>s. sv_participationId s = k) xs) a)) accs"
    and "sv_participationId ` set xs \<subseteq> fst ` set accs"
  using put_at_loop [where step = "accumulate_solve pts" and upd = "add_solve pts"
      and owner = sv_participationId, OF _ assms]
  by (auto simp: accumulate_solve_Inr)

lemma adjustment_loop:
  assumes "efold accumulate_adjustment ds accs = Inr accs'" and "distinct (map fst accs)"
  shows "accs' = map (\<lambda>(k, a). (k, fold add_adjustment
      (filter (\<lambda>d. ra_participationId d = k) ds) a)) accs"
    and "ra_participationId ` set ds \<subseteq> fst ` set accs"
  using put_at_loop [where step = accumulate_adjustment and upd = add_adjustment
      and owner = ra_participationId, OF _ assms]
  by (auto simp: accumulate_adjustment_Inr)

end
