(* ===== verification/Replay_Properties.thy ===== *)
theory Replay_Properties
  imports Replay_Lemmas
begin

text \<open>
  What a successful replay has established about its facts, and what it returns: the scores as
  sums over the facts, the ranking as a sorted list of the accepted participations.
\<close>

section \<open>What success means\<close>

definition challenge_map :: "contest_scoring_facts \<Rightarrow> uuid \<rightharpoonup> replay_challenge_fact" where
  "challenge_map facts = map_of (map (\<lambda>c. (rc_id c, c)) (f_challenges facts))"

definition participation_map :: "contest_scoring_facts \<Rightarrow> uuid \<rightharpoonup> replay_participation_fact" where
  "participation_map facts = map_of (map (\<lambda>p. (rp_id p, p)) (f_participations facts))"

definition submission_map :: "contest_scoring_facts \<Rightarrow> uuid \<rightharpoonup> replay_submission_fact" where
  "submission_map facts = map_of (map (\<lambda>s. (rs_id s, s)) (f_submissions facts))"

definition ids_unique :: "contest_scoring_facts \<Rightarrow> bool" where
  "ids_unique facts \<longleftrightarrow> distinct (map rc_id (f_challenges facts))
     \<and> distinct (map rp_id (f_participations facts)) \<and> distinct (map rs_id (f_submissions facts))
     \<and> distinct (map sv_id (f_solves facts)) \<and> distinct (map ra_id (f_adjustments facts))"

text \<open>The consistency of the facts, in terms of the sets of facts only.\<close>

definition facts_wf :: "contest_scoring_facts \<Rightarrow> bool" where
  "facts_wf facts \<longleftrightarrow> ids_unique facts
     \<and> (\<forall>s\<in>set (officialSolves (f_solves facts)).
          solve_wf (challenge_map facts) (participation_map facts) (submission_map facts) s)
     \<and> distinct (map solve_pair (officialSolves (f_solves facts)))
     \<and> distinct (map sv_submissionId (officialSolves (f_solves facts)))
     \<and> (\<forall>s\<in>set (f_submissions facts). submission_wf (challenge_map facts) (participation_map facts)
          (sv_submissionId ` set (officialSolves (f_solves facts))) s)"

definition solves_of_challenge :: "contest_scoring_facts \<Rightarrow> uuid \<Rightarrow> replay_solve_fact list" where
  "solves_of_challenge facts c = filter (\<lambda>s. sv_challengeId s = c) (officialSolves (f_solves facts))"

definition solves_of_participation :: "contest_scoring_facts \<Rightarrow> uuid \<Rightarrow> replay_solve_fact list" where
  "solves_of_participation facts p =
     filter (\<lambda>s. sv_participationId s = p) (officialSolves (f_solves facts))"

definition adjustments_of_participation ::
  "contest_scoring_facts \<Rightarrow> uuid \<Rightarrow> replay_adjustment_fact list" where
  "adjustments_of_participation facts p =
     filter (\<lambda>a. ra_participationId a = p) (toSorted compareAdjustmentFacts (f_adjustments facts))"

definition final_accumulator ::
  "(uuid \<rightharpoonup> int) \<Rightarrow> contest_scoring_facts \<Rightarrow> replay_participation_fact \<Rightarrow> accumulator" where
  "final_accumulator pts facts p =
     fold add_adjustment (adjustments_of_participation facts (rp_id p))
       (fold (add_solve pts) (solves_of_participation facts (rp_id p)) (fresh_accumulator p))"

text \<open>Everything a successful replay has computed, phase by phase and without its loops.\<close>

definition replay_holds ::
  "js_math \<Rightarrow> contest_scoring_facts \<Rightarrow> contest_scoring_replay \<Rightarrow> bool" where
  "replay_holds m facts r \<longleftrightarrow> facts_wf facts
     \<and> emap (score_challenge m (solves_of_challenge facts))
          (toSorted (\<lambda>a b. localeCompare (rc_id a) (rc_id b)) (f_challenges facts))
        = Inr (r_challengeScores r)
     \<and> (\<forall>a\<in>set (f_adjustments facts). participation_map facts (ra_participationId a) \<noteq> None
          \<and> valid_date (ra_createdAt a))
     \<and> (\<exists>scores. emap (\<lambda>p. participation_score
            (final_accumulator (challengePoints_of (r_challengeScores r)) facts p)) (f_participations facts)
          = Inr scores
        \<and> r_participationScores r =
          toSorted (\<lambda>a b. localeCompare (ps_participationId a) (ps_participationId b)) scores)
     \<and> r_factVersion r = int (length (officialSolves (f_solves facts))) + int (length (f_adjustments facts))
     \<and> r_rankingSummary r = rankingSummary (r_participationScores r)"

lemma emap_map: "emap f (map g xs) = emap (\<lambda>x. f (g x)) xs"
  by (induction xs) (simp_all cong: sum.case_cong)

lemma adjustment_loop_valid:
  "efold accumulate_adjustment ds accs = Inr accs' \<Longrightarrow> \<forall>d\<in>set ds. valid_date (ra_createdAt d)"
  by (induction ds arbitrary: accs) (auto split: sum.splits simp: accumulate_adjustment_Inr)

lemma replay_InrD:
  assumes "replayContestScoring m facts = Inr r"
  shows "replay_holds m facts r"
proof -
  let ?C = "map (\<lambda>c. (rc_id c, c)) (f_challenges facts)"
  let ?P = "map (\<lambda>p. (rp_id p, p)) (f_participations facts)"
  let ?S = "map (\<lambda>s. (rs_id s, s)) (f_submissions facts)"
  let ?off = "officialSolves (f_solves facts)"
  let ?init = "map (\<lambda>(_, p). (rp_id p, fresh_accumulator p)) ?P"
  let ?pts = "challengePoints_of (r_challengeScores r)"
  from assms obtain ix accs accs' scores where ids: "ids_unique facts"
    and ix: "efold (index_solve ?C ?P ?S) ?off empty_index = Inr ix"
    and subs: "efold (check_submission ?C ?P (ix_solvedSubmissionIds ix)) (f_submissions facts) () = Inr ()"
    and cs: "emap (score_challenge m (ix_solvesByChallenge ix))
        (toSorted (\<lambda>a b. localeCompare (rc_id a) (rc_id b)) (map snd ?C)) = Inr (r_challengeScores r)"
    and accs: "efold (accumulate_solve ?pts) ?off ?init = Inr accs"
    and accs': "efold accumulate_adjustment (toSorted compareAdjustmentFacts (f_adjustments facts)) accs
        = Inr accs'"
    and scores: "emap participation_score (map snd accs') = Inr scores"
    and ps: "r_participationScores r =
        toSorted (\<lambda>a b. localeCompare (ps_participationId a) (ps_participationId b)) scores"
    and fv: "r_factVersion r = int (length ?off) + int (length (f_adjustments facts))"
    and rk: "r_rankingSummary r = rankingSummary (r_participationScores r)"
    by (auto simp: replayContestScoring_def ebind_Inr_iff Let_def ids_unique_def)
  from ix have ix': "ix = index_extend ?off empty_index"
    and wf: "\<forall>s\<in>set ?off. solve_wf (map_of ?C) (map_of ?P) (map_of ?S) s"
    and d1: "distinct (map solve_pair ?off)" and d2: "distinct (map sv_submissionId ?off)"
    by (simp_all add: index_loop_Inr)
  have sol: "ix_solvesByChallenge ix = solves_of_challenge facts"
    and solved: "ix_solvedSubmissionIds ix = sv_submissionId ` set ?off"
    by (auto simp: ix' index_extend_def empty_index_def solves_of_challenge_def)
  have keys: "map fst ?init = map rp_id (f_participations facts)" by (simp add: comp_def)
  have dk: "distinct (map fst ?init)" unfolding keys using ids by (simp add: ids_unique_def)
  note loop1 = solve_loop [OF accs dk]
  have keys1: "map fst accs = map fst ?init"
    unfolding loop1(1) by (auto simp: comp_def split_def)
  with dk have dk1: "distinct (map fst accs)" by simp
  note loop2 = adjustment_loop [OF accs' dk1]
  have final: "map snd accs' = map (final_accumulator ?pts facts) (f_participations facts)"
    unfolding loop2(1) unfolding loop1(1)
    by (auto simp: comp_def final_accumulator_def solves_of_participation_def
        adjustments_of_participation_def)
  have "fst ` set accs = rp_id ` set (f_participations facts)"
    by (metis keys keys1 set_map)
  with loop2(2) have "\<forall>a\<in>set (f_adjustments facts). participation_map facts (ra_participationId a) \<noteq> None"
    by (auto simp: participation_map_def map_of_ident_None subset_iff image_iff)
  moreover have "\<forall>a\<in>set (f_adjustments facts). valid_date (ra_createdAt a)"
    using adjustment_loop_valid [OF accs'] by simp
  moreover have "facts_wf facts"
    using ids wf d1 d2 subs
    by (simp add: facts_wf_def check_submissions_Inr solved challenge_map_def participation_map_def
        submission_map_def)
  moreover have "emap (score_challenge m (solves_of_challenge facts))
      (toSorted (\<lambda>a b. localeCompare (rc_id a) (rc_id b)) (f_challenges facts)) = Inr (r_challengeScores r)"
    using cs by (simp add: sol comp_def)
  moreover have "emap (\<lambda>p. participation_score (final_accumulator ?pts facts p)) (f_participations facts)
      = Inr scores"
    using scores unfolding final emap_map .
  ultimately show ?thesis unfolding replay_holds_def using ps fv rk by blast
qed

section \<open>The parts of a replay\<close>

definition challenge_value :: "contest_scoring_replay \<Rightarrow> uuid \<Rightarrow> int" where
  "challenge_value r c = the (challengePoints_of (r_challengeScores r) c)"

text \<open>The official solves and the adjustments of a participation, as they are stored.\<close>

definition own_solves :: "contest_scoring_facts \<Rightarrow> uuid \<Rightarrow> replay_solve_fact list" where
  "own_solves facts p =
     filter (\<lambda>v. sv_mode v = Official \<and> sv_participationId v = p) (f_solves facts)"

definition own_adjustments :: "contest_scoring_facts \<Rightarrow> uuid \<Rightarrow> replay_adjustment_fact list" where
  "own_adjustments facts p = filter (\<lambda>a. ra_participationId a = p) (f_adjustments facts)"

definition scoring_times :: "contest_scoring_facts \<Rightarrow> uuid \<Rightarrow> millis set" where
  "scoring_times facts p = (\<lambda>v. date_time (sv_solvedAt v)) ` set (own_solves facts p)
     \<union> (\<lambda>a. date_time (ra_createdAt a)) ` set (own_adjustments facts p)"

lemma set_officialSolves [simp]:
  "set (officialSolves vs) = {v \<in> set vs. sv_mode v = Official}"
  by (auto simp: officialSolves_def)

lemma mset_own_solves: "mset (solves_of_participation facts p) = mset (own_solves facts p)"
  by (simp add: solves_of_participation_def own_solves_def officialSolves_def filter_filter_mset
      conj_commute)

lemma mset_own_adjustments:
  "mset (adjustments_of_participation facts p) = mset (own_adjustments facts p)"
  by (simp add: adjustments_of_participation_def own_adjustments_def)

lemma sum_list_mset_cong:
  "mset xs = mset ys \<Longrightarrow> sum_list (map f xs) = (sum_list (map f ys) :: int)"
  by (metis mset_map sum_mset_sum_list)

lemma fold_later:
  assumes "\<forall>x\<in>set xs. valid_date (f x)"
    and "c = (if A = {} then None else Some (Date (Max A)))" and "finite A"
  shows "fold (\<lambda>x c. later_of c (f x)) xs c =
    (let B = A \<union> (\<lambda>x. date_time (f x)) ` set xs
     in if B = {} then None else Some (Date (Max B)))"
  using assms
proof (induction xs arbitrary: c A)
  case Nil
  then show ?case by simp
next
  case (Cons x xs)
  obtain t where t: "f x = Date t" using Cons.prems(1) by (auto elim: valid_date.elims)
  have "later_of c (f x) = (if insert t A = {} then None else Some (Date (Max (insert t A))))"
    using Cons.prems(2,3) by (cases "A = {}") (simp_all add: later_of_def t max_def not_less del: Max_less_iff)
  from Cons.IH [OF _ this] Cons.prems(1,3) show ?case by (simp add: t Let_def)
qed

lemma participation_score_Inr:
  assumes "participation_score a = Inr s"
  shows "ps_participationId s = rp_id (ac_participation a)"
    and "ps_teamId s = rp_teamId (ac_participation a)"
    and "ps_status s = rp_status (ac_participation a)"
    and "ps_officialSolveCount s = ac_officialSolveCount a"
    and "ps_solvePoints s = ac_solvePoints a"
    and "ps_adjustmentPoints s = ac_adjustmentPoints a"
    and "ps_totalPoints s = ac_solvePoints a + ac_adjustmentPoints a"
    and "iso_option (ac_lastScoringAt a) = Inr (ps_lastScoringAt s)"
  using assms by (auto simp: participation_score_def ebind_Inr_iff)

lemma final_accumulator_fields:
  "ac_participation (final_accumulator pts facts p) = p"
  "ac_officialSolveCount (final_accumulator pts facts p) =
     int (length (own_solves facts (rp_id p)))"
  "ac_solvePoints (final_accumulator pts facts p) =
     (\<Sum>v\<leftarrow>own_solves facts (rp_id p). the (pts (sv_challengeId v)))"
  "ac_adjustmentPoints (final_accumulator pts facts p) =
     (\<Sum>d\<leftarrow>own_adjustments facts (rp_id p). ra_pointsDelta d)"
proof -
  show "ac_participation (final_accumulator pts facts p) = p"
    by (simp add: final_accumulator_def fold_add_solve fold_add_adjustment fresh_accumulator_def)
  have "length (solves_of_participation facts (rp_id p)) = length (own_solves facts (rp_id p))"
    by (rule mset_eq_length [OF mset_own_solves])
  then show "ac_officialSolveCount (final_accumulator pts facts p) =
      int (length (own_solves facts (rp_id p)))"
    by (simp add: final_accumulator_def fold_add_solve fold_add_adjustment fresh_accumulator_def)
  show "ac_solvePoints (final_accumulator pts facts p) =
      (\<Sum>v\<leftarrow>own_solves facts (rp_id p). the (pts (sv_challengeId v)))"
    using sum_list_mset_cong [OF mset_own_solves]
    by (simp add: final_accumulator_def fold_add_solve fold_add_adjustment fresh_accumulator_def)
  show "ac_adjustmentPoints (final_accumulator pts facts p) =
      (\<Sum>d\<leftarrow>own_adjustments facts (rp_id p). ra_pointsDelta d)"
    using sum_list_mset_cong [OF mset_own_adjustments]
    by (simp add: final_accumulator_def fold_add_solve fold_add_adjustment fresh_accumulator_def)
qed

lemma final_accumulator_last:
  assumes "\<forall>v\<in>set (own_solves facts (rp_id p)). valid_date (sv_solvedAt v)"
    and "\<forall>d\<in>set (own_adjustments facts (rp_id p)). valid_date (ra_createdAt d)"
  shows "ac_lastScoringAt (final_accumulator pts facts p) =
    (let T = scoring_times facts (rp_id p) in if T = {} then None else Some (Date (Max T)))"
proof -
  let ?V = "solves_of_participation facts (rp_id p)"
  let ?D = "adjustments_of_participation facts (rp_id p)"
  have V: "set ?V = set (own_solves facts (rp_id p))" by (rule mset_eq_setD [OF mset_own_solves])
  have D: "set ?D = set (own_adjustments facts (rp_id p))"
    by (rule mset_eq_setD [OF mset_own_adjustments])
  let ?T = "(\<lambda>v. date_time (sv_solvedAt v)) ` set ?V"
  have first: "fold (\<lambda>v c. later_of c (sv_solvedAt v)) ?V None =
      (if ?T = {} then None else Some (Date (Max ?T)))"
    using fold_later [where f = sv_solvedAt and xs = ?V and A = "{}"] assms(1)
    by (simp only: V Let_def) simp
  have "fold (\<lambda>d c. later_of c (ra_createdAt d)) ?D (fold (\<lambda>v c. later_of c (sv_solvedAt v)) ?V None)
      = (let B = ?T \<union> (\<lambda>d. date_time (ra_createdAt d)) ` set ?D
         in if B = {} then None else Some (Date (Max B)))"
    using assms(2) by (intro fold_later first) (simp_all only: D finite_imageI finite_set)
  then show ?thesis
    by (simp only: final_accumulator_def fold_add_solve fold_add_adjustment fresh_accumulator_def
        accumulator.simps scoring_times_def V D)
qed

lemma iso_option_Inr:
  "iso_option d = Inr t \<longleftrightarrow> (d = None \<and> t = None) \<or> (\<exists>x. d = Some (Date x) \<and> t = Some (Iso x))"
proof (cases d)
  case (Some v)
  then show ?thesis by (cases v) (auto simp: iso_option_def)
qed (auto simp: iso_option_def)

lemma replay_scores_from:
  assumes "replay_holds m facts r"
  obtains scores where
    "list_all2 (\<lambda>p s. participation_score
       (final_accumulator (challengePoints_of (r_challengeScores r)) facts p) = Inr s)
       (f_participations facts) scores"
    and "mset (r_participationScores r) = mset scores"
  using assms by (auto simp: replay_holds_def emap_Inr_iff)

lemma replay_score_origin:
  assumes "replay_holds m facts r" and "s \<in> set (r_participationScores r)"
  obtains p where "p \<in> set (f_participations facts)" and "rp_id p = ps_participationId s"
    and "participation_score (final_accumulator (challengePoints_of (r_challengeScores r)) facts p)
           = Inr s"
proof -
  obtain scores where l: "list_all2 (\<lambda>p s. participation_score
       (final_accumulator (challengePoints_of (r_challengeScores r)) facts p) = Inr s)
       (f_participations facts) scores" and ms: "mset (r_participationScores r) = mset scores"
    using assms(1) by (rule replay_scores_from)
  have "s \<in> set scores" using assms(2) mset_eq_setD [OF ms] by simp
  with l obtain p where p: "p \<in> set (f_participations facts)"
    "participation_score (final_accumulator (challengePoints_of (r_challengeScores r)) facts p) = Inr s"
    by (rule list_all2_member)
  show ?thesis
    using that [OF p(1) _ p(2)] participation_score_Inr(1) [OF p(2)]
    by (simp add: final_accumulator_fields)
qed

lemma replay_dates:
  assumes "replay_holds m facts r"
  shows "\<forall>v\<in>set (own_solves facts p). valid_date (sv_solvedAt v)"
    and "\<forall>d\<in>set (own_adjustments facts p). valid_date (ra_createdAt d)"
  using assms by (auto simp: replay_holds_def facts_wf_def solve_wf_def own_solves_def
      own_adjustments_def)


section \<open>Scores and ranking\<close>

text \<open>
  C1: In a successful replay the official solve count, solve points, adjustment points, total and
  last scoring time of every participation are exactly those of its own official solves and
  adjustments, each solve worth the value of its challenge in the same replay.
\<close>

theorem replay_totals:
  assumes "replayContestScoring m facts = Inr r" and "s \<in> set (r_participationScores r)"
  shows "let p = ps_participationId s; T = scoring_times facts p in
      ps_officialSolveCount s = int (length (own_solves facts p))
    \<and> ps_solvePoints s = (\<Sum>v\<leftarrow>own_solves facts p. challenge_value r (sv_challengeId v))
    \<and> ps_adjustmentPoints s = (\<Sum>d\<leftarrow>own_adjustments facts p. ra_pointsDelta d)
    \<and> ps_totalPoints s = ps_solvePoints s + ps_adjustmentPoints s
    \<and> ps_lastScoringAt s = (if T = {} then None else Some (Iso (Max T)))"
proof -
  from assms(1) have h: "replay_holds m facts r" by (rule replay_InrD)
  obtain p where id: "rp_id p = ps_participationId s"
    and ps: "participation_score (final_accumulator (challengePoints_of (r_challengeScores r)) facts p)
      = Inr s"
    using h assms(2) by (rule replay_score_origin)
  have "iso_option (let T = scoring_times facts (rp_id p) in
      if T = {} then None else Some (Date (Max T))) = Inr (ps_lastScoringAt s)"
    using participation_score_Inr(8) [OF ps] final_accumulator_last [OF replay_dates [OF h]] by simp
  then have "ps_lastScoringAt s =
      (let T = scoring_times facts (rp_id p) in if T = {} then None else Some (Iso (Max T)))"
    by (cases "scoring_times facts (rp_id p) = {}") (simp_all add: iso_option_def)
  moreover note participation_score_Inr(4-7) [OF ps, unfolded final_accumulator_fields id]
  ultimately show ?thesis by (simp only: id challenge_value_def Let_def simp_thms)
qed

lemma map_map2_index:
  "map h (map2 f xs [0..<length xs]) = map (\<lambda>i. h (f (xs ! i) i)) [0..<length xs]"
  by (rule nth_equalityI) simp_all

lemma rankingSummary_fields:
  "map rk_participationId (rankingSummary ss) = map ps_participationId
     (toSorted compareReplayedParticipationScores (filter (\<lambda>s. ps_status s = Accepted) ss))"
  "map rk_rank (rankingSummary ss) = [1..<Suc (length (rankingSummary ss))]"
  "length (rankingSummary ss) = length (filter (\<lambda>s. ps_status s = Accepted) ss)"
proof -
  show "map rk_participationId (rankingSummary ss) = map ps_participationId
     (toSorted compareReplayedParticipationScores (filter (\<lambda>s. ps_status s = Accepted) ss))"
    unfolding rankingSummary_def Let_def map_map2_index
    by (rule nth_equalityI) (simp_all add: rank_row_def)
  show "map rk_rank (rankingSummary ss) = [1..<Suc (length (rankingSummary ss))]"
    unfolding rankingSummary_def Let_def map_map2_index
    by (rule nth_equalityI) (simp_all add: rank_row_def del: upt_Suc)
  show "length (rankingSummary ss) = length (filter (\<lambda>s. ps_status s = Accepted) ss)"
    by (simp add: rankingSummary_def)
qed

definition rank_row_key :: "replayed_rank_summary \<Rightarrow> int \<times> (int \<times> int) \<times> string \<times> string" where
  "rank_row_key k = (- rk_totalPoints k, last_key (rk_lastScoringAt k), rk_teamId k, rk_participationId k)"

lemma rankingSummary_sorted: "sorted (map rank_row_key (rankingSummary ss))"
proof -
  let ?ranked = "toSorted compareReplayedParticipationScores (filter (\<lambda>s. ps_status s = Accepted) ss)"
  have "map rank_row_key (rankingSummary ss) = map rank_key ?ranked"
    unfolding rankingSummary_def Let_def map_map2_index
    by (rule nth_equalityI) (simp_all add: rank_row_def rank_row_key_def rank_key_def)
  then show ?thesis using ranking.toSorted_sorted [of "filter (\<lambda>s. ps_status s = Accepted) ss"] by simp
qed

lemma list_all2_filter_map:
  "list_all2 R xs ys \<Longrightarrow> (\<And>x y. R x y \<Longrightarrow> P x = Q y \<and> f x = g y) \<Longrightarrow>
     map f (filter P xs) = map g (filter Q ys)"
  by (induction rule: list_all2_induct) auto

text \<open>
  C2: The ranking lists each accepted participation exactly once and no other, numbers its rows
  1, 2, 3, ... and orders them by total points, the higher first; then by the last scoring time,
  the earlier first and a team that never scored last; then by team and participation id.
\<close>

theorem replay_ranking:
  assumes "replayContestScoring m facts = Inr r"
  shows "mset (map rk_participationId (r_rankingSummary r)) =
      mset (map rp_id (filter (\<lambda>p. rp_status p = Accepted) (f_participations facts)))
    \<and> map rk_rank (r_rankingSummary r) = [1..<Suc (length (r_rankingSummary r))]
    \<and> sorted (map (\<lambda>k. (- rk_totalPoints k, last_key (rk_lastScoringAt k), rk_teamId k,
        rk_participationId k)) (r_rankingSummary r))"
proof -
  from assms have h: "replay_holds m facts r" by (rule replay_InrD)
  obtain scores where l: "list_all2 (\<lambda>p s. participation_score
       (final_accumulator (challengePoints_of (r_challengeScores r)) facts p) = Inr s)
       (f_participations facts) scores" and ms: "mset (r_participationScores r) = mset scores"
    using h by (rule replay_scores_from)
  have eq: "map rp_id (filter (\<lambda>p. rp_status p = Accepted) (f_participations facts)) =
      map ps_participationId (filter (\<lambda>s. ps_status s = Accepted) scores)"
    using l by (rule list_all2_filter_map) (auto dest: participation_score_Inr(1,3)
        simp: final_accumulator_fields)
  have "mset (map rk_participationId (rankingSummary (r_participationScores r))) =
      image_mset ps_participationId (filter_mset (\<lambda>s. ps_status s = Accepted) (mset scores))"
    by (simp only: rankingSummary_fields mset_map mset_toSorted mset_filter ms)
  then have "mset (map rk_participationId (rankingSummary (r_participationScores r))) =
      mset (map rp_id (filter (\<lambda>p. rp_status p = Accepted) (f_participations facts)))"
    unfolding eq by simp
  moreover have "r_rankingSummary r = rankingSummary (r_participationScores r)"
    using h by (simp add: replay_holds_def)
  ultimately show ?thesis
    using rankingSummary_sorted [of "r_participationScores r"]
      rankingSummary_fields(2) [of "r_participationScores r"]
    by (simp add: rank_row_key_def cong: map_cong)
qed


section \<open>Challenge scores\<close>

definition challenge_solves :: "contest_scoring_facts \<Rightarrow> uuid \<Rightarrow> replay_solve_fact list" where
  "challenge_solves facts c =
     filter (\<lambda>v. sv_mode v = Official \<and> sv_challengeId v = c) (f_solves facts)"

lemma mset_challenge_solves: "mset (solves_of_challenge facts c) = mset (challenge_solves facts c)"
  by (simp add: solves_of_challenge_def challenge_solves_def officialSolves_def filter_filter_mset
      conj_commute)

lemma contiguous_orders:
  "contiguous_from k xs \<Longrightarrow> map sv_solveOrder xs = map (\<lambda>i. k + int i) [0..<length xs]"
  by (rule nth_equalityI) (simp_all add: contiguous_from_nth)

definition is_first_solve :: "replay_solve_fact \<Rightarrow> first_solve \<Rightarrow> bool" where
  "is_first_solve v fs \<longleftrightarrow> sv_solveOrder v = 1 \<and> fs_solveId fs = sv_id v
     \<and> fs_submissionId fs = sv_submissionId v \<and> fs_participationId fs = sv_participationId v
     \<and> sv_solvedAt v = Date (date_parse (fs_solvedAt fs))"

lemma first_solve_of_Inr:
  assumes "first_solve_of vs = Inr fs" and "contiguous_from 1 vs"
  shows "case fs of None \<Rightarrow> vs = [] | Some f \<Rightarrow> \<exists>v\<in>set vs. is_first_solve v f"
proof (cases vs)
  case Nil
  then show ?thesis using assms by (simp add: first_solve_of_def)
next
  case (Cons v us)
  then show ?thesis using assms
    by (cases "sv_solvedAt v") (auto simp: first_solve_of_def is_first_solve_def)
qed

lemma score_challenge_Inr:
  assumes "score_challenge m (solves_of_challenge facts) c = Inr cs"
  shows "cs_challengeId cs = rc_id c"
    and "cs_officialSolveCount cs = int (length (challenge_solves facts (rc_id c)))"
    and "calculateChallengeScore m (rc_scoringPolicy c) (cs_officialSolveCount cs)
           = Inr (cs_currentPoints cs)"
    and "mset (map sv_solveOrder (challenge_solves facts (rc_id c))) =
           mset (map (\<lambda>i. 1 + int i) [0..<length (challenge_solves facts (rc_id c))])"
    and "case cs_firstSolve cs of None \<Rightarrow> challenge_solves facts (rc_id c) = []
           | Some fs \<Rightarrow> \<exists>v\<in>set (challenge_solves facts (rc_id c)). is_first_solve v fs"
proof -
  let ?V = "toSorted compareSolveFacts (solves_of_challenge facts (rc_id c))"
  let ?W = "challenge_solves facts (rc_id c)"
  have ms: "mset ?V = mset ?W" by (simp add: mset_challenge_solves)
  have len: "length ?V = length ?W" using ms by (rule mset_eq_length)
  from assms have con: "contiguous_from 1 ?V" and fs: "first_solve_of ?V = Inr (cs_firstSolve cs)"
    and rest: "cs_challengeId cs = rc_id c" "cs_officialSolveCount cs = int (length ?V)"
      "calculateChallengeScore m (rc_scoringPolicy c) (int (length ?V)) = Inr (cs_currentPoints cs)"
    by (auto simp: score_challenge_def Let_def ebind_Inr_iff split: if_splits)
  show "cs_challengeId cs = rc_id c" by (rule rest)
  show n: "cs_officialSolveCount cs = int (length ?W)" using rest(2) len by simp
  show "calculateChallengeScore m (rc_scoringPolicy c) (cs_officialSolveCount cs)
      = Inr (cs_currentPoints cs)" using rest by simp
  have "mset (map sv_solveOrder ?W) = mset (map sv_solveOrder ?V)" by (simp only: mset_map ms)
  then show "mset (map sv_solveOrder ?W) = mset (map (\<lambda>i. 1 + int i) [0..<length ?W])"
    using contiguous_orders [OF con] len by simp
  have "set ?V = set ?W" using ms by (rule mset_eq_setD)
  moreover have "?V = [] \<longleftrightarrow> ?W = []" using len by (metis length_0_conv)
  ultimately show "case cs_firstSolve cs of None \<Rightarrow> ?W = []
      | Some fs \<Rightarrow> \<exists>v\<in>set ?W. is_first_solve v fs"
    using first_solve_of_Inr [OF fs con] by (simp split: option.splits)
qed

lemma list_all2_map_eq: "list_all2 R xs ys \<Longrightarrow> (\<And>x y. R x y \<Longrightarrow> g y = f x) \<Longrightarrow> map g ys = map f xs"
  by (induction rule: list_all2_induct) auto

lemma challenges_sorted_ids:
  "map rc_id (toSorted (\<lambda>a b. localeCompare (rc_id a) (rc_id b)) cs) = sort (map rc_id cs)"
  by (rule properties_for_sort [symmetric])
    (use challenges_by_id.toSorted_sorted [of cs] in \<open>simp_all only: mset_map mset_toSorted subset_UNIV simp_thms\<close>)

text \<open>
  C3: A successful replay scores each challenge once, in id order, from its own official solves:
  their orders are exactly 1, ..., n, the current points are the scoring policy at n, the first
  solve is the one with order 1; and the fact version counts the official solves and adjustments.
\<close>

theorem replay_challenge_scores:
  assumes "replayContestScoring m facts = Inr r"
  shows "map cs_challengeId (r_challengeScores r) = sort (map rc_id (f_challenges facts))
    \<and> r_factVersion r = int (length (filter (\<lambda>v. sv_mode v = Official) (f_solves facts)))
        + int (length (f_adjustments facts))
    \<and> (\<forall>cs\<in>set (r_challengeScores r). \<exists>c\<in>set (f_challenges facts).
        rc_id c = cs_challengeId cs
        \<and> (let V = challenge_solves facts (rc_id c) in
             cs_officialSolveCount cs = int (length V)
             \<and> calculateChallengeScore m (rc_scoringPolicy c) (int (length V)) = Inr (cs_currentPoints cs)
             \<and> mset (map sv_solveOrder V) = mset (map (\<lambda>i. 1 + int i) [0..<length V])
             \<and> (case cs_firstSolve cs of None \<Rightarrow> V = []
                | Some fs \<Rightarrow> \<exists>v\<in>set V. is_first_solve v fs)))"
proof -
  from assms have h: "replay_holds m facts r" by (rule replay_InrD)
  let ?C = "toSorted (\<lambda>a b. localeCompare (rc_id a) (rc_id b)) (f_challenges facts)"
  have l: "list_all2 (\<lambda>c cs. score_challenge m (solves_of_challenge facts) c = Inr cs)
      ?C (r_challengeScores r)"
    using h by (simp add: replay_holds_def emap_Inr_iff)
  have "map cs_challengeId (r_challengeScores r) = sort (map rc_id (f_challenges facts))"
    using list_all2_map_eq [OF l, of cs_challengeId rc_id] score_challenge_Inr(1) challenges_sorted_ids
    by metis
  moreover have "r_factVersion r = int (length (filter (\<lambda>v. sv_mode v = Official) (f_solves facts)))
        + int (length (f_adjustments facts))"
    using h by (simp add: replay_holds_def officialSolves_def)
  moreover have "\<exists>c\<in>set (f_challenges facts). rc_id c = cs_challengeId cs
        \<and> (let V = challenge_solves facts (rc_id c) in
             cs_officialSolveCount cs = int (length V)
             \<and> calculateChallengeScore m (rc_scoringPolicy c) (int (length V)) = Inr (cs_currentPoints cs)
             \<and> mset (map sv_solveOrder V) = mset (map (\<lambda>i. 1 + int i) [0..<length V])
             \<and> (case cs_firstSolve cs of None \<Rightarrow> V = []
                | Some fs \<Rightarrow> \<exists>v\<in>set V. is_first_solve v fs))"
    if cs: "cs \<in> set (r_challengeScores r)" for cs
  proof -
    obtain c where c: "c \<in> set ?C" "score_challenge m (solves_of_challenge facts) c = Inr cs"
      using l cs by (rule list_all2_member)
    from score_challenge_Inr [OF c(2)] c(1) show ?thesis
      by (intro bexI [of _ c]) (simp_all add: Let_def)
  qed
  ultimately show ?thesis by blast
qed

end
