(* ===== verification/Replay_Invariance.thy ===== *)
theory Replay_Invariance
  imports Replay_Properties
begin

text \<open>
  What a replay does not depend on - the order in which the repository returns the facts, and the
  practice facts - and when it is bound to succeed.
\<close>

section \<open>Order independence\<close>

definition same_facts :: "contest_scoring_facts \<Rightarrow> contest_scoring_facts \<Rightarrow> bool" where
  "same_facts f g \<longleftrightarrow> mset (f_challenges f) = mset (f_challenges g)
     \<and> mset (f_participations f) = mset (f_participations g)
     \<and> mset (f_submissions f) = mset (f_submissions g)
     \<and> mset (f_solves f) = mset (f_solves g) \<and> mset (f_adjustments f) = mset (f_adjustments g)"

lemma map_of_perm:
  assumes "mset kvs = mset kvs'" and "distinct (map fst kvs)"
  shows "map_of kvs = map_of kvs'"
proof (rule ext)
  have d: "distinct (map fst kvs')" using assms by (metis mset_eq_imp_distinct_iff mset_map)
  have "set kvs = set kvs'" using assms(1) by (rule mset_eq_setD)
  then have "map_of kvs k = Some v \<longleftrightarrow> map_of kvs' k = Some v" for k v
    using assms(2) d by (simp add: map_of_eq_Some_iff)
  then show "map_of kvs k = map_of kvs' k" for k by (metis not_None_eq)
qed

lemma mset_put_at: "mset kvs = mset kvs' \<Longrightarrow> mset (put_at k v kvs) = mset (put_at k v kvs')"
  by (simp add: put_at_def)

text \<open>A loop of lookups and updates by key commutes with reordering the map.\<close>

lemma keyed_loop_perm:
  assumes step: "\<And>x accs accs'. step x accs = Inr accs' \<longleftrightarrow>
      (\<exists>a. map_of accs (owner x) = Some a \<and> Q x a \<and> accs' = put_at (owner x) (upd x a) accs)"
    and "efold step xs accs = Inr accs'" and "distinct (map fst accs)" and "mset accs = mset other"
  shows "\<exists>other'. efold step xs other = Inr other' \<and> mset accs' = mset other'"
  using assms(2-4)
proof (induction xs arbitrary: accs other)
  case Nil
  then show ?case by simp
next
  case (Cons x xs)
  from Cons.prems(1) obtain accs1 where s1: "step x accs = Inr accs1"
    and rest: "efold step xs accs1 = Inr accs'" by (auto split: sum.splits)
  from s1 obtain a where a: "map_of accs (owner x) = Some a" "Q x a"
    and accs1: "accs1 = put_at (owner x) (upd x a) accs" unfolding step by blast
  let ?o1 = "put_at (owner x) (upd x a) other"
  have "map_of other (owner x) = Some a"
    using a(1) map_of_perm [OF Cons.prems(3,2)] by simp
  then have o1: "step x other = Inr ?o1" using a(2) unfolding step by blast
  have "distinct (map fst accs1)" using Cons.prems(2) by (simp add: accs1)
  from Cons.IH [OF rest this, of ?o1] o1 show ?case
    using mset_put_at [OF Cons.prems(3)] by (simp add: accs1)
qed

lemma solve_loop_perm:
  assumes "efold (accumulate_solve pts) xs accs = Inr accs'" and "distinct (map fst accs)"
    and "mset accs = mset other"
  shows "\<exists>other'. efold (accumulate_solve pts) xs other = Inr other' \<and> mset accs' = mset other'"
  by (rule keyed_loop_perm [where step = "accumulate_solve pts" and upd = "add_solve pts"
        and owner = sv_participationId and Q = "\<lambda>s a. pts (sv_challengeId s) \<noteq> None
          \<and> safe_integer (ac_solvePoints a + the (pts (sv_challengeId s))) \<and> valid_date (sv_solvedAt s)", OF _ assms])
    (auto simp: accumulate_solve_Inr)

lemma adjustment_loop_perm:
  assumes "efold accumulate_adjustment xs accs = Inr accs'" and "distinct (map fst accs)"
    and "mset accs = mset other"
  shows "\<exists>other'. efold accumulate_adjustment xs other = Inr other' \<and> mset accs' = mset other'"
  by (rule keyed_loop_perm [where step = accumulate_adjustment and upd = add_adjustment
        and owner = ra_participationId and Q = "\<lambda>d a. safe_integer (ra_pointsDelta d)
          \<and> ra_pointsDelta d \<noteq> 0 \<and> valid_date (ra_createdAt d)
          \<and> safe_integer (ac_adjustmentPoints a + ra_pointsDelta d)", OF _ assms])
    (auto simp: accumulate_adjustment_Inr)

lemma emap_perm:
  assumes "emap f xs = Inr ys" and "mset xs = mset xs'"
  shows "\<exists>ys'. emap f xs' = Inr ys' \<and> mset ys = mset ys'"
  using list_all2_reorder_left_invariance [of "\<lambda>x y. f x = Inr y" xs ys xs'] assms
  by (auto simp: emap_Inr_iff)

lemma distinct_map_perm: "mset xs = mset ys \<Longrightarrow> distinct (map f xs) \<longleftrightarrow> distinct (map f ys)"
  by (metis mset_eq_imp_distinct_iff mset_map)

lemma fst_loops:
  assumes "efold (accumulate_solve pts) xs accs = Inr accs1" and "distinct (map fst accs)"
  shows "map fst accs1 = map fst accs"
  unfolding solve_loop(1) [OF assms] by (auto simp: comp_def split_def)

lemma solves_unique:
  assumes "mset vs = mset ws" and "distinct (map sv_id vs)"
    and "\<forall>v\<in>set (officialSolves vs). valid_date (sv_solvedAt v)"
  shows "officialSolves vs = officialSolves ws"
  unfolding officialSolves_def
proof (rule solves.toSorted_unique)
  show "set (filter (\<lambda>s. sv_mode s = Official) vs) \<subseteq> {s. valid_date (sv_solvedAt s)}"
    using assms(3) by auto
  show "mset (filter (\<lambda>s. sv_mode s = Official) vs) = mset (filter (\<lambda>s. sv_mode s = Official) ws)"
    using assms(1) by simp
  show "inj_on solve_key (set (filter (\<lambda>s. sv_mode s = Official) vs))"
    using assms(2) by (auto simp: inj_on_def solve_key_def distinct_map)
qed

lemma adjustments_unique:
  assumes "mset ds = mset es" and "distinct (map ra_id ds)" and "\<forall>d\<in>set ds. valid_date (ra_createdAt d)"
  shows "toSorted compareAdjustmentFacts ds = toSorted compareAdjustmentFacts es"
  using assms by (intro adjustments.toSorted_unique) (auto simp: inj_on_def adjustment_key_def distinct_map)

lemma replay_score_ids:
  assumes "replay_holds m facts r"
  shows "mset (map ps_participationId (r_participationScores r)) = mset (map rp_id (f_participations facts))"
proof -
  obtain scores where l: "list_all2 (\<lambda>p s. participation_score
       (final_accumulator (challengePoints_of (r_challengeScores r)) facts p) = Inr s)
       (f_participations facts) scores" and ms: "mset (r_participationScores r) = mset scores"
    using assms by (rule replay_scores_from)
  have "map ps_participationId scores = map rp_id (f_participations facts)"
    using l by (rule list_all2_map_eq) (auto dest: participation_score_Inr(1) simp: final_accumulator_fields)
  then show ?thesis using ms by (metis mset_map)
qed

text \<open>
  C4: The replay does not depend on the order in which the facts were loaded: on any reordering of
  the same challenges, participations, submissions, solves and adjustments it returns the same
  scores and the same ranking, in the same order.
\<close>

theorem replay_order_independent:
  assumes "replayContestScoring m facts = Inr r" and "same_facts facts facts'"
  shows "replayContestScoring m facts' = Inr r"
proof -
  let ?C = "\<lambda>f. map (\<lambda>c. (rc_id c, c)) (f_challenges f)"
  let ?P = "\<lambda>f. map (\<lambda>p. (rp_id p, p)) (f_participations f)"
  let ?S = "\<lambda>f. map (\<lambda>s. (rs_id s, s)) (f_submissions f)"
  let ?off = "\<lambda>f. officialSolves (f_solves f)"
  let ?init = "\<lambda>f. map (\<lambda>(_, p). (rp_id p, fresh_accumulator p)) (?P f)"
  let ?pts = "challengePoints_of (r_challengeScores r)"
  let ?cid = "\<lambda>a b. localeCompare (rc_id a) (rc_id b)"
  from assms(2) have ms: "mset (f_challenges facts) = mset (f_challenges facts')"
    "mset (f_participations facts) = mset (f_participations facts')"
    "mset (f_submissions facts) = mset (f_submissions facts')"
    "mset (f_solves facts) = mset (f_solves facts')"
    "mset (f_adjustments facts) = mset (f_adjustments facts')" by (simp_all add: same_facts_def)
  from assms(1) obtain ix accs accs' scores where ids: "ids_unique facts"
    and ix: "efold (index_solve (?C facts) (?P facts) (?S facts)) (?off facts) empty_index = Inr ix"
    and subs: "efold (check_submission (?C facts) (?P facts) (ix_solvedSubmissionIds ix))
        (f_submissions facts) () = Inr ()"
    and cs: "emap (score_challenge m (ix_solvesByChallenge ix))
        (toSorted ?cid (map snd (?C facts))) = Inr (r_challengeScores r)"
    and accs: "efold (accumulate_solve ?pts) (?off facts) (?init facts) = Inr accs"
    and accs': "efold accumulate_adjustment (toSorted compareAdjustmentFacts (f_adjustments facts)) accs
        = Inr accs'"
    and scores: "emap participation_score (map snd accs') = Inr scores"
    and ps: "r_participationScores r =
        toSorted (\<lambda>a b. localeCompare (ps_participationId a) (ps_participationId b)) scores"
    and fv: "safeAdd (int (length (?off facts))) (int (length (f_adjustments facts))) ''fact version''
        = Inr (r_factVersion r)"
    and rk: "r_rankingSummary r = rankingSummary (r_participationScores r)"
    by (auto simp: replayContestScoring_def ebind_Inr_iff Let_def ids_unique_def)
  have h: "replay_holds m facts r" using assms(1) by (rule replay_InrD)
  have d: "distinct (map rc_id (f_challenges facts))" "distinct (map rp_id (f_participations facts))"
    "distinct (map rs_id (f_submissions facts))" "distinct (map sv_id (f_solves facts))"
    "distinct (map ra_id (f_adjustments facts))" using ids by (simp_all add: ids_unique_def)
  have d': "distinct (map rc_id (f_challenges facts'))" "distinct (map rp_id (f_participations facts'))"
    "distinct (map rs_id (f_submissions facts'))" "distinct (map sv_id (f_solves facts'))"
    "distinct (map ra_id (f_adjustments facts'))" using d ms by (metis distinct_map_perm)+
  have off: "?off facts' = ?off facts"
    using h by (intro solves_unique [symmetric] ms d) (auto simp: replay_holds_def facts_wf_def solve_wf_def)
  have adj: "toSorted compareAdjustmentFacts (f_adjustments facts') =
      toSorted compareAdjustmentFacts (f_adjustments facts)"
    using h by (intro adjustments_unique [symmetric] ms d) (auto simp: replay_holds_def)
  have maps: "map_of (?C facts') = map_of (?C facts)" "map_of (?P facts') = map_of (?P facts)"
    "map_of (?S facts') = map_of (?S facts)"
    using map_of_ident_perm [OF d(1) ms(1)] map_of_ident_perm [OF d(2) ms(2)]
      map_of_ident_perm [OF d(3) ms(3)] by simp_all
  have ix2: "efold (index_solve (?C facts') (?P facts') (?S facts')) (?off facts) empty_index = Inr ix"
    using ix unfolding index_loop_Inr maps .
  have subs2: "efold (check_submission (?C facts') (?P facts') (ix_solvedSubmissionIds ix))
      (f_submissions facts') () = Inr ()"
    using subs mset_eq_setD [OF ms(3)] unfolding check_submissions_Inr maps by simp
  have sorted: "toSorted ?cid (map snd (?C facts')) = toSorted ?cid (map snd (?C facts))"
    using ms(1) d(1) by (intro challenges_by_id.toSorted_unique)
      (auto simp: comp_def distinct_map inj_on_def dest!: mset_eq_setD)
  have mi: "mset (?init facts) = mset (?init facts')" using ms(2) by simp
  have di: "distinct (map fst (?init facts))" using d(2) by (simp add: comp_def)
  obtain accs2 where accs2: "efold (accumulate_solve ?pts) (?off facts) (?init facts') = Inr accs2"
    and m2: "mset accs = mset accs2" using solve_loop_perm [OF accs di mi] by blast
  have da: "distinct (map fst accs)" using di fst_loops [OF accs di] by simp
  obtain accs3 where accs3: "efold accumulate_adjustment
      (toSorted compareAdjustmentFacts (f_adjustments facts)) accs2 = Inr accs3"
    and m3: "mset accs' = mset accs3" using adjustment_loop_perm [OF accs' da m2] by blast
  have "mset (map snd accs') = mset (map snd accs3)" using m3 by simp
  then obtain scores2 where scores2: "emap participation_score (map snd accs3) = Inr scores2"
    and m4: "mset scores = mset scores2" using emap_perm [OF scores] by blast
  have "distinct (map ps_participationId (r_participationScores r))"
    using replay_score_ids [OF h] d(2) by (metis mset_eq_imp_distinct_iff)
  then have "r_participationScores r =
      toSorted (\<lambda>a b. localeCompare (ps_participationId a) (ps_participationId b)) scores2"
    unfolding ps using m4 by (intro scores_by_id.toSorted_unique) (auto simp: distinct_map)
  then show ?thesis
    using d' ix2 subs2 cs sorted accs2 accs3 scores2 fv rk mset_eq_length [OF ms(5)]
    by (cases r) (simp add: replayContestScoring_def off adj Let_def safeAdd_def split: if_splits)
qed

section \<open>Practice facts\<close>

definition without_practice :: "contest_scoring_facts \<Rightarrow> contest_scoring_facts" where
  "without_practice facts = facts
     \<lparr>f_submissions := filter (\<lambda>s. rs_mode s = Official) (f_submissions facts),
      f_solves := filter (\<lambda>v. sv_mode v = Official) (f_solves facts)\<rparr>"

lemma distinct_map_filter_by: "distinct (map f xs) \<Longrightarrow> distinct (map f (filter P xs))"
  by (simp add: distinct_map inj_on_def)

lemma official_submission_lookup:
  assumes "distinct (map rs_id subs)"
    and "\<not> solve_mismatch v (map_of (map (\<lambda>s. (rs_id s, s)) subs) k)"
  shows "\<not> solve_mismatch v (map_of (map (\<lambda>s. (rs_id s, s))
           (filter (\<lambda>s. rs_mode s = Official) subs)) k)"
proof -
  obtain s where s: "map_of (map (\<lambda>s. (rs_id s, s)) subs) k = Some s"
    using assms(2) by (auto simp: solve_mismatch_def split: option.splits)
  then have "rs_mode s = Official" using assms(2) by (simp add: solve_mismatch_def)
  then have "map_of (map (\<lambda>s. (rs_id s, s)) (filter (\<lambda>s. rs_mode s = Official) subs)) k = Some s"
    using s by (simp add: map_of_ident assms(1) distinct_map_filter_by)
  then show ?thesis using assms(2) s by simp
qed

text \<open>
  C5: Practice submissions and practice solves have no effect on the official scores: the replay of
  the facts without them returns the same scores, ranking and fact version.
\<close>

theorem replay_ignores_practice:
  assumes "replayContestScoring m facts = Inr r"
  shows "replayContestScoring m (without_practice facts) = Inr r"
proof -
  let ?f = "without_practice facts"
  let ?C = "map (\<lambda>c. (rc_id c, c)) (f_challenges facts)"
  let ?P = "map (\<lambda>p. (rp_id p, p)) (f_participations facts)"
  let ?S = "\<lambda>f. map (\<lambda>s. (rs_id s, s)) (f_submissions f)"
  let ?off = "officialSolves (f_solves facts)"
  have h: "replay_holds m facts r" using assms by (rule replay_InrD)
  then have ids: "distinct (map rs_id (f_submissions facts))" "distinct (map sv_id (f_solves facts))"
    by (simp_all add: replay_holds_def facts_wf_def ids_unique_def)
  obtain ix where ix: "efold (index_solve ?C ?P (?S facts)) ?off empty_index = Inr ix"
    and subs: "efold (check_submission ?C ?P (ix_solvedSubmissionIds ix)) (f_submissions facts) () = Inr ()"
    using assms by (auto simp: replayContestScoring_def ebind_Inr_iff Let_def)
  have "efold (index_solve ?C ?P (?S ?f)) ?off empty_index = Inr ix"
    using ix official_submission_lookup [OF ids(1)]
    unfolding index_loop_Inr solve_wf_def by (simp add: without_practice_def)
  moreover have "efold (check_submission ?C ?P (ix_solvedSubmissionIds ix)) (f_submissions ?f) () = Inr ()"
    using subs unfolding check_submissions_Inr by (simp add: without_practice_def)
  moreover have "officialSolves (f_solves ?f) = ?off"
    by (simp add: officialSolves_def without_practice_def)
  moreover have "f_challenges ?f = f_challenges facts" "f_participations ?f = f_participations facts"
    "f_adjustments ?f = f_adjustments facts" by (simp_all add: without_practice_def)
  moreover have "distinct (map rs_id (f_submissions ?f))" "distinct (map sv_id (f_solves ?f))"
    using ids by (simp_all add: without_practice_def distinct_map_filter_by)
  ultimately show ?thesis
    using assms ix subs by (auto simp: replayContestScoring_def ebind_Inr_iff Let_def)
qed

section \<open>Progress\<close>

text \<open>
  Facts that a replay can score: consistent, with gap-free solve orders and valid policies, and
  small enough for every sum to stay a safe integer.
\<close>

definition facts_scorable :: "contest_scoring_facts \<Rightarrow> bool" where
  "facts_scorable facts \<longleftrightarrow> facts_wf facts
     \<and> (\<forall>c\<in>set (f_challenges facts). challengeScoringPolicySchema (rc_scoringPolicy c) \<noteq> None
          \<and> mset (map sv_solveOrder (challenge_solves facts (rc_id c))) =
            mset (map (\<lambda>i. 1 + int i) [0..<length (challenge_solves facts (rc_id c))]))
     \<and> (\<forall>a\<in>set (f_adjustments facts). participation_map facts (ra_participationId a) \<noteq> None
          \<and> valid_date (ra_createdAt a) \<and> ra_pointsDelta a \<noteq> 0)
     \<and> 1000000 * int (length (f_solves facts)) + (\<Sum>a\<leftarrow>f_adjustments facts. \<bar>ra_pointsDelta a\<bar>)
        + int (length (f_adjustments facts)) \<le> max_safe_integer"

lemma contiguous_when_orders:
  assumes "mset (map sv_solveOrder vs) = mset (map (\<lambda>i. 1 + int i) [0..<length vs])"
    and "\<forall>v\<in>set vs. valid_date (sv_solvedAt v) \<and> sv_challengeId v = c"
  shows "contiguous_from 1 (toSorted compareSolveFacts vs)"
proof -
  let ?s = "toSorted compareSolveFacts vs"
  have key: "solve_key v \<le> solve_key w \<Longrightarrow> sv_solveOrder v \<le> sv_solveOrder w"
    if "v \<in> set ?s" "w \<in> set ?s" for v w
    using that assms(2) by (auto simp: solve_key_def less_eq_prod_def less_prod_def)
  have "sorted (map solve_key ?s)" using assms(2) by (intro solves.toSorted_sorted) auto
  then have "sorted_wrt (\<lambda>v w. sv_solveOrder v \<le> sv_solveOrder w) ?s"
    unfolding sorted_map by (rule sorted_wrt_mono_rel [rotated]) (use key in auto)
  then have "sorted (map sv_solveOrder ?s)" by (simp add: sorted_map)
  moreover have "sorted (map (\<lambda>i. 1 + int i) [0..<length vs])" by (simp add: sorted_iff_nth_mono)
  moreover have "mset (map sv_solveOrder ?s) = mset (map (\<lambda>i. 1 + int i) [0..<length vs])"
    using assms(1) by (metis mset_map mset_toSorted)
  ultimately have "map sv_solveOrder ?s = map (\<lambda>i. 1 + int i) [0..<length vs]"
    by (metis properties_for_sort)
  then have "sv_solveOrder (?s ! i) = 1 + int i" if "i < length vs" for i
    using that by (metis (no_types, lifting) add.left_neutral diff_zero length_map length_toSorted
        length_upt nth_map nth_upt)
  then show ?thesis by (simp add: contiguous_from_nth)
qed

lemma score_challenge_total:
  assumes "contiguous_from 1 (toSorted compareSolveFacts (S (rc_id c)))"
    and "\<forall>v\<in>set (S (rc_id c)). valid_date (sv_solvedAt v)"
    and "challengeScoringPolicySchema (rc_scoringPolicy c) \<noteq> None"
    and "int (length (S (rc_id c))) \<le> max_safe_integer"
  shows "\<exists>cs. score_challenge m S c = Inr cs"
proof -
  let ?V = "toSorted compareSolveFacts (S (rc_id c))"
  have "safe_integer (int (length ?V))" using assms(4) by (simp add: safe_integer_def max_safe_integer_def)
  then obtain q where "calculateChallengeScore m (rc_scoringPolicy c) (int (length ?V)) = Inr q"
    using score_Inr_iff assms(3) by (metis of_nat_0_le_iff)
  moreover have "\<exists>fs. first_solve_of ?V = Inr fs"
  proof (cases ?V)
    case (Cons v vs)
    then have "v \<in> set (S (rc_id c))" by (metis list.set_intros(1) set_toSorted)
    with assms(2) show ?thesis
      by (cases "sv_solvedAt v") (auto simp: first_solve_of_def Cons)
  qed (simp add: first_solve_of_def)
  ultimately show ?thesis using assms(1) by (auto simp: score_challenge_def Let_def)
qed

definition acc_ok :: "int \<Rightarrow> int \<Rightarrow> accumulator \<Rightarrow> bool" where
  "acc_ok solveBound adjBound a \<longleftrightarrow> 0 \<le> ac_solvePoints a \<and> ac_solvePoints a \<le> solveBound
     \<and> \<bar>ac_adjustmentPoints a\<bar> \<le> adjBound \<and> (\<forall>v\<in>set (ac_solves a). valid_date (sv_solvedAt v))
     \<and> (\<forall>d. ac_lastScoringAt a = Some d \<longrightarrow> valid_date d)"

definition accs_ok :: "uuid set \<Rightarrow> int \<Rightarrow> int \<Rightarrow> (uuid \<times> accumulator) list \<Rightarrow> bool" where
  "accs_ok keys b1 b2 accs \<longleftrightarrow> fst ` set accs = keys \<and> (\<forall>(k, a)\<in>set accs. acc_ok b1 b2 a)"

lemma accs_ok_lookup:
  assumes "accs_ok K b1 b2 accs" and "k \<in> K"
  obtains a where "map_of accs k = Some a" and "acc_ok b1 b2 a"
proof -
  have "map_of accs k \<noteq> None" using assms unfolding accs_ok_def map_of_eq_None_iff by blast
  then obtain a where a: "map_of accs k = Some a" by blast
  have "acc_ok b1 b2 a" using map_of_SomeD [OF a] assms(1) by (auto simp: accs_ok_def)
  with a show ?thesis by (rule that)
qed

lemma accs_ok_put:
  assumes "accs_ok K b1 b2 accs" and "b1 \<le> c1" and "b2 \<le> c2" and "acc_ok c1 c2 a"
  shows "accs_ok K c1 c2 (put_at k a accs)"
proof -
  have "fst ` set (put_at k a accs) = K"
    using assms(1) by (metis accs_ok_def map_fst_put_at set_map)
  moreover have "acc_ok c1 c2 a'" if "acc_ok b1 b2 a'" for a'
    using that assms(2,3) by (auto simp: acc_ok_def)
  ultimately show ?thesis
    using assms(1,4) by (auto simp: accs_ok_def put_at_def split: if_splits)
qed

lemma later_valid: "valid_date d \<Longrightarrow> \<forall>e. c = Some e \<longrightarrow> valid_date e \<Longrightarrow>
    \<forall>e. later_of c d = Some e \<longrightarrow> valid_date e"
  by (auto simp: later_of_def split: option.splits if_splits)

lemma solve_step_progress:
  assumes "accs_ok K b 0 accs" and "sv_participationId v \<in> K" and "valid_date (sv_solvedAt v)"
    and "pts (sv_challengeId v) = Some q" and "0 \<le> q" and "q \<le> 1000000"
    and "b + 1000000 \<le> max_safe_integer"
  shows "\<exists>accs'. accumulate_solve pts v accs = Inr accs' \<and> accs_ok K (b + 1000000) 0 accs'"
proof -
  obtain a where a: "map_of accs (sv_participationId v) = Some a" "acc_ok b 0 a"
    using assms(1,2) by (rule accs_ok_lookup)
  have "safe_integer (ac_solvePoints a + q)"
    using a(2) assms(5-7) by (simp add: acc_ok_def safe_integer_def max_safe_integer_def)
  then have "accumulate_solve pts v accs = Inr (put_at (sv_participationId v) (add_solve pts v a) accs)"
    using a(1) assms(3,4) by (simp add: accumulate_solve_Inr)
  moreover have "acc_ok (b + 1000000) 0 (add_solve pts v a)"
    using a(2) assms(3-6) later_valid [OF assms(3)] by (auto simp: acc_ok_def add_solve_def)
  ultimately show ?thesis using accs_ok_put [OF assms(1)] by auto
qed

lemma adjustment_step_progress:
  assumes "accs_ok K b c accs" and "ra_participationId d \<in> K" and "valid_date (ra_createdAt d)"
    and "ra_pointsDelta d \<noteq> 0" and "0 \<le> c" and "c + \<bar>ra_pointsDelta d\<bar> \<le> max_safe_integer"
  shows "\<exists>accs'. accumulate_adjustment d accs = Inr accs' \<and> accs_ok K b (c + \<bar>ra_pointsDelta d\<bar>) accs'"
proof -
  obtain a where a: "map_of accs (ra_participationId d) = Some a" "acc_ok b c a"
    using assms(1,2) by (rule accs_ok_lookup)
  have "safe_integer (ac_adjustmentPoints a + ra_pointsDelta d)" "safe_integer (ra_pointsDelta d)"
    using a(2) assms(5,6) by (auto simp: acc_ok_def safe_integer_def max_safe_integer_def)
  then have "accumulate_adjustment d accs = Inr (put_at (ra_participationId d) (add_adjustment d a) accs)"
    using a(1) assms(3,4) by (simp add: accumulate_adjustment_Inr)
  moreover have "acc_ok b (c + \<bar>ra_pointsDelta d\<bar>) (add_adjustment d a)"
    using a(2) later_valid [OF assms(3)] by (auto simp: acc_ok_def add_adjustment_def)
  ultimately show ?thesis using accs_ok_put [OF assms(1)] by auto
qed

lemma participation_score_total:
  assumes "acc_ok b c a" and "b + c \<le> max_safe_integer"
  shows "\<exists>s. participation_score a = Inr s"
proof -
  have "safe_integer (ac_solvePoints a + ac_adjustmentPoints a)"
    using assms by (auto simp: acc_ok_def safe_integer_def max_safe_integer_def)
  moreover have "\<exists>vs. emap replayed_solve_of (toSorted compareSolvesByChallenge (ac_solves a)) = Inr vs"
    using assms(1) by (intro emap_progress)
      (auto simp: acc_ok_def replayed_solve_of_def elim!: valid_date.elims(2) dest!: bspec)
  moreover have "\<exists>t. iso_option (ac_lastScoringAt a) = Inr t"
    using assms(1) by (cases "ac_lastScoringAt a")
      (auto simp: acc_ok_def iso_option_def elim!: valid_date.elims(2))
  ultimately show ?thesis by (auto simp: participation_score_def safeAdd_def)
qed

lemma solve_loop_total:
  assumes "\<forall>v\<in>set vs. sv_participationId v \<in> K \<and> valid_date (sv_solvedAt v)
      \<and> (\<exists>q. pts (sv_challengeId v) = Some q \<and> 0 \<le> q \<and> q \<le> 1000000)"
    and "accs_ok K 0 0 accs" and "1000000 * int (length vs) \<le> B" and "B \<le> max_safe_integer"
  shows "\<exists>accs'. efold (accumulate_solve pts) vs accs = Inr accs' \<and> accs_ok K B 0 accs'"
proof -
  define J where "J = (\<lambda>(vs :: replay_solve_fact list) accs. (\<forall>v\<in>set vs. sv_participationId v \<in> K \<and> valid_date (sv_solvedAt v)
      \<and> (\<exists>q. pts (sv_challengeId v) = Some q \<and> 0 \<le> q \<and> q \<le> 1000000))
    \<and> accs_ok K (B - 1000000 * int (length vs)) 0 accs \<and> 1000000 * int (length vs) \<le> B)"
  have "accs_ok K (B - 1000000 * int (length vs)) 0 accs"
    using assms(2,3) by (fastforce simp: accs_ok_def acc_ok_def)
  then have "J vs accs" using assms(1,3) by (simp add: J_def)
  then have "\<exists>accs'. efold (accumulate_solve pts) vs accs = Inr accs' \<and> J [] accs'"
  proof (rule efold_progress)
    fix v vs accs
    assume J: "J (v # vs) accs"
    then obtain q where v: "sv_participationId v \<in> K" "valid_date (sv_solvedAt v)"
      "pts (sv_challengeId v) = Some q" "0 \<le> q" "q \<le> 1000000"
      and ok: "accs_ok K (B - 1000000 * int (length (v # vs))) 0 accs"
      and le: "1000000 * int (length (v # vs)) \<le> B" by (auto simp: J_def)
    have "B - 1000000 * int (length (v # vs)) + 1000000 \<le> max_safe_integer"
      using assms(4) by simp
    from solve_step_progress [where pts = pts, OF ok v(1,2) v(3) v(4,5) this] J
    show "\<exists>accs'. accumulate_solve pts v accs = Inr accs' \<and> J vs accs'"
      by (auto simp: J_def algebra_simps)
  qed
  then show ?thesis by (auto simp: J_def)
qed

lemma adjustment_loop_total:
  assumes "\<forall>d\<in>set ds. ra_participationId d \<in> K \<and> valid_date (ra_createdAt d) \<and> ra_pointsDelta d \<noteq> 0"
    and "accs_ok K b 0 accs" and "(\<Sum>d\<leftarrow>ds. \<bar>ra_pointsDelta d\<bar>) \<le> B" and "B \<le> max_safe_integer"
  shows "\<exists>accs'. efold accumulate_adjustment ds accs = Inr accs' \<and> accs_ok K b B accs'"
proof -
  define J where "J = (\<lambda>(ds :: replay_adjustment_fact list) accs. (\<forall>d\<in>set ds. ra_participationId d \<in> K \<and> valid_date (ra_createdAt d)
      \<and> ra_pointsDelta d \<noteq> 0)
    \<and> accs_ok K b (B - (\<Sum>d\<leftarrow>ds. \<bar>ra_pointsDelta d\<bar>)) accs \<and> (\<Sum>d\<leftarrow>ds. \<bar>ra_pointsDelta d\<bar>) \<le> B)"
  have "accs_ok K b (B - (\<Sum>d\<leftarrow>ds. \<bar>ra_pointsDelta d\<bar>)) accs"
    using assms(2,3) by (fastforce simp: accs_ok_def acc_ok_def)
  then have "J ds accs" using assms(1,3) by (simp add: J_def)
  then have "\<exists>accs'. efold accumulate_adjustment ds accs = Inr accs' \<and> J [] accs'"
  proof (rule efold_progress)
    fix d ds accs
    assume J: "J (d # ds) accs"
    then have d: "ra_participationId d \<in> K" "valid_date (ra_createdAt d)" "ra_pointsDelta d \<noteq> 0"
      and ok: "accs_ok K b (B - (\<Sum>d\<leftarrow>d # ds. \<bar>ra_pointsDelta d\<bar>)) accs"
      and le: "0 \<le> B - (\<Sum>d\<leftarrow>d # ds. \<bar>ra_pointsDelta d\<bar>)" by (auto simp: J_def)
    have "0 \<le> (\<Sum>d\<leftarrow>ds. \<bar>ra_pointsDelta d\<bar>)" by (rule sum_list_nonneg) auto
    then have "B - (\<Sum>d\<leftarrow>d # ds. \<bar>ra_pointsDelta d\<bar>) + \<bar>ra_pointsDelta d\<bar> \<le> max_safe_integer"
      using assms(4) by simp
    from adjustment_step_progress [OF ok d le this] J
    show "\<exists>accs'. accumulate_adjustment d accs = Inr accs' \<and> J ds accs'"
      by (auto simp: J_def algebra_simps)
  qed
  then show ?thesis by (auto simp: J_def)
qed

lemma challenge_points_bounded:
  assumes "emap (score_challenge m S) cs = Inr scores" and "c \<in> rc_id ` set cs"
  shows "\<exists>q. challengePoints_of scores c = Some q \<and> 0 \<le> q \<and> q \<le> 1000000"
proof -
  have l: "list_all2 (\<lambda>c x. score_challenge m S c = Inr x) cs scores"
    using assms(1) by (simp add: emap_Inr_iff)
  have id: "score_challenge m S c = Inr x \<Longrightarrow> cs_challengeId x = rc_id c" for c x
    by (auto simp: score_challenge_def Let_def ebind_Inr_iff split: if_splits)
  have pts: "score_challenge m S c = Inr x \<Longrightarrow> 0 \<le> cs_currentPoints x \<and> cs_currentPoints x \<le> 1000000" for c x
    by (auto simp: score_challenge_def Let_def ebind_Inr_iff split: if_splits dest: score_nonneg)
  have "map cs_challengeId scores = map rc_id cs" using l id by (rule list_all2_map_eq)
  then have "c \<in> fst ` set (map (\<lambda>s. (cs_challengeId s, cs_currentPoints s)) scores)"
    using assms(2) by (metis (no_types, lifting) fst_conv image_cong image_image list.set_map)
  then obtain q where q: "challengePoints_of scores c = Some q"
    unfolding challengePoints_of_def by (metis map_of_eq_None_iff not_None_eq)
  then have "(c, q) \<in> set (map (\<lambda>s. (cs_challengeId s, cs_currentPoints s)) scores)"
    unfolding challengePoints_of_def by (rule map_of_SomeD)
  then obtain x where x: "x \<in> set scores" "q = cs_currentPoints x" by auto
  obtain y where "score_challenge m S y = Inr x" using l x(1) by (rule list_all2_member)
  with pts q x(2) show ?thesis by auto
qed

lemma replay_scorable:
  assumes "facts_scorable facts"
  shows "\<exists>r. replayContestScoring m facts = Inr r"
proof -
  let ?C = "map (\<lambda>c. (rc_id c, c)) (f_challenges facts)"
  let ?P = "map (\<lambda>p. (rp_id p, p)) (f_participations facts)"
  let ?S = "map (\<lambda>s. (rs_id s, s)) (f_submissions facts)"
  let ?off = "officialSolves (f_solves facts)"
  let ?init = "map (\<lambda>(_, p). (rp_id p, fresh_accumulator p)) ?P"
  let ?ix = "index_extend ?off empty_index"
  let ?cid = "\<lambda>a b. localeCompare (rc_id a) (rc_id b)"
  let ?K = "rp_id ` set (f_participations facts)"
  let ?B1 = "1000000 * int (length (f_solves facts))"
  let ?B2 = "\<Sum>a\<leftarrow>f_adjustments facts. \<bar>ra_pointsDelta a\<bar>"
  have wf: "facts_wf facts" using assms by (simp add: facts_scorable_def)
  have B: "?B1 + ?B2 + int (length (f_adjustments facts)) \<le> max_safe_integer"
    using assms by (simp add: facts_scorable_def)
  have B2: "0 \<le> ?B2" by (rule sum_list_nonneg) auto
  have len: "length ?off \<le> length (f_solves facts)" by (simp add: officialSolves_def)
  have ids: "distinct (map rc_id (f_challenges facts))" "distinct (map rp_id (f_participations facts))"
    "distinct (map rs_id (f_submissions facts))" "distinct (map sv_id (f_solves facts))"
    "distinct (map ra_id (f_adjustments facts))" using wf by (simp_all add: facts_wf_def ids_unique_def)
  have swf: "\<forall>v\<in>set ?off. solve_wf (map_of ?C) (map_of ?P) (map_of ?S) v"
    using wf by (simp add: facts_wf_def challenge_map_def participation_map_def submission_map_def)
  have ix: "efold (index_solve ?C ?P ?S) ?off empty_index = Inr ?ix"
    using wf swf by (simp only: index_loop_Inr facts_wf_def empty_index_def solve_index.simps) simp
  have S: "ix_solvesByChallenge ?ix = solves_of_challenge facts"
    and solved: "ix_solvedSubmissionIds ?ix = sv_submissionId ` set ?off"
    by (auto simp: index_extend_def empty_index_def solves_of_challenge_def)
  have subs: "efold (check_submission ?C ?P (ix_solvedSubmissionIds ?ix)) (f_submissions facts) () = Inr ()"
    using wf unfolding check_submissions_Inr solved
    by (simp add: facts_wf_def challenge_map_def participation_map_def)
  have val: "\<forall>v\<in>set (solves_of_challenge facts c). valid_date (sv_solvedAt v) \<and> sv_challengeId v = c" for c
    using swf by (auto simp: solves_of_challenge_def solve_wf_def)
  have "\<exists>cs. score_challenge m (solves_of_challenge facts) c = Inr cs"
    if c: "c \<in> set (f_challenges facts)" for c
  proof (rule score_challenge_total)
    let ?V = "solves_of_challenge facts (rc_id c)"
    have mv: "mset ?V = mset (challenge_solves facts (rc_id c))" by (rule mset_challenge_solves)
    have "mset (map sv_solveOrder ?V) = mset (map (\<lambda>i. 1 + int i) [0..<length ?V])"
      using assms c mset_eq_length [OF mv] by (simp add: facts_scorable_def mv)
    then show "contiguous_from 1 (toSorted compareSolveFacts ?V)" using val by (rule contiguous_when_orders)
    show "\<forall>v\<in>set ?V. valid_date (sv_solvedAt v)" using val by blast
    show "challengeScoringPolicySchema (rc_scoringPolicy c) \<noteq> None"
      using assms c by (simp add: facts_scorable_def)
    have "length ?V \<le> length (f_solves facts)"
      unfolding solves_of_challenge_def using length_filter_le len order_trans by blast
    then show "int (length ?V) \<le> max_safe_integer" using B B2 by linarith
  qed
  then have "\<forall>c\<in>set (toSorted ?cid (map snd ?C)).
      \<exists>cs. score_challenge m (ix_solvesByChallenge ?ix) c = Inr cs"
    unfolding S by simp
  from emap_progress [OF this] obtain scores where scores:
    "emap (score_challenge m (ix_solvesByChallenge ?ix)) (toSorted ?cid (map snd ?C)) = Inr scores" ..
  let ?pts = "challengePoints_of scores"
  have pts: "\<exists>q. ?pts (sv_challengeId v) = Some q \<and> 0 \<le> q \<and> q \<le> 1000000" if "v \<in> set ?off" for v
  proof -
    have "map_of ?C (sv_challengeId v) \<noteq> None" using swf that by (simp add: solve_wf_def)
    then show ?thesis
      by (intro challenge_points_bounded [OF scores]) (simp add: map_of_ident_None comp_def)
  qed
  have "accs_ok ?K 0 0 ?init"
    by (auto simp: accs_ok_def acc_ok_def fresh_accumulator_def image_iff)
  then obtain accs where accs: "efold (accumulate_solve ?pts) ?off ?init = Inr accs"
    and ok: "accs_ok ?K ?B1 0 accs"
    using solve_loop_total [of ?off ?K ?pts ?init ?B1] swf pts len B B2
    by (auto simp: solve_wf_def map_of_ident_None)
  let ?adj = "toSorted compareAdjustmentFacts (f_adjustments facts)"
  have "(\<Sum>d\<leftarrow>?adj. \<bar>ra_pointsDelta d\<bar>) = ?B2" by (rule sum_list_mset_cong) simp
  then obtain accs' where accs': "efold accumulate_adjustment ?adj accs = Inr accs'"
    and ok': "accs_ok ?K ?B1 ?B2 accs'"
    using adjustment_loop_total [OF _ ok, of ?adj ?B2] assms B
    by (auto simp: facts_scorable_def participation_map_def map_of_ident_None)
  have "\<exists>ss. emap participation_score (map snd accs') = Inr ss"
    using ok' B by (intro emap_progress)
      (auto simp: accs_ok_def intro!: participation_score_total [where b = ?B1 and c = ?B2])
  moreover have "safe_integer (int (length ?off) + int (length (f_adjustments facts)))"
    using B B2 len by (simp add: safe_integer_def max_safe_integer_def)
  ultimately show ?thesis
    using ids ix subs scores accs accs' by (auto simp: replayContestScoring_def Let_def safeAdd_def)
qed

text \<open>
  On consistent facts - unique ids, every official solve matching one correct official
  submission, solve orders without gaps, valid policies, adjustments of known participations, sums
  within the safe integers - the replay always returns a result.
\<close>

theorem replay_total:
  assumes "facts_scorable facts"
  shows "\<exists>r. replayContestScoring m facts = Inr r"
  using assms by (rule replay_scorable)

end
