(* ===== verification/Replay_Examples.thy ===== *)
theory Replay_Examples
  imports Replay_Invariance
begin

text \<open>A small contest: two challenges, two teams, a practice solve and a score adjustment.\<close>

definition example_facts :: contest_scoring_facts where
  "example_facts = \<lparr>
     f_challenges = [\<lparr>rc_id = ''c2'', rc_scoringPolicy = FixedV1 300\<rparr>,
                     \<lparr>rc_id = ''c1'', rc_scoringPolicy = FixedV1 100\<rparr>],
     f_participations =
       [\<lparr>rp_id = ''p1'', rp_teamId = ''t1'', rp_teamName = ''red'', rp_divisionId = None, rp_status = Accepted\<rparr>,
        \<lparr>rp_id = ''p2'', rp_teamId = ''t2'', rp_teamName = ''blue'', rp_divisionId = None, rp_status = Accepted\<rparr>],
     f_submissions =
       [\<lparr>rs_id = ''s1'', rs_challengeId = ''c1'', rs_participationId = ''p1'', rs_mode = Official,
          rs_result = Correct, rs_submittedAt = Date 10\<rparr>,
        \<lparr>rs_id = ''s2'', rs_challengeId = ''c1'', rs_participationId = ''p2'', rs_mode = Official,
          rs_result = Correct, rs_submittedAt = Date 20\<rparr>,
        \<lparr>rs_id = ''s3'', rs_challengeId = ''c2'', rs_participationId = ''p2'', rs_mode = Practice,
          rs_result = Correct, rs_submittedAt = Date 90\<rparr>,
        \<lparr>rs_id = ''s4'', rs_challengeId = ''c2'', rs_participationId = ''p1'', rs_mode = Official,
          rs_result = Incorrect, rs_submittedAt = Date 30\<rparr>],
     f_solves =
       [\<lparr>sv_id = ''v2'', sv_submissionId = ''s2'', sv_challengeId = ''c1'', sv_participationId = ''p2'',
          sv_mode = Official, sv_solveOrder = 2, sv_solvedAt = Date 20\<rparr>,
        \<lparr>sv_id = ''v1'', sv_submissionId = ''s1'', sv_challengeId = ''c1'', sv_participationId = ''p1'',
          sv_mode = Official, sv_solveOrder = 1, sv_solvedAt = Date 10\<rparr>,
        \<lparr>sv_id = ''v3'', sv_submissionId = ''s3'', sv_challengeId = ''c2'', sv_participationId = ''p2'',
          sv_mode = Practice, sv_solveOrder = 1, sv_solvedAt = Date 90\<rparr>],
     f_adjustments = [\<lparr>ra_id = ''a1'', ra_participationId = ''p2'', ra_pointsDelta = 5, ra_createdAt = Date 40\<rparr>]\<rparr>"

definition example_replay :: contest_scoring_replay where
  "example_replay = \<lparr>r_factVersion = 3,
     r_challengeScores =
       [\<lparr>cs_challengeId = ''c1'', cs_officialSolveCount = 2, cs_currentPoints = 100,
         cs_firstSolve = Some \<lparr>fs_solveId = ''v1'', fs_submissionId = ''s1'',
           fs_participationId = ''p1'', fs_solvedAt = Iso 10\<rparr>\<rparr>,
        \<lparr>cs_challengeId = ''c2'', cs_officialSolveCount = 0, cs_currentPoints = 300, cs_firstSolve = None\<rparr>],
     r_participationScores =
       [\<lparr>ps_participationId = ''p1'', ps_teamId = ''t1'', ps_teamName = ''red'', ps_divisionId = None,
         ps_status = Accepted, ps_solves = [\<lparr>rv_solveId = ''v1'', rv_challengeId = ''c1'', rv_solvedAt = Iso 10\<rparr>],
         ps_officialSolveCount = 1, ps_solvePoints = 100, ps_adjustmentPoints = 0, ps_totalPoints = 100,
         ps_lastScoringAt = Some (Iso 10)\<rparr>,
        \<lparr>ps_participationId = ''p2'', ps_teamId = ''t2'', ps_teamName = ''blue'', ps_divisionId = None,
         ps_status = Accepted, ps_solves = [\<lparr>rv_solveId = ''v2'', rv_challengeId = ''c1'', rv_solvedAt = Iso 20\<rparr>],
         ps_officialSolveCount = 1, ps_solvePoints = 100, ps_adjustmentPoints = 5, ps_totalPoints = 105,
         ps_lastScoringAt = Some (Iso 40)\<rparr>],
     r_rankingSummary =
       [\<lparr>rk_rank = 1, rk_participationId = ''p2'', rk_teamId = ''t2'', rk_totalPoints = 105,
         rk_lastScoringAt = Some (Iso 40)\<rparr>,
        \<lparr>rk_rank = 2, rk_participationId = ''p1'', rk_teamId = ''t1'', rk_totalPoints = 100,
         rk_lastScoringAt = Some (Iso 10)\<rparr>]\<rparr>"

lemma example_replayed: "replayContestScoring m example_facts = Inr example_replay"
  by code_simp

theorem replay_totals_witness:
  "\<exists>s\<in>set (r_participationScores example_replay). ps_totalPoints s = 105
     \<and> ps_adjustmentPoints s = (\<Sum>d\<leftarrow>own_adjustments example_facts ''p2''. ra_pointsDelta d)"
proof -
  let ?s = "r_participationScores example_replay ! 1"
  have s: "?s \<in> set (r_participationScores example_replay)" by code_simp
  have "ps_participationId ?s = ''p2''" "ps_totalPoints ?s = 105" by code_simp+
  with replay_totals [OF example_replayed [of exact_math] s] s show ?thesis by (auto simp: Let_def)
qed

theorem replay_ranking_witness:
  "map rk_rank (r_rankingSummary example_replay) = [1..<Suc (length (r_rankingSummary example_replay))]"
  using replay_ranking [OF example_replayed [of exact_math]] by blast

theorem replay_challenge_scores_witness:
  "map cs_challengeId (r_challengeScores example_replay) = sort (map rc_id (f_challenges example_facts))"
  using replay_challenge_scores [OF example_replayed [of exact_math]] by blast

theorem replay_order_independent_witness:
  "replayContestScoring exact_math (example_facts\<lparr>f_solves := rev (f_solves example_facts)\<rparr>)
     = Inr example_replay"
  by (rule replay_order_independent [OF example_replayed [of exact_math]]) (simp add: same_facts_def)

theorem replay_ignores_practice_witness:
  "replayContestScoring exact_math (without_practice example_facts) = Inr example_replay"
  by (rule replay_ignores_practice [OF example_replayed [of exact_math]])

lemma example_scorable: "facts_scorable example_facts"
  by code_simp

theorem replay_total_witness: "\<exists>r. replayContestScoring exact_math example_facts = Inr r"
  by (rule replay_total [OF example_scorable])

end
