(* ===== verification/Encoding.thy ===== *)
theory Encoding
  imports Prelude
begin

text \<open>
  Texts and bytes: \<open>Buffer.from(text, 'utf8')\<close> and back, hexadecimal texts, \<open>Array.join\<close>,
  \<open>String.indexOf\<close>, and the functions of \<open>node:crypto\<close> the security code is written against.
  The latter are native code outside the repository: they are the fields of a record the modelled
  functions take as an argument, with what is documented of them as the predicates
  \<open>digests_documented\<close> and \<open>aead_documented\<close>.
\<close>

section \<open>UTF-8\<close>

fun utf8_char :: "char \<Rightarrow> bytes" where
  "utf8_char c = (let n = of_char c :: nat in
     if n < 128 then [n] else [192 + n div 64, 128 + n mod 64])"

definition utf8 :: "string \<Rightarrow> bytes" where
  "utf8 s = concat (map utf8_char s)"

text \<open>\<open>toString('utf8')\<close>; \<open>None\<close> is a text with a code unit the model has no character for.\<close>

fun utf8_text :: "bytes \<Rightarrow> string option" where
  "utf8_text [] = Some []"
| "utf8_text [b] = (if b < 128 then Some [char_of b] else None)"
| "utf8_text (b # c # bs) =
     (if b < 128 then map_option (Cons (char_of b)) (utf8_text (c # bs))
      else if (b = 194 \<or> b = 195) \<and> 128 \<le> c \<and> c < 192
      then map_option (Cons (char_of ((b - 192) * 64 + (c - 128)))) (utf8_text bs)
      else None)"

lemma utf8_simps [simp]:
  "utf8 [] = []" "utf8 (c # s) = utf8_char c @ utf8 s" "utf8 (s @ t) = utf8 s @ utf8 t"
  by (simp_all add: utf8_def)

lemma utf8_char_length: "length (utf8_char c) = (if of_char c < (128::nat) then 1 else 2)"
  by (simp add: Let_def)

lemma length_utf8: "length (utf8 s) = utf8_length s"
  by (induction s) (simp_all add: utf8_length_def utf8_char_length del: utf8_char.simps)

lemma utf8_text_step: "utf8_text (utf8_char c @ bs) = map_option (Cons c) (utf8_text bs)"
proof -
  define n where "n = (of_char c :: nat)"
  have n: "n < 256" "char_of n = c" by (simp_all add: n_def)
  show ?thesis
  proof (cases "n < 128")
    case True
    then have u: "utf8_char c = [n]" by (simp add: n_def)
    show ?thesis unfolding u using True n(2) by (cases bs) simp_all
  next
    case False
    then have u: "utf8_char c = [192 + n div 64, 128 + n mod 64]" by (simp add: n_def Let_def)
    have "n div 64 < 4" using n(1) by (simp add: less_mult_imp_div_less)
    moreover have "128 div 64 \<le> n div 64" using False by (intro div_le_mono) simp
    ultimately have "n div 64 = 2 \<or> n div 64 = 3" by auto
    moreover have "n div 64 * 64 + n mod 64 = n" by simp
    ultimately show ?thesis unfolding u using n(2) by auto
  qed
qed

lemma utf8_roundtrip [simp]: "utf8_text (utf8 s) = Some s"
  by (induction s) (simp_all add: utf8_text_step del: utf8_char.simps)

lemma utf8_inj [simp]: "utf8 s = utf8 t \<longleftrightarrow> s = t"
  by (metis utf8_roundtrip option.inject)

text \<open>Decoding is canonical: a text comes from its encoding only.\<close>

lemma utf8_text_encodes: "utf8_text bs = Some s \<Longrightarrow> bs = utf8 s"
proof (induction bs arbitrary: s rule: utf8_text.induct)
  case (2 b)
  then show ?case by (auto simp: Let_def split: if_splits)
next
  case (3 b c bs)
  show ?case
  proof (cases "b < 128")
    case True
    with 3(3) obtain t where "utf8_text (c # bs) = Some t" "s = char_of b # t" by auto
    with 3(1) [OF True, of t] True show ?thesis by (simp add: Let_def)
  next
    case False
    with 3(3) have b: "b = 194 \<or> b = 195" "128 \<le> c" "c < 192" by (auto split: if_splits)
    then obtain t where t: "utf8_text bs = Some t" "s = char_of ((b - 192) * 64 + (c - 128)) # t"
      using 3(3) by auto
    obtain d where d0: "c = 128 + d" using b(2) le_Suc_ex by blast
    with b(3) have d: "c = 128 + d" "d < 64" by simp_all
    define n where "n = (b - 192) * 64 + (c - 128)"
    have n: "n < 256" "\<not> n < 128" "n div 64 = b - 192" "n mod 64 = c - 128"
      using b(1) d by (auto simp: n_def)
    from 3(2) [of t] False b t(1) have "bs = utf8 t" by blast
    then show ?thesis using n b by (auto simp: t(2) Let_def simp flip: n_def)
  qed
qed simp

lemma utf8_empty [simp]: "utf8 s = [] \<longleftrightarrow> s = []" "[] = utf8 s \<longleftrightarrow> s = []"
  using utf8_inj [of s "[]"] by (simp, metis utf8_inj utf8_simps(1))

lemma utf8_apart: "inj_on h (utf8 ` S) \<Longrightarrow> s \<in> S \<Longrightarrow> t \<in> S \<Longrightarrow> s \<noteq> t \<Longrightarrow> h (utf8 s) \<noteq> h (utf8 t)"
  by (metis imageI inj_on_eq_iff utf8_inj)

section \<open>Hexadecimal texts\<close>

definition hex_char :: "nat \<Rightarrow> char" where
  "hex_char n = char_of (if n < 10 then 48 + n else 87 + n)"

definition hex :: "bytes \<Rightarrow> string" where
  "hex bs = concat (map (\<lambda>b. [hex_char (b div 16), hex_char (b mod 16)]) bs)"

definition hex_value :: "char \<Rightarrow> nat option" where
  "hex_value c = (let n = of_char c in
     if 48 \<le> n \<and> n \<le> 57 then Some (n - 48) else if 97 \<le> n \<and> n \<le> 102 then Some (n - 87)
     else if 65 \<le> n \<and> n \<le> 70 then Some (n - 55) else None)"

text \<open>\<open>Buffer.from(text, 'hex')\<close>: decoding stops at the first pair that is not hexadecimal.\<close>

fun hex_bytes :: "string \<Rightarrow> bytes" where
  "hex_bytes (h # l # s) = (case (hex_value h, hex_value l) of
     (Some a, Some b) \<Rightarrow> (16 * a + b) # hex_bytes s | _ \<Rightarrow> [])"
| "hex_bytes _ = []"

lemma hex_value_char: "n < 16 \<Longrightarrow> hex_value (hex_char n) = Some n"
  by (auto simp: hex_value_def hex_char_def Let_def)

lemma hex_roundtrip: "\<forall>b\<in>set bs. b < 256 \<Longrightarrow> hex_bytes (hex bs) = bs"
  by (induction bs) (simp_all add: hex_def hex_value_char div_less_iff_less_mult)

lemma length_hex [simp]: "length (hex bs) = 2 * length bs"
  by (induction bs) (simp_all add: hex_def)

lemma hex_char_ascii: "n < 16 \<Longrightarrow> of_char (hex_char n) < (128::nat)"
  by (auto simp: hex_char_def)

lemma hex_ascii: "\<forall>b\<in>set bs. b < 256 \<Longrightarrow> \<forall>c\<in>set (hex bs). of_char c < (128::nat)"
  by (auto simp: hex_def intro!: hex_char_ascii simp: div_less_iff_less_mult)

lemma utf8_length_append [simp]: "utf8_length (s @ t) = utf8_length s + utf8_length t"
  by (simp add: utf8_length_def)

lemma utf8_length_ascii: "\<forall>c\<in>set s. of_char c < (128::nat) \<Longrightarrow> utf8_length s = length s"
  by (induction s) (simp_all add: utf8_length_def)

lemma utf8_length_hex: "\<forall>b\<in>set bs. b < 256 \<Longrightarrow> utf8_length (hex bs) = 2 * length bs"
  by (simp add: utf8_length_ascii [OF hex_ascii])

lemma hex_inj: "\<forall>b\<in>set xs \<union> set ys. b < 256 \<Longrightarrow> hex xs = hex ys \<longleftrightarrow> xs = ys"
  by (metis UnCI hex_roundtrip)

section \<open>Joined texts\<close>

fun js_join :: "char \<Rightarrow> string list \<Rightarrow> string" where
  "js_join sep [] = []"
| "js_join sep [s] = s"
| "js_join sep (s # ss) = s @ sep # js_join sep ss"

lemma js_join_split:
  assumes "sep \<notin> set s" and "sep \<notin> set t" and "s @ sep # u = t @ sep # v"
  shows "s = t \<and> u = v"
  using assms by (induction s arbitrary: t) (auto simp: Cons_eq_append_conv append_eq_Cons_conv)

lemma js_join_inj:
  assumes "length ss = length ts" and "\<forall>s\<in>set ss \<union> set ts. sep \<notin> set s"
    and "js_join sep ss = js_join sep ts"
  shows "ss = ts"
  using assms
proof (induction ss ts rule: list_induct2)
  case (Cons s ss t ts)
  show ?case
  proof (cases ss)
    case Nil
    then show ?thesis using Cons by simp
  next
    case (Cons s' ss')
    then obtain t' ts' where ts: "ts = t' # ts'" using Cons.hyps by (cases ts) auto
    have "s @ sep # js_join sep ss = t @ sep # js_join sep ts"
      using Cons.prems(2) by (simp add: \<open>ss = s' # ss'\<close> ts)
    with Cons.prems(1) have "s = t \<and> js_join sep ss = js_join sep ts"
      by (intro js_join_split) auto
    then show ?thesis using Cons.IH Cons.prems(1) by simp
  qed
qed simp

text \<open>\<open>text.indexOf(pattern, from)\<close>; \<open>None\<close> is -1.\<close>

fun index_from :: "string \<Rightarrow> string \<Rightarrow> nat \<Rightarrow> nat option" where
  "index_from pat [] k = (if pat = [] then Some k else None)"
| "index_from pat (c # s) k = (if prefix pat (c # s) then Some k else index_from pat s (Suc k))"

definition js_index_of :: "string \<Rightarrow> string \<Rightarrow> nat \<Rightarrow> nat option" where
  "js_index_of pat s start = index_from pat (drop start s) (min start (length s))"

text \<open>\<open>text?.trim() || null\<close>\<close>

definition trimmed_or_null :: "string option \<Rightarrow> string option" where
  "trimmed_or_null t = (case t of None \<Rightarrow> None
     | Some s \<Rightarrow> if js_trim s = '''' then None else Some (js_trim s))"

section \<open>The functions of the crypto module\<close>

record crypto =
  cr_sha256 :: "bytes \<Rightarrow> bytes"
  cr_hmac_sha256 :: "bytes \<Rightarrow> bytes \<Rightarrow> bytes"                          \<comment> \<open>key, message\<close>
  cr_hkdf_sha256 :: "bytes \<Rightarrow> bytes \<Rightarrow> bytes \<Rightarrow> nat \<Rightarrow> bytes"          \<comment> \<open>key, salt, info, length\<close>
  cr_gcm_seal :: "bytes \<Rightarrow> bytes \<Rightarrow> bytes \<Rightarrow> bytes \<Rightarrow> bytes \<times> bytes"   \<comment> \<open>key, nonce, aad, plaintext\<close>
  cr_gcm_open :: "bytes \<Rightarrow> bytes \<Rightarrow> bytes \<Rightarrow> bytes \<Rightarrow> bytes \<Rightarrow> bytes option"
    \<comment> \<open>key, nonce, aad, tag, ciphertext; \<open>None\<close> is the failed authentication of \<open>final()\<close>\<close>

text \<open>SHA-256 and HMAC-SHA-256 return 32 bytes.\<close>

definition digests_documented :: "crypto \<Rightarrow> bool" where
  "digests_documented c \<longleftrightarrow>
     (\<forall>x. length (cr_sha256 c x) = 32 \<and> (\<forall>b\<in>set (cr_sha256 c x). b < 256))
     \<and> (\<forall>k x. length (cr_hmac_sha256 c k x) = 32 \<and> (\<forall>b\<in>set (cr_hmac_sha256 c k x). b < 256))"

text \<open>AES-256-GCM: opening undoes sealing, and accepts only what sealing makes; the tag has 16 bytes.\<close>

definition aead_documented :: "crypto \<Rightarrow> bool" where
  "aead_documented c \<longleftrightarrow>
     (\<forall>k n a p. length (snd (cr_gcm_seal c k n a p)) = 16)
     \<and> (\<forall>k n a p t e. cr_gcm_open c k n a t e = Some p \<longleftrightarrow> cr_gcm_seal c k n a p = (e, t))"

text \<open>A concrete instance for the examples: padded copies for digests, no secrecy.\<close>

definition copy_digest :: "bytes \<Rightarrow> bytes" where
  "copy_digest x = map (\<lambda>b. b mod 256) (take 32 (x @ replicate 32 0))"

definition plain_crypto :: crypto where
  "plain_crypto = \<lparr>cr_sha256 = copy_digest, cr_hmac_sha256 = (\<lambda>k x. copy_digest (rev x)),
     cr_hkdf_sha256 = (\<lambda>k s i n. take n (k @ i)), cr_gcm_seal = (\<lambda>k n a p. (p, replicate 16 7)),
     cr_gcm_open = (\<lambda>k n a t e. if t = replicate 16 7 then Some e else None)\<rparr>"

lemma plain_crypto_documented: "digests_documented plain_crypto" "aead_documented plain_crypto"
  by (auto simp: digests_documented_def aead_documented_def plain_crypto_def copy_digest_def)

end
