(* ===== verification/Flag_Verifier.thy ===== *)
theory Flag_Verifier
  imports Encoding Challenge_Policies
begin

text \<open>
  \<open>server/domains/challenges/flag-verifier.ts\<close>: the keyring, the validator registry, the three
  ways a flag is verified and the derivation of a team's own flag. Digests and HMACs are those of
  the \<open>crypto\<close> argument; a registered validator is a function of the caller.
\<close>

section \<open>Input and errors\<close>

record flag_verification_context =
  fv_contestId :: uuid
  fv_challengeId :: uuid
  fv_teamId :: uuid
  fv_submittedFlag :: string
  fv_flagFormat :: "string option"
  fv_policy :: flag_policy

record validator_input =
  vi_contestId :: uuid
  vi_challengeId :: uuid
  vi_teamId :: uuid
  vi_submittedFlag :: string
  vi_flagFormat :: "string option"

text \<open>What calling a validator does: it is JavaScript, so it may return anything or throw.\<close>

datatype validator_outcome = ReturnsBoolean bool | ReturnsOther | Throws

datatype flag_error = FlagVerificationConfiguration | FlagValidatorExecution

definition maximumFlagBytes :: nat where
  "maximumFlagBytes = 1024"

section \<open>Keyring and registry\<close>

text \<open>
  The entries in the order of \<open>Object.entries\<close>; a version is \<open>None\<close> when \<open>Number\<close> of its text is
  not an integer.
\<close>

fun VersionedFlagKeyring_from ::
  "(int \<rightharpoonup> bytes) \<Rightarrow> (int option \<times> bytes) list \<Rightarrow> flag_error + (int \<rightharpoonup> bytes)" where
  "VersionedFlagKeyring_from keys [] = Inr keys"
| "VersionedFlagKeyring_from keys ((rawVersion, key) # entries) =
     (case rawVersion of
        None \<Rightarrow> Inl FlagVerificationConfiguration
      | Some version \<Rightarrow>
          if \<not> safe_integer version \<or> version < 1 \<or> length key < 32
          then Inl FlagVerificationConfiguration
          else VersionedFlagKeyring_from (keys(version \<mapsto> key)) entries)"

definition VersionedFlagKeyring ::
  "(int option \<times> bytes) list \<Rightarrow> flag_error + (int \<rightharpoonup> bytes)" where
  "VersionedFlagKeyring entries = VersionedFlagKeyring_from Map.empty entries"

type_synonym validator = "validator_input \<Rightarrow> validator_outcome"

definition SynchronousFlagValidatorRegistry ::
  "(string \<times> validator) list \<Rightarrow> (string \<rightharpoonup> validator)" where
  "SynchronousFlagValidatorRegistry entries = foldl (\<lambda>m (name, v). m(name \<mapsto> v)) Map.empty entries"

section \<open>Comparison and format\<close>

definition staticFlagDigest :: "crypto \<Rightarrow> string \<Rightarrow> string" where
  "staticFlagDigest c flag = hex (cr_sha256 c (utf8 flag))"

definition constantTimeEqual :: "bytes \<Rightarrow> bytes \<Rightarrow> bool" where
  "constantTimeEqual actual expected =
     (if length actual \<noteq> length expected then False else actual = expected)"

definition constantTimeTextEqual :: "crypto \<Rightarrow> string \<Rightarrow> string \<Rightarrow> bool" where
  "constantTimeTextEqual c actual expected =
     (cr_sha256 c (utf8 actual) = cr_sha256 c (utf8 expected))"

definition marker :: string where
  "marker = ''...''"

text \<open>A format that JavaScript takes for absent: \<open>null\<close> or the empty text.\<close>

definition has_format :: "string option \<Rightarrow> bool" where
  "has_format format \<longleftrightarrow> format \<noteq> None \<and> format \<noteq> Some []"

definition flagMatchesFormat :: "crypto \<Rightarrow> string \<Rightarrow> string option \<Rightarrow> flag_error + bool" where
  "flagMatchesFormat c flag format =
     (if \<not> has_format format then Inr True
      else let f = the format in
      case js_index_of marker f 0 of
        None \<Rightarrow> Inr (constantTimeTextEqual c flag f)
      | Some firstMarker \<Rightarrow>
          if js_index_of marker f (firstMarker + length marker) \<noteq> None
          then Inl FlagVerificationConfiguration
          else let pre = take firstMarker f; suf = drop (firstMarker + length marker) f in
            Inr (length pre + length suf < length flag \<and> prefix pre flag \<and> suffix suf flag))"

definition teamFlagDomain :: string where
  "teamFlagDomain = ''sauryctf:team-flag:v1''"

definition team_flag_material :: "uuid \<Rightarrow> uuid \<Rightarrow> uuid \<Rightarrow> string" where
  "team_flag_material contestId challengeId teamId =
     js_join (char_of (0::nat)) [teamFlagDomain, contestId, challengeId, teamId]"

definition team_flag_token :: "crypto \<Rightarrow> bytes \<Rightarrow> uuid \<Rightarrow> uuid \<Rightarrow> uuid \<Rightarrow> string" where
  "team_flag_token c key contestId challengeId teamId =
     hex (cr_hmac_sha256 c key (utf8 (team_flag_material contestId challengeId teamId)))"

definition deriveTeamFlag ::
  "crypto \<Rightarrow> flag_verification_context \<Rightarrow> bytes \<Rightarrow> flag_error + string" where
  "deriveTeamFlag c input key =
     (if \<not> has_format (fv_flagFormat input) then Inl FlagVerificationConfiguration
      else let f = the (fv_flagFormat input) in
      case js_index_of marker f 0 of
        None \<Rightarrow> Inl FlagVerificationConfiguration
      | Some firstMarker \<Rightarrow>
          if js_index_of marker f (firstMarker + length marker) \<noteq> None
          then Inl FlagVerificationConfiguration
          else Inr (take firstMarker f
            @ team_flag_token c key (fv_contestId input) (fv_challengeId input) (fv_teamId input)
            @ drop (firstMarker + length marker) f))"

section \<open>Verification\<close>

definition within_input_limit :: "string \<Rightarrow> bool" where
  "within_input_limit flag \<longleftrightarrow> 0 < length (utf8 flag) \<and> length (utf8 flag) \<le> maximumFlagBytes"

definition verify ::
  "crypto \<Rightarrow> (int \<rightharpoonup> bytes) \<Rightarrow> (string \<rightharpoonup> validator) \<Rightarrow> flag_verification_context \<Rightarrow> flag_error + bool" where
  "verify c keyring validators input =
     (let withinInputLimit = within_input_limit (fv_submittedFlag input);
          candidate = (if withinInputLimit then fv_submittedFlag input else '''') in
      ebind (if withinInputLimit then flagMatchesFormat c candidate (fv_flagFormat input)
             else Inr False) (\<lambda>matchesFormat.
      case fv_policy input of
        StaticFlag digest \<Rightarrow>
          Inr (matchesFormat
            \<and> constantTimeEqual (hex_bytes (staticFlagDigest c candidate)) (hex_bytes digest))
      | TeamDerivedFlag version \<Rightarrow>
          (case keyring version of
             None \<Rightarrow> Inl FlagVerificationConfiguration
           | Some key \<Rightarrow>
               if length key < 32 then Inl FlagVerificationConfiguration
               else ebind (deriveTeamFlag c input key) (\<lambda>expected.
                 Inr (matchesFormat \<and> constantTimeTextEqual c candidate expected)))
      | SynchronousFlag name \<Rightarrow>
          (case validators name of
             None \<Rightarrow> Inl FlagVerificationConfiguration
           | Some validator \<Rightarrow>
               if \<not> withinInputLimit then Inr False
               else (case validator \<lparr>vi_contestId = fv_contestId input,
                   vi_challengeId = fv_challengeId input, vi_teamId = fv_teamId input,
                   vi_submittedFlag = fv_submittedFlag input,
                   vi_flagFormat = fv_flagFormat input\<rparr> of
                 ReturnsBoolean correct \<Rightarrow> Inr (matchesFormat \<and> correct)
               | ReturnsOther \<Rightarrow> Inl FlagValidatorExecution
               | Throws \<Rightarrow> Inl FlagValidatorExecution))))"

section \<open>Formats\<close>

text \<open>A format with exactly one marker: the frame a flag is put in.\<close>

definition framed :: "string option \<Rightarrow> string \<Rightarrow> string \<Rightarrow> bool" where
  "framed format pre suf \<longleftrightarrow> (\<exists>f k. format = Some f \<and> f \<noteq> [] \<and> js_index_of marker f 0 = Some k
     \<and> js_index_of marker f (k + length marker) = None \<and> pre = take k f
     \<and> suf = drop (k + length marker) f)"

lemma index_from_bound: "index_from pat s k = Some n \<Longrightarrow> k \<le> n \<and> n + length pat \<le> k + length s"
  by (induction pat s k rule: index_from.induct)
     (fastforce dest: prefix_length_le split: if_splits)+

lemma format_cases:
  obtains (Free) "\<not> has_format format"
  | (Text) f where "format = Some f" "f \<noteq> []" "js_index_of marker f 0 = None"
  | (Broken) f k where "format = Some f" "f \<noteq> []" "js_index_of marker f 0 = Some k"
      "js_index_of marker f (k + length marker) \<noteq> None"
  | (Framed) pre suf where "framed format pre suf"
proof (cases "has_format format")
  case True
  then obtain f where f: "format = Some f" "f \<noteq> []" by (auto simp: has_format_def)
  show thesis
  proof (cases "js_index_of marker f 0")
    case None
    with f show thesis by (rule Text)
  next
    case (Some k)
    show thesis
    proof (cases "js_index_of marker f (k + length marker)")
      case None
      with f Some show thesis by (intro Framed) (auto simp: framed_def)
    qed (use f Some Broken in auto)
  qed
qed (rule Free)

lemma framed_matches:
  "framed format pre suf \<Longrightarrow> flagMatchesFormat c flag format =
     Inr (length pre + length suf < length flag \<and> prefix pre flag \<and> suffix suf flag)"
  by (auto simp: framed_def flagMatchesFormat_def has_format_def Let_def)

lemma framed_derives:
  "framed (fv_flagFormat input) pre suf \<Longrightarrow> deriveTeamFlag c input key = Inr (pre
     @ team_flag_token c key (fv_contestId input) (fv_challengeId input) (fv_teamId input) @ suf)"
  by (auto simp: framed_def deriveTeamFlag_def has_format_def Let_def)

lemma derive_Inr:
  assumes "deriveTeamFlag c input key = Inr flag"
  obtains pre suf where "framed (fv_flagFormat input) pre suf"
    and "flag = pre @ team_flag_token c key (fv_contestId input) (fv_challengeId input)
           (fv_teamId input) @ suf"
proof (cases rule: format_cases [of "fv_flagFormat input"])
  case (Framed pre suf)
  with assms show thesis by (intro that) (auto simp: framed_derives)
qed (use assms in \<open>auto simp: deriveTeamFlag_def has_format_def Let_def\<close>)

text \<open>Identifiers hold no NUL, so the material of two teams differs.\<close>

definition nul_free :: "string \<Rightarrow> bool" where
  "nul_free s \<longleftrightarrow> char_of (0::nat) \<notin> set s"

lemma material_inj:
  assumes "nul_free a" "nul_free b" "nul_free c" "nul_free a'" "nul_free b'" "nul_free c'"
    and "team_flag_material a b c = team_flag_material a' b' c'"
  shows "a = a' \<and> b = b' \<and> c = c'"
proof -
  have d: "char_of (0::nat) \<notin> set teamFlagDomain" by code_simp
  have "[teamFlagDomain, a, b, c] = [teamFlagDomain, a', b', c']"
    using assms d unfolding team_flag_material_def nul_free_def
    by (intro js_join_inj [of _ _ "char_of (0::nat)"]) auto
  then show ?thesis by simp
qed

lemma token_length:
  "digests_documented c \<Longrightarrow> length (team_flag_token c key a b t) = 64
     \<and> utf8_length (team_flag_token c key a b t) = 64"
  by (simp add: team_flag_token_def digests_documented_def utf8_length_hex)

section \<open>Errors and keys\<close>

lemma keyring_from_sound:
  assumes "VersionedFlagKeyring_from K entries = Inr K'"
    and "\<forall>v key. K v = Some key \<longrightarrow> 1 \<le> v \<and> 32 \<le> length key"
  shows "\<forall>v key. K' v = Some key \<longrightarrow> 1 \<le> v \<and> 32 \<le> length key"
  using assms
proof (induction K entries rule: VersionedFlagKeyring_from.induct)
  case (2 K rawVersion key entries)
  from 2(2) obtain version where v: "rawVersion = Some version" "1 \<le> version" "32 \<le> length key"
    and r: "VersionedFlagKeyring_from (K(version \<mapsto> key)) entries = Inr K'"
    by (cases rawVersion) (auto simp: not_less split: if_splits)
  have cond: "\<not> (\<not> safe_integer version \<or> version < 1 \<or> length key < 32)"
    using 2(2) v(1) by (auto split: if_splits)
  have "\<forall>u k. (K(version \<mapsto> key)) u = Some k \<longrightarrow> 1 \<le> u \<and> 32 \<le> length k"
    using v(2,3) 2(3) by auto
  with 2(1) [OF v(1) cond r] show ?case by blast
qed simp

lemma keyring_sound:
  "VersionedFlagKeyring entries = Inr K \<Longrightarrow> K v = Some key \<Longrightarrow> 1 \<le> v \<and> 32 \<le> length key"
  using keyring_from_sound [of Map.empty entries K] by (auto simp: VersionedFlagKeyring_def)

text \<open>A hexadecimal text of 32 bytes is its own parse.\<close>

lemma hex_char_lower: "n < 16 \<Longrightarrow> lower_hex (hex_char n)"
  by (auto simp: hex_char_def lower_hex_def Let_def)

lemma hex_lower: "\<forall>b\<in>set bs. b < 256 \<Longrightarrow> c \<in> set (hex bs) \<Longrightarrow> lower_hex c"
  by (auto simp: hex_def div_less_iff_less_mult intro!: hex_char_lower)

lemma lower_hex_space: "lower_hex c \<Longrightarrow> \<not> js_space c"
  by (auto simp: lower_hex_def js_space_def Let_def)

lemma hex_schema:
  assumes "length bs = 32" and "\<forall>b\<in>set bs. b < 256"
  shows "staticFlagPolicySchema (hex bs) = Some (StaticFlag (hex bs))"
proof -
  have ne: "hex bs \<noteq> []" using assms(1) by (metis length_hex list.size(3) mult_eq_0_iff zero_neq_numeral)
  have "\<forall>c\<in>set (hex bs). \<not> js_space c" using hex_lower [OF assms(2)] lower_hex_space by blast
  then have "js_trim (hex bs) = hex bs" using ne by (intro js_trim_fixed) simp
  then show ?thesis
    using assms hex_lower by (simp add: staticFlagPolicySchema_def list_all_iff hex_digit_def)
qed

text \<open>A format that names its marker twice.\<close>

definition broken_format :: "string option \<Rightarrow> bool" where
  "broken_format format \<longleftrightarrow> (\<exists>f k. format = Some f \<and> f \<noteq> [] \<and> js_index_of marker f 0 = Some k
     \<and> js_index_of marker f (k + length marker) \<noteq> None)"

lemma format_errors: "flagMatchesFormat c flag format = Inl e \<longleftrightarrow>
    e = FlagVerificationConfiguration \<and> broken_format format"
  by (cases rule: format_cases [of format])
     (auto simp: framed_matches flagMatchesFormat_def has_format_def Let_def framed_def
       broken_format_def)

lemma derive_errors: "deriveTeamFlag c input key = Inl e \<longleftrightarrow>
    e = FlagVerificationConfiguration \<and> (\<nexists>pre suf. framed (fv_flagFormat input) pre suf)"
  by (cases rule: format_cases [of "fv_flagFormat input"])
     (auto simp: framed_derives deriveTeamFlag_def has_format_def Let_def framed_def)

lemma broken_not_framed: "broken_format format \<Longrightarrow> \<not> framed format pre suf"
  by (auto simp: broken_format_def framed_def)

lemma format_total: "\<not> broken_format format \<Longrightarrow> \<exists>b. flagMatchesFormat c flag format = Inr b"
  using format_errors by (cases "flagMatchesFormat c flag format") auto

fun misconfigured :: "(int \<rightharpoonup> bytes) \<Rightarrow> (string \<rightharpoonup> validator) \<Rightarrow> string option \<Rightarrow> flag_policy \<Rightarrow> bool" where
  "misconfigured keyring validators format (StaticFlag digest) = False"
| "misconfigured keyring validators format (TeamDerivedFlag version) =
     (keyring version = None \<or> (\<nexists>pre suf. framed format pre suf))"
| "misconfigured keyring validators format (SynchronousFlag name) = (validators name = None)"

section \<open>Properties\<close>

text \<open>the flag derived for a team is the one it may submit.\<close>

theorem derived_flag_accepted:
  assumes "digests_documented c" and "fv_policy input = TeamDerivedFlag version"
    and "keyring version = Some key" and "32 \<le> length key"
    and "deriveTeamFlag c input key = Inr (fv_submittedFlag input)"
    and "utf8_length (fv_submittedFlag input) \<le> maximumFlagBytes"
  shows "verify c keyring validators input = Inr True"
proof -
  from assms(5) obtain pre suf where framed: "framed (fv_flagFormat input) pre suf"
    and flag: "fv_submittedFlag input = pre
      @ team_flag_token c key (fv_contestId input) (fv_challengeId input) (fv_teamId input) @ suf"
    by (rule derive_Inr)
  note token = token_length [OF assms(1)]
  have "within_input_limit (fv_submittedFlag input)"
    using assms(6) token by (simp add: within_input_limit_def length_utf8 flag)
  moreover have "flagMatchesFormat c (fv_submittedFlag input) (fv_flagFormat input) = Inr True"
    using token by (simp add: framed_matches [OF framed] flag suffix_def)
  ultimately show ?thesis
    using assms by (simp add: verify_def constantTimeTextEqual_def)
qed

text \<open>
  C38: the flag of one team is no answer for another: when the HMACs of the two teams' materials
  differ and the digest of the right flag is neither that of the submitted one nor that of the
  empty text, verification refuses it.
\<close>

theorem foreign_flag_refused:
  assumes "digests_documented c"
    and "fv_policy input = TeamDerivedFlag version" and "keyring version = Some key"
    and "list_all nul_free [fv_contestId input, fv_challengeId input, fv_teamId input, other]"
    and "other \<noteq> fv_teamId input"
    and "deriveTeamFlag c (input\<lparr>fv_teamId := other\<rparr>) key = Inr (fv_submittedFlag input)"
    and "inj_on (cr_hmac_sha256 c key) ((\<lambda>t. utf8 (team_flag_material (fv_contestId input)
           (fv_challengeId input) t)) ` {other, fv_teamId input})"
    and "inj_on (cr_sha256 c) (utf8 ` {flag. flag = '''' \<or> flag = fv_submittedFlag input
           \<or> deriveTeamFlag c input key = Inr flag})"
  shows "verify c keyring validators input \<noteq> Inr True"
proof -
  let ?token = "team_flag_token c key (fv_contestId input) (fv_challengeId input)"
  let ?m = "\<lambda>t. utf8 (team_flag_material (fv_contestId input) (fv_challengeId input) t)"
  from assms(6) obtain pre suf where framed: "framed (fv_flagFormat input) pre suf"
    and flag: "fv_submittedFlag input = pre @ ?token other @ suf"
    by (rule derive_Inr) simp
  let ?own = "pre @ ?token (fv_teamId input) @ suf"
  have own: "deriveTeamFlag c input key = Inr ?own"
    by (rule framed_derives [OF framed])
  have "?m other \<noteq> ?m (fv_teamId input)"
    using material_inj [of "fv_contestId input" "fv_challengeId input" other] assms(4,5) by auto
  then have "cr_hmac_sha256 c key (?m other) \<noteq> cr_hmac_sha256 c key (?m (fv_teamId input))"
    using assms(7) by (auto simp: inj_on_def)
  then have "?token other \<noteq> ?token (fv_teamId input)"
    unfolding team_flag_token_def using assms(1) by (subst hex_inj) (auto simp: digests_documented_def)
  moreover have "?token (fv_teamId input) \<noteq> ''''"
    using token_length [OF assms(1)] by (metis list.size(3) zero_neq_numeral)
  ultimately have ne: "fv_submittedFlag input \<noteq> ?own" "[] \<noteq> ?own" by (simp_all add: flag)
  have "\<not> constantTimeTextEqual c x ?own" if "x \<in> {[], fv_submittedFlag input}" for x
    unfolding constantTimeTextEqual_def
    by (rule utf8_apart [OF assms(8)]) (use that ne own in auto)
  then show ?thesis
    using assms(2,3) by (auto simp: verify_def Let_def ebind_Inr_iff own)
qed

text \<open>
  a digest made by \<open>staticFlagDigest\<close> is a policy the schema stores unchanged, and under it
  exactly the texts with that digest are accepted, whatever the case of its hexadecimal digits;
  the flag itself is one of them.
\<close>

theorem static_flag_roundtrip:
  assumes "digests_documented c" and "within_input_limit flag"
    and "fv_policy input = StaticFlag (staticFlagDigest c flag)"
    and "\<not> has_format (fv_flagFormat input)"
  shows "challengeFlagPolicySchema (fv_policy input) = Some (fv_policy input)
    \<and> (verify c keyring validators input = Inr True
       \<longleftrightarrow> within_input_limit (fv_submittedFlag input)
           \<and> cr_sha256 c (utf8 (fv_submittedFlag input)) = cr_sha256 c (utf8 flag))"
proof
  have "hex_bytes (staticFlagDigest c f) = cr_sha256 c (utf8 f)" for f
    using assms(1) by (simp add: staticFlagDigest_def digests_documented_def hex_roundtrip)
  then show "verify c keyring validators input = Inr True
       \<longleftrightarrow> within_input_limit (fv_submittedFlag input)
           \<and> cr_sha256 c (utf8 (fv_submittedFlag input)) = cr_sha256 c (utf8 flag)"
    using assms by (simp add: verify_def flagMatchesFormat_def constantTimeEqual_def Let_def) metis
  show "challengeFlagPolicySchema (fv_policy input) = Some (fv_policy input)"
    using assms(1) by (simp add: assms(3) staticFlagDigest_def digests_documented_def hex_schema)
qed

text \<open>
  C40: verification fails, instead of answering, exactly for a format with two markers on a flag of
  admissible size, a policy without its key, frame or validator, and a validator that throws or
  does not return a boolean.
\<close>

theorem verification_errors:
  assumes "VersionedFlagKeyring entries = Inr keyring"
  shows "verify c keyring validators input = Inl e \<longleftrightarrow>
    (if within_input_limit (fv_submittedFlag input) \<and> broken_format (fv_flagFormat input)
        \<or> misconfigured keyring validators (fv_flagFormat input) (fv_policy input)
     then e = FlagVerificationConfiguration
     else e = FlagValidatorExecution \<and> within_input_limit (fv_submittedFlag input)
        \<and> (\<exists>name v. fv_policy input = SynchronousFlag name \<and> validators name = Some v
             \<and> v \<lparr>vi_contestId = fv_contestId input, vi_challengeId = fv_challengeId input,
                  vi_teamId = fv_teamId input, vi_submittedFlag = fv_submittedFlag input,
                  vi_flagFormat = fv_flagFormat input\<rparr> \<in> {ReturnsOther, Throws}))"
proof -
  let ?w = "within_input_limit (fv_submittedFlag input)"
  have len: "keyring v = Some key \<Longrightarrow> \<not> length key < 32" for v key
    using keyring_sound [OF assms] by (auto simp: not_less)
  show ?thesis
  proof (cases "?w \<and> broken_format (fv_flagFormat input)")
    case True
    then have "flagMatchesFormat c (fv_submittedFlag input) (fv_flagFormat input)
        = Inl FlagVerificationConfiguration" by (simp add: format_errors)
    then show ?thesis using True by (auto simp: verify_def)
  next
    case False
    then obtain b where b: "(if ?w then flagMatchesFormat c (if ?w then fv_submittedFlag input else [])
        (fv_flagFormat input) else Inr False) = Inr b" using format_total by metis
    show ?thesis
    proof (cases "fv_policy input")
      case (StaticFlag digest)
      with b False show ?thesis by (auto simp: verify_def Let_def)
    next
      case (TeamDerivedFlag version)
      show ?thesis
      proof (cases "keyring version")
        case None
        with TeamDerivedFlag False show ?thesis unfolding verify_def Let_def b by auto
      next
        case (Some key)
        show ?thesis
        proof (cases "\<exists>pre suf. framed (fv_flagFormat input) pre suf")
          case True
          then obtain flag where "deriveTeamFlag c input key = Inr flag" using framed_derives by blast
          with TeamDerivedFlag False Some True len show ?thesis unfolding verify_def Let_def b by auto
        next
          case unframed: False
          then have "deriveTeamFlag c input key = Inl FlagVerificationConfiguration"
            by (simp add: derive_errors)
          with TeamDerivedFlag False Some unframed len show ?thesis unfolding verify_def Let_def b by auto
        qed
      qed
    next
      case (SynchronousFlag name)
      with False show ?thesis unfolding verify_def Let_def b
        by (cases "validators name") (auto split: validator_outcome.splits)
    qed
  qed
qed

end
