(* ===== verification/Answer_Protector.thy ===== *)
theory Answer_Protector
  imports Encoding
begin

text \<open>
  \<open>server/infrastructure/security/submission-answer-protector.ts\<close> with the interface of
  \<open>domains/submissions/answer-protection.ts\<close>: a submitted answer is stored as its HMAC and as an
  AES-256-GCM envelope bound to the submission by its additional data. The nonce \<open>randomBytes(12)\<close>
  draws is an argument.
\<close>

section \<open>Envelope\<close>

record submission_answer_context =
  sx_contestId :: uuid
  sx_challengeId :: uuid
  sx_participationId :: uuid
  sx_teamId :: uuid
  sx_userId :: uuid
  sx_requestId :: string

record protected_submission_answer =
  pr_digest :: bytes
  pr_ciphertext :: bytes

datatype protection_error = SubmissionAnswerProtection

definition envelopeMagic :: bytes where
  "envelopeMagic = utf8 ''SCAS''"

definition envelopeVersion :: nat where
  "envelopeVersion = 1"

definition nonceLength :: nat where
  "nonceLength = 12"

definition tagLength :: nat where
  "tagLength = 16"

definition answerAad :: "submission_answer_context \<Rightarrow> bytes" where
  "answerAad context = utf8 (js_join (char_of (0::nat)) [''sauryctf:submission-answer:aad:v1'',
     sx_contestId context, sx_challengeId context, sx_participationId context, sx_teamId context,
     sx_userId context, sx_requestId context])"

section \<open>Protector\<close>

record answer_protector =
  ap_encryptionKey :: bytes
  ap_digestKey :: bytes

definition AesGcmSubmissionAnswerProtector :: "crypto \<Rightarrow> bytes \<Rightarrow> protection_error + answer_protector" where
  "AesGcmSubmissionAnswerProtector c masterKey =
     (if length masterKey \<noteq> 32 then Inl SubmissionAnswerProtection
      else let derive = (\<lambda>info. cr_hkdf_sha256 c masterKey (utf8 ''sauryctf:submission-answer:v1'')
                 (utf8 info) 32) in
        Inr \<lparr>ap_encryptionKey = derive ''encryption'', ap_digestKey = derive ''digest''\<rparr>)"

definition protect ::
  "crypto \<Rightarrow> answer_protector \<Rightarrow> bytes \<Rightarrow> string \<Rightarrow> submission_answer_context \<Rightarrow> protected_submission_answer" where
  "protect c keys nonce answer context =
     (let plaintext = utf8 answer;
          (encrypted, tag) = cr_gcm_seal c (ap_encryptionKey keys) nonce (answerAad context) plaintext in
      \<lparr>pr_digest = cr_hmac_sha256 c (ap_digestKey keys) plaintext,
       pr_ciphertext = envelopeMagic @ [envelopeVersion] @ nonce @ tag @ encrypted\<rparr>)"

text \<open>The inner option is the text of the decrypted bytes, as in \<open>utf8_text\<close>.\<close>

definition reveal ::
  "crypto \<Rightarrow> answer_protector \<Rightarrow> bytes \<Rightarrow> submission_answer_context \<Rightarrow> protection_error + string option" where
  "reveal c keys envelope context =
     (let headerLength = length envelopeMagic + 1 + nonceLength + tagLength;
          nonceStart = length envelopeMagic + 1; tagStart = nonceStart + nonceLength;
          encryptedStart = tagStart + tagLength in
      if length envelope < headerLength \<or> take (length envelopeMagic) envelope \<noteq> envelopeMagic
         \<or> envelope ! length envelopeMagic \<noteq> envelopeVersion
      then Inl SubmissionAnswerProtection
      else (case cr_gcm_open c (ap_encryptionKey keys)
              (take (tagStart - nonceStart) (drop nonceStart envelope)) (answerAad context)
              (take (encryptedStart - tagStart) (drop tagStart envelope))
              (drop encryptedStart envelope) of
          None \<Rightarrow> Inl SubmissionAnswerProtection
        | Some plaintext \<Rightarrow> Inr (utf8_text plaintext)))"

section \<open>Envelope lemmas\<close>

lemma magic_length [simp]: "length envelopeMagic = 4"
  by (simp add: envelopeMagic_def)

lemmas envelope_layout = envelopeVersion_def nonceLength_def tagLength_def

lemma protect_sizes:
  assumes "digests_documented c" and "aead_documented c" and "length nonce = nonceLength"
  shows "length (pr_digest (protect c keys nonce answer context)) = 32
    \<and> 33 \<le> length (pr_ciphertext (protect c keys nonce answer context))"
proof (cases "cr_gcm_seal c (ap_encryptionKey keys) nonce (answerAad context) (utf8 answer)")
  case (Pair encrypted tag)
  then have "length tag = 16" using assms(2) unfolding aead_documented_def by (metis snd_conv)
  with Pair assms(1,3) show ?thesis
    by (simp add: protect_def digests_documented_def nonceLength_def)
qed

text \<open>An envelope with a good header taken apart.\<close>

lemma envelope_parts:
  assumes "33 \<le> length e" and "take 4 e = envelopeMagic" and "e ! 4 = 1"
  shows "e = envelopeMagic @ [1] @ take 12 (drop 5 e) @ take 16 (drop 17 e) @ drop 33 e"
proof -
  have "e = take 4 e @ e ! 4 # drop 5 e" using assms(1) by (intro id_take_nth_drop [of 4 e, simplified]) simp
  moreover have "drop 5 e = take 12 (drop 5 e) @ take 16 (drop 17 e) @ drop 33 e"
    using append_take_drop_id [of 12 "drop 5 e"] append_take_drop_id [of 16 "drop 17 e"] by simp
  ultimately show ?thesis using assms(2,3) by (metis append_Cons append_Nil)
qed

lemma context_aad_inj:
  assumes "answerAad x = answerAad y"
    and "\<forall>s\<in>{sx_contestId x, sx_challengeId x, sx_participationId x, sx_teamId x, sx_userId x,
          sx_requestId x, sx_contestId y, sx_challengeId y, sx_participationId y, sx_teamId y,
          sx_userId y, sx_requestId y}. char_of (0::nat) \<notin> set s"
  shows "x = y"
proof -
  have d: "char_of (0::nat) \<notin> set ''sauryctf:submission-answer:aad:v1''" by code_simp
  have "[''sauryctf:submission-answer:aad:v1'', sx_contestId x, sx_challengeId x,
      sx_participationId x, sx_teamId x, sx_userId x, sx_requestId x]
    = [''sauryctf:submission-answer:aad:v1'', sx_contestId y, sx_challengeId y,
      sx_participationId y, sx_teamId y, sx_userId y, sx_requestId y]"
    by (rule js_join_inj [of _ _ "char_of (0::nat)"])
       (use assms d in \<open>auto simp: answerAad_def simp del: js_join.simps\<close>)
  then show ?thesis by (cases x; cases y) simp
qed

lemma answer_reveals:
  assumes "digests_documented c" and "aead_documented c" and "length nonce = nonceLength"
  shows "length (pr_digest (protect c keys nonce answer context)) = 32
    \<and> 33 \<le> length (pr_ciphertext (protect c keys nonce answer context))
    \<and> reveal c keys (pr_ciphertext (protect c keys nonce answer context)) context = Inr (Some answer)"
proof (cases "cr_gcm_seal c (ap_encryptionKey keys) nonce (answerAad context) (utf8 answer)")
  case (Pair encrypted tag)
  let ?e = "envelopeMagic @ [1] @ nonce @ tag @ encrypted"
  have l: "length tag = 16" "length nonce = 12"
    using Pair assms(2,3) unfolding aead_documented_def nonceLength_def by (metis snd_conv)+
  have e: "pr_ciphertext (protect c keys nonce answer context) = ?e"
    by (simp add: protect_def Pair envelopeVersion_def)
  have "cr_gcm_open c (ap_encryptionKey keys) nonce (answerAad context) tag encrypted
      = Some (utf8 answer)" using assms(2) Pair by (simp add: aead_documented_def)
  moreover have "take 4 ?e = envelopeMagic" "?e ! 4 = 1" "take 12 (drop 5 ?e) = nonce"
    "take 16 (drop 17 ?e) = tag" "drop 33 ?e = encrypted" using l by (simp_all add: nth_append)
  ultimately have "reveal c keys ?e context = Inr (Some answer)"
    using l by (simp add: reveal_def envelope_layout)
  then show ?thesis using protect_sizes [OF assms, of keys answer "context"] unfolding e by blast
qed

section \<open>Properties\<close>

text \<open>
  C36: what \<open>protect\<close> writes satisfies the length checks of the submissions table, and \<open>reveal\<close>
  with the same keys and context returns the answer.
\<close>

theorem answer_roundtrip:
  assumes "digests_documented c" and "aead_documented c" and "length nonce = nonceLength"
  shows "length (pr_digest (protect c keys nonce answer context)) = 32
    \<and> 33 \<le> length (pr_ciphertext (protect c keys nonce answer context))
    \<and> reveal c keys (pr_ciphertext (protect c keys nonce answer context)) context = Inr (Some answer)"
  using answer_reveals [OF assms] .

text \<open>
  C37: an envelope that \<open>reveal\<close> accepts is, bit for bit, the one \<open>protect\<close> makes of the revealed
  answer in that context with the nonce it carries: a tampered or transplanted envelope is refused.
\<close>

theorem reveal_authentic:
  assumes "aead_documented c" and "reveal c keys envelope context = Inr (Some answer)"
  shows "\<exists>nonce. length nonce = nonceLength
    \<and> envelope = pr_ciphertext (protect c keys nonce answer context)"
proof -
  let ?nonce = "take 12 (drop 5 envelope)" and ?tag = "take 16 (drop 17 envelope)"
    and ?encrypted = "drop 33 envelope"
  from assms(2) have header: "33 \<le> length envelope" "take 4 envelope = envelopeMagic" "envelope ! 4 = 1"
    by (auto simp: reveal_def envelope_layout split: if_splits)
  with assms(2) obtain plaintext where
    opened: "cr_gcm_open c (ap_encryptionKey keys) ?nonce (answerAad context) ?tag ?encrypted = Some plaintext"
    and decoded: "utf8_text plaintext = Some answer"
    by (auto simp: reveal_def envelope_layout split: option.splits)
  have "cr_gcm_seal c (ap_encryptionKey keys) ?nonce (answerAad context) (utf8 answer) = (?encrypted, ?tag)"
    using opened assms(1) utf8_text_encodes [OF decoded] by (simp add: aead_documented_def)
  then have "pr_ciphertext (protect c keys ?nonce answer context)
      = envelopeMagic @ [1] @ ?nonce @ ?tag @ ?encrypted"
    by (simp add: protect_def envelopeVersion_def)
  moreover have "length ?nonce = nonceLength" using header(1) by (simp add: nonceLength_def)
  ultimately show ?thesis using envelope_parts [OF header] by metis
qed

end
