(* ===== verification/Rate_Limiting.thy ===== *)
theory Rate_Limiting
  imports Encoding
begin

text \<open>
  \<open>server/infrastructure/security/rate-limit.ts\<close> and \<open>postgres-rate-limit-store.ts\<close>: fixed-window
  counters kept in memory (a window opens with its first request) or in the table
  \<open>rate_limit_windows\<close> (windows aligned to multiples of their length). Both are interpretations of one
  interface, the locale \<open>rate_limit_store\<close>, in which the bound on admitted requests is proved.
\<close>

section \<open>Decisions and policies\<close>

record rate_limit_decision =
  rd_allowed :: bool
  rd_limit :: int
  rd_remaining :: int
  rd_retryAfterMs :: int

record rate_limit_policy =
  rp_bucket :: string
  rp_limit :: int
  rp_windowMs :: int

definition decision_of :: "int \<Rightarrow> int \<Rightarrow> int \<Rightarrow> rate_limit_decision" where
  "decision_of limit hits retry = \<lparr>rd_allowed = (hits \<le> limit), rd_limit = limit,
     rd_remaining = max 0 (limit - hits), rd_retryAfterMs = max 1 retry\<rparr>"

definition rateLimitBucket :: "crypto \<Rightarrow> string \<Rightarrow> string \<Rightarrow> string \<Rightarrow> string" where
  "rateLimitBucket c scope identity action =
     scope @ '':'' @ action @ '':'' @ hex (cr_sha256 c (utf8 identity))"

section \<open>The store in memory\<close>

record memory_window =
  mw_count :: int
  mw_expiresAt :: millis

type_synonym memory_store = "string \<rightharpoonup> memory_window"

definition memory_window_at :: "millis \<Rightarrow> rate_limit_policy \<Rightarrow> memory_store \<Rightarrow> memory_window" where
  "memory_window_at now_at policy windows =
     (case windows (rp_bucket policy) of
        None \<Rightarrow> \<lparr>mw_count = 0, mw_expiresAt = now_at + rp_windowMs policy\<rparr>
      | Some current \<Rightarrow> if mw_expiresAt current \<le> now_at
          then \<lparr>mw_count = 0, mw_expiresAt = now_at + rp_windowMs policy\<rparr> else current)"

definition memory_consume ::
  "millis \<Rightarrow> rate_limit_policy \<Rightarrow> memory_store \<Rightarrow> rate_limit_decision \<times> memory_store" where
  "memory_consume now_at policy windows =
     (let current = memory_window_at now_at policy windows;
          window = current\<lparr>mw_count := mw_count current + 1\<rparr> in
      (decision_of (rp_limit policy) (mw_count window) (mw_expiresAt window - now_at),
       windows(rp_bucket policy \<mapsto> window)))"

fun memory_consumeMany ::
  "millis \<Rightarrow> rate_limit_policy list \<Rightarrow> memory_store \<Rightarrow> rate_limit_decision list \<times> memory_store" where
  "memory_consumeMany now_at [] windows = ([], windows)"
| "memory_consumeMany now_at (p # ps) windows =
     (let (d, windows1) = memory_consume now_at p windows;
          (ds, windows2) = memory_consumeMany now_at ps windows1 in (d # ds, windows2))"

section \<open>The store in PostgreSQL\<close>

record rate_limit_window_row =
  rw_expires_at :: millis
  rw_request_count :: int

text \<open>The table, by its unique index on digest and start of the window.\<close>

type_synonym window_table = "string \<times> millis \<rightharpoonup> rate_limit_window_row"

datatype rate_limit_error =
    RateLimitTypeError                \<comment> \<open>a \<open>TypeError\<close> before the query\<close>
  | RateLimitStoreUnavailable

definition positiveInteger :: "int \<Rightarrow> rate_limit_error + int" where
  "positiveInteger n = (if \<not> safe_integer n \<or> n \<le> 0 then Inl RateLimitTypeError else Inr n)"

definition digestBucket :: "crypto \<Rightarrow> string \<Rightarrow> rate_limit_error + string" where
  "digestBucket c bucket = (if bucket = '''' then Inl RateLimitTypeError
     else Inr (hex (cr_sha256 c (utf8 bucket))))"

text \<open>The start of the aligned window a time lies in.\<close>

definition window_start :: "millis \<Rightarrow> int \<Rightarrow> millis" where
  "window_start now_at windowMs = now_at div windowMs * windowMs"

text \<open>
  One row of the statement: the window is the one of \<open>database_clock\<close>, the time left is read at
  \<open>later\<close>, the second \<open>clock_timestamp()\<close>. A row that exists keeps its expiry.
\<close>

definition pg_consume ::
  "crypto \<Rightarrow> millis \<times> millis \<Rightarrow> rate_limit_policy \<Rightarrow> window_table \<Rightarrow> rate_limit_decision \<times> window_table" where
  "pg_consume c clock policy table =
     (let start = window_start (fst clock) (rp_windowMs policy);
          key = (hex (cr_sha256 c (utf8 (rp_bucket policy))), start);
          row = (case table key of
              None \<Rightarrow> \<lparr>rw_expires_at = start + rp_windowMs policy, rw_request_count = 1\<rparr>
            | Some row \<Rightarrow> row\<lparr>rw_request_count := rw_request_count row + 1\<rparr>) in
      (decision_of (rp_limit policy) (rw_request_count row) (max 1 (rw_expires_at row - snd clock)),
       table(key \<mapsto> row)))"

fun pg_consume_rows ::
  "crypto \<Rightarrow> millis \<times> millis \<Rightarrow> rate_limit_policy list \<Rightarrow> window_table
    \<Rightarrow> rate_limit_decision list \<times> window_table" where
  "pg_consume_rows c clock [] table = ([], table)"
| "pg_consume_rows c clock (p # ps) table =
     (let (d, table1) = pg_consume c clock p table;
          (ds, table2) = pg_consume_rows c clock ps table1 in (d # ds, table2))"

definition row_key :: "crypto \<Rightarrow> millis \<Rightarrow> rate_limit_policy \<Rightarrow> string \<times> millis" where
  "row_key c now_at p = (hex (cr_sha256 c (utf8 (rp_bucket p))), window_start now_at (rp_windowMs p))"

text \<open>
  \<open>consumeMany\<close>. Two policies that reach one row make \<open>ON CONFLICT DO UPDATE\<close> fail (SQLSTATE 21000),
  and so does a limit outside the range of an \<open>integer\<close>: the statement has no effect then.
\<close>

definition pg_consumeMany ::
  "crypto \<Rightarrow> millis \<times> millis \<Rightarrow> rate_limit_policy list \<Rightarrow> window_table
    \<Rightarrow> (rate_limit_error + rate_limit_decision list) \<times> window_table" where
  "pg_consumeMany c clock policies table =
     (if policies = [] then (Inr [], table)
      else case emap (\<lambda>p. ebind (digestBucket c (rp_bucket p)) (\<lambda>digest.
          ebind (positiveInteger (rp_limit p)) (\<lambda>_.
          ebind (positiveInteger (rp_windowMs p)) (\<lambda>windowMs. Inr (digest, windowMs))))) policies of
        Inl e \<Rightarrow> (Inl e, table)
      | Inr input \<Rightarrow>
          if \<not> distinct input then (Inl RateLimitTypeError, table)
          else if \<not> distinct (map (row_key c (fst clock)) policies)
            \<or> \<not> list_all (\<lambda>p. rp_limit p < 2147483648) policies
          then (Inl RateLimitStoreUnavailable, table)
          else let (ds, table') = pg_consume_rows c clock policies table in (Inr ds, table'))"

section \<open>The interface\<close>

text \<open>The requests of a trace on one bucket: when each was made and whether it was admitted.\<close>

fun admissions ::
  "('c \<Rightarrow> millis) \<Rightarrow> ('c \<Rightarrow> rate_limit_policy \<Rightarrow> 's \<Rightarrow> rate_limit_decision \<times> 's) \<Rightarrow> string
    \<Rightarrow> ('c \<times> rate_limit_policy) list \<Rightarrow> 's \<Rightarrow> (millis \<times> bool) list" where
  "admissions clock consume b [] s = []"
| "admissions clock consume b ((t, q) # es) s =
     (let (d, s') = consume t q s in
      (if rp_bucket q = b then [(clock t, rd_allowed d)] else []) @ admissions clock consume b es s')"

text \<open>The requests admitted from \<open>a\<close> on for one length of the window.\<close>

definition admitted_from :: "millis \<Rightarrow> int \<Rightarrow> (millis \<times> bool) list \<Rightarrow> nat" where
  "admitted_from a w entries = length (filter (\<lambda>(t, ok). ok \<and> a \<le> t \<and> t < a + w) entries)"

text \<open>
  At most two windows meet an interval of their length: what each window admits bounds what the
  interval does.
\<close>

lemma two_windows:
  assumes "\<forall>(t, x, ok)\<in>set L. x \<le> t \<and> t < x + (w::int)"
    and "\<forall>(t, x, ok)\<in>set L. \<forall>(t', y, ok')\<in>set L. x = y \<or> x + w \<le> y \<or> y + w \<le> x"
    and "\<forall>x. length (filter (\<lambda>(t, y, ok). ok \<and> y = x) L) \<le> k"
  shows "length (filter (\<lambda>(t, x, ok). ok \<and> a \<le> t \<and> t < a + w) L) \<le> 2 * k"
proof (cases "\<exists>t x ok. (t, x, ok) \<in> set L \<and> a \<le> t \<and> t < a + w")
  case False
  then have "filter (\<lambda>(t, x, ok). ok \<and> a \<le> t \<and> t < a + w) L = []" by (auto simp: filter_empty_conv)
  then show ?thesis by simp
next
  case True
  define X where "X = {x. \<exists>t ok. (t, x, ok) \<in> set L \<and> a \<le> t \<and> t < a + w}"
  have "X \<subseteq> (\<lambda>(t, x, ok). x) ` set L" unfolding X_def by force
  then have fin: "finite X" by (rule finite_subset) simp
  have "X \<noteq> {}" using True by (auto simp: X_def)
  define m where "m = Min X"
  define y where "y = Max X"
  have mX: "m \<in> X" "y \<in> X" and le: "\<And>x. x \<in> X \<Longrightarrow> m \<le> x \<and> x \<le> y"
    using fin \<open>X \<noteq> {}\<close> by (simp_all add: m_def y_def)
  have range: "a - w < x \<and> x < a + w" if "x \<in> X" for x
    using that assms(1) by (fastforce simp: X_def)
  have apart: "x = z \<or> x + w \<le> z \<or> z + w \<le> x" if "x \<in> X" "z \<in> X" for x z
    using that assms(2) unfolding X_def by fast
  have "x = m \<or> x = y" if "x \<in> X" for x
    using apart [OF that mX(1)] apart [OF that mX(2)] le [OF that] range [OF mX(1)] range [OF mX(2)]
      range [OF that] by linarith
  then have two: "X \<subseteq> {m, y}" by blast
  let ?c = "\<lambda>x. filter (\<lambda>(t, z, ok). ok \<and> z = x) L"
  have sub: "length (filter (\<lambda>(t, x, ok). ok \<and> a \<le> t \<and> t < a + w) M)
      \<le> length (filter (\<lambda>(t, z, ok). ok \<and> z = m) M) + length (filter (\<lambda>(t, z, ok). ok \<and> z = y) M)"
    if "set M \<subseteq> set L" for M
    using that
  proof (induction M)
    case (Cons e M)
    obtain t z ok where e: "e = (t, z, ok)" by (cases e)
    have "a \<le> t \<and> t < a + w \<Longrightarrow> z \<in> X" using Cons.prems e by (auto simp: X_def)
    with two Cons show ?case by (auto simp: e)
  qed simp
  show ?thesis using sub [of L] assms(3) [rule_format, of m] assms(3) [rule_format, of y] by simp
qed

text \<open>
  A store as its clients see it: from a time on it is sound for a policy, a request on a bucket
  falls into a window that has a start, lasts the policy's time and counts the requests made in it.
\<close>

locale rate_limit_store =
  fixes clock :: "'c \<Rightarrow> millis"
    and consume :: "'c \<Rightarrow> rate_limit_policy \<Rightarrow> 's \<Rightarrow> rate_limit_decision \<times> 's"
    and opened :: "'s \<Rightarrow> millis \<Rightarrow> rate_limit_policy \<Rightarrow> millis"
    and used :: "'s \<Rightarrow> millis \<Rightarrow> rate_limit_policy \<Rightarrow> int"
    and sound :: "'s \<Rightarrow> rate_limit_policy \<Rightarrow> millis \<Rightarrow> bool"
  assumes decides: "sound s p (clock t) \<Longrightarrow> consume t p s = (d, s')
      \<Longrightarrow> rd_allowed d \<longleftrightarrow> used s (opened s (clock t) p) p < rp_limit p"
    and counts: "sound s p (clock t) \<Longrightarrow> consume t p s = (d, s')
      \<Longrightarrow> used s' (opened s (clock t) p) p = used s (opened s (clock t) p) p + 1"
    and counted: "sound s p n \<Longrightarrow> 0 \<le> used s x p"
    and covers: "sound s p n \<Longrightarrow> opened s n p \<le> n \<and> n < opened s n p + rp_windowMs p"
    and next_window: "sound s p (clock t) \<Longrightarrow> consume t p s = (d, s') \<Longrightarrow> clock t \<le> n
      \<Longrightarrow> opened s' n p = opened s (clock t) p \<or> opened s (clock t) p + rp_windowMs p \<le> opened s' n p"
    and others: "rp_bucket q \<noteq> rp_bucket p \<Longrightarrow> sound s p (clock t) \<Longrightarrow> consume t q s = (d, s')
      \<Longrightarrow> sound s' p (clock t) \<and> opened s' n p = opened s n p \<and> used s x p \<le> used s' x p"
    and keeps: "sound s p (clock t) \<Longrightarrow> consume t p s = (d, s') \<Longrightarrow> sound s' p (clock t)"
    and later: "sound s p n \<Longrightarrow> n \<le> n' \<Longrightarrow> sound s p n'"
    and retry: "consume t p s = (d, s') \<Longrightarrow> 1 \<le> rd_retryAfterMs d"
begin

text \<open>The same requests with the start of the window each fell into.\<close>

fun windowed ::
  "rate_limit_policy \<Rightarrow> ('c \<times> rate_limit_policy) list \<Rightarrow> 's \<Rightarrow> (millis \<times> millis \<times> bool) list" where
  "windowed p [] s = []"
| "windowed p ((t, q) # es) s =
     (let (d, s') = consume t q s in
      (if rp_bucket q = rp_bucket p then [(clock t, opened s (clock t) p, rd_allowed d)] else [])
        @ windowed p es s')"

definition orderly :: "rate_limit_policy \<Rightarrow> millis \<Rightarrow> ('c \<times> rate_limit_policy) list \<Rightarrow> bool" where
  "orderly p n es \<longleftrightarrow> sorted (n # map (clock \<circ> fst) es)
     \<and> (\<forall>(t, q)\<in>set es. rp_bucket q = rp_bucket p \<longrightarrow> q = p)"

text \<open>The window that starts at \<open>x\<close> is the current one: a later request is in it or opens another.\<close>

definition current :: "'s \<Rightarrow> rate_limit_policy \<Rightarrow> millis \<Rightarrow> millis \<Rightarrow> bool" where
  "current s p n x \<longleftrightarrow> (\<forall>n'\<ge>n. opened s n' p = x \<or> x + rp_windowMs p \<le> opened s n' p)"

lemma windowed_projects:
  "admissions clock consume (rp_bucket p) es s = map (\<lambda>(t, x, ok). (t, ok)) (windowed p es s)"
  by (induction es arbitrary: s) (auto split: prod.splits)

lemma orderly_Cons:
  "orderly p n ((t, q) # es) \<Longrightarrow> n \<le> clock t \<and> orderly p (clock t) es
     \<and> (rp_bucket q = rp_bucket p \<longrightarrow> q = p)"
  by (auto simp: orderly_def)

text \<open>Induction over a trace, on requests for other buckets and for the policy's own.\<close>

lemma trace_induct [consumes 2, case_names Nil Other Own]:
  assumes "orderly p n es" and "sound s p n"
    and "\<And>n s. sound s p n \<Longrightarrow> P n [] s"
    and "\<And>n t q es s d s'. n \<le> clock t \<Longrightarrow> rp_bucket q \<noteq> rp_bucket p \<Longrightarrow> consume t q s = (d, s')
      \<Longrightarrow> sound s p n \<Longrightarrow> sound s p (clock t) \<Longrightarrow> sound s' p (clock t) \<Longrightarrow> orderly p (clock t) es
      \<Longrightarrow> P (clock t) es s' \<Longrightarrow> P n ((t, q) # es) s"
    and "\<And>n t es s d s'. n \<le> clock t \<Longrightarrow> consume t p s = (d, s')
      \<Longrightarrow> sound s p n \<Longrightarrow> sound s p (clock t) \<Longrightarrow> sound s' p (clock t) \<Longrightarrow> orderly p (clock t) es
      \<Longrightarrow> P (clock t) es s' \<Longrightarrow> P n ((t, p) # es) s"
  shows "P n es s"
  using assms(1,2)
proof (induction es arbitrary: n s)
  case Nil
  then show ?case using assms(3) by blast
next
  case (Cons e es)
  obtain t q where e: "e = (t, q)" by (cases e)
  obtain d s' where c: "consume t q s = (d, s')" by (cases "consume t q s")
  note o = orderly_Cons [OF Cons.prems(1) [unfolded e]]
  have s: "sound s p (clock t)" using o later [OF Cons.prems(2)] by blast
  show ?case
  proof (cases "rp_bucket q = rp_bucket p")
    case True
    then have q: "q = p" using o by blast
    then have s': "sound s' p (clock t)" using keeps [OF s] c by blast
    show ?thesis unfolding e q
      by (rule assms(5) [of n t s d s' es]) (use o c q s s' Cons in auto)
  next
    case False
    then have s': "sound s' p (clock t)" using others [OF False s c] by blast
    show ?thesis unfolding e
      by (rule assms(4) [of n t q s d s' es]) (use o c False s s' Cons in auto)
  qed
qed

lemma current_other:
  assumes "n \<le> clock t" and "rp_bucket q \<noteq> rp_bucket p" and "consume t q s = (d, s')"
    and "sound s p (clock t)" and "current s p n x"
  shows "current s' p (clock t) x"
  using assms(1,5) others [OF assms(2,4,3)] unfolding current_def by (metis order_trans)

lemma current_own:
  "consume t p s = (d, s') \<Longrightarrow> sound s p (clock t) \<Longrightarrow> current s' p (clock t) (opened s (clock t) p)"
  using next_window unfolding current_def by blast

lemma windowed_covers:
  "orderly p n es \<Longrightarrow> sound s p n \<Longrightarrow> \<forall>(t, x, ok)\<in>set (windowed p es s).
     x \<le> t \<and> t < x + rp_windowMs p"
  by (induction rule: trace_induct) (simp_all add: covers)

lemma positive_window: "sound s p n \<Longrightarrow> 0 < rp_windowMs p"
  using covers [of s p n] by linarith

lemma windowed_from_current:
  "orderly p n es \<Longrightarrow> sound s p n \<Longrightarrow> \<forall>x. current s p n x \<longrightarrow> (\<forall>(t, y, ok)\<in>set (windowed p es s).
     y = x \<or> x + rp_windowMs p \<le> y)"
proof (induction rule: trace_induct)
  case (Other n t q es s d s')
  with current_other show ?case by simp
next
  case (Own n t es s d s')
  let ?o = "opened s (clock t) p"
  show ?case
  proof (intro allI impI)
    fix x assume "current s p n x"
    then have "?o = x \<or> x + rp_windowMs p \<le> ?o" using Own(1) by (simp add: current_def)
    moreover have "\<forall>(t, y, ok)\<in>set (windowed p es s'). y = ?o \<or> ?o + rp_windowMs p \<le> y"
      using Own current_own by blast
    ultimately show "\<forall>(t, y, ok)\<in>set (windowed p ((t, p) # es) s). y = x \<or> x + rp_windowMs p \<le> y"
      using positive_window [OF Own(3)] by (auto simp: Own(2))
  qed
qed simp

lemma windowed_apart:
  "orderly p n es \<Longrightarrow> sound s p n \<Longrightarrow>
     \<forall>(t, x, ok)\<in>set (windowed p es s). \<forall>(t', y, ok')\<in>set (windowed p es s).
       x = y \<or> x + rp_windowMs p \<le> y \<or> y + rp_windowMs p \<le> x"
proof (induction rule: trace_induct)
  case (Own n t es s d s')
  have "\<forall>(t', y, ok)\<in>set (windowed p es s').
      y = opened s (clock t) p \<or> opened s (clock t) p + rp_windowMs p \<le> y"
    using windowed_from_current [OF Own(6,5)] current_own [OF Own(2,4)] by blast
  with Own(7) show ?case by (auto simp: Own(2))
qed auto

lemma windowed_counts:
  "orderly p n es \<Longrightarrow> sound s p n \<Longrightarrow> \<forall>x. current s p n x \<longrightarrow>
     length (filter (\<lambda>(t, y, ok). ok \<and> y = x) (windowed p es s)) \<le> nat (rp_limit p - used s x p)"
proof (induction rule: trace_induct)
  case (Other n t q es s d s')
  show ?case
  proof (intro allI impI)
    fix x assume "current s p n x"
    then have "current s' p (clock t) x" by (rule current_other [OF Other(1-3,5)])
    moreover have "used s x p \<le> used s' x p" using others [OF Other(2,5,3)] by blast
    ultimately show "length (filter (\<lambda>(t, y, ok). ok \<and> y = x) (windowed p ((t, q) # es) s))
        \<le> nat (rp_limit p - used s x p)"
      using Other(2,3,8) by (fastforce intro: order_trans)
  qed
next
  case (Own n t es s d s')
  let ?o = "opened s (clock t) p"
  note own = current_own [OF Own(2,4)]
  show ?case
  proof (intro allI impI)
    fix x assume "current s p n x"
    then consider "?o = x" | "x + rp_windowMs p \<le> ?o" using Own(1) by (auto simp: current_def)
    then show "length (filter (\<lambda>(t, y, ok). ok \<and> y = x) (windowed p ((t, p) # es) s))
        \<le> nat (rp_limit p - used s x p)"
    proof cases
      case 1
      have "length (filter (\<lambda>(t, y, ok). ok \<and> y = ?o) (windowed p es s'))
          \<le> nat (rp_limit p - used s' ?o p)" using Own(7) own by blast
      then show ?thesis
        using decides [OF Own(4,2)] counts [OF Own(4,2)]
        by (auto simp: Own(2) 1 [symmetric] simp flip: length_0_conv)
    next
      case 2
      have "\<forall>(t', y, ok)\<in>set (windowed p es s'). y = ?o \<or> ?o + rp_windowMs p \<le> y"
        using windowed_from_current [OF Own(6,5)] own by blast
      then have "filter (\<lambda>(t, y, ok). ok \<and> y = x) (windowed p ((t, p) # es) s) = []"
        using 2 positive_window [OF Own(3)] by (auto simp: Own(2) filter_empty_conv)
      then show ?thesis by simp
    qed
  qed
qed simp

lemma windowed_limit:
  "orderly p n es \<Longrightarrow> sound s p n \<Longrightarrow>
     \<forall>x. length (filter (\<lambda>(t, y, ok). ok \<and> y = x) (windowed p es s)) \<le> nat (rp_limit p)"
proof (induction rule: trace_induct)
  case (Own n t es s d s')
  let ?o = "opened s (clock t) p"
  have "length (filter (\<lambda>(t, y, ok). ok \<and> y = ?o) (windowed p es s'))
      \<le> nat (rp_limit p - used s' ?o p)"
    using windowed_counts [OF Own(6,5)] current_own [OF Own(2,4)] by blast
  with Own(7) show ?case
    using decides [OF Own(4,2)] counts [OF Own(4,2)] counted [OF Own(4), of ?o]
    by (auto simp: Own(2))
qed auto

lemma admission_bound:
  assumes "orderly p n es" and "sound s p n"
  shows "admitted_from a (rp_windowMs p) (admissions clock consume (rp_bucket p) es s)
    \<le> 2 * nat (rp_limit p)"
proof -
  have "admitted_from a (rp_windowMs p) (admissions clock consume (rp_bucket p) es s)
      = length (filter (\<lambda>(t, x, ok). ok \<and> a \<le> t \<and> t < a + rp_windowMs p) (windowed p es s))"
    by (simp add: admitted_from_def windowed_projects filter_map comp_def split_def)
  also have "\<dots> \<le> 2 * nat (rp_limit p)"
    by (rule two_windows [OF windowed_covers windowed_apart])
      (use assms windowed_limit in blast)+
  finally show ?thesis .
qed

end

section \<open>The two stores provide it\<close>

definition memory_opened :: "memory_store \<Rightarrow> millis \<Rightarrow> rate_limit_policy \<Rightarrow> millis" where
  "memory_opened windows n p = mw_expiresAt (memory_window_at n p windows) - rp_windowMs p"

definition memory_used :: "memory_store \<Rightarrow> millis \<Rightarrow> rate_limit_policy \<Rightarrow> int" where
  "memory_used windows x p = (case windows (rp_bucket p) of None \<Rightarrow> 0
     | Some w \<Rightarrow> if mw_expiresAt w - rp_windowMs p = x then mw_count w else 0)"

definition memory_sound :: "memory_store \<Rightarrow> rate_limit_policy \<Rightarrow> millis \<Rightarrow> bool" where
  "memory_sound windows p n \<longleftrightarrow> 0 < rp_windowMs p
     \<and> (case windows (rp_bucket p) of None \<Rightarrow> True
        | Some w \<Rightarrow> 0 \<le> mw_count w \<and> mw_expiresAt w \<le> n + rp_windowMs p)"

lemmas memory_defs = memory_opened_def memory_used_def memory_sound_def memory_window_at_def
  memory_consume_def decision_of_def Let_def

interpretation memory: rate_limit_store id memory_consume memory_opened memory_used memory_sound
proof
  fix s s' p t n x q d and n' :: millis
  show "memory_sound s p (id t) \<Longrightarrow> memory_consume t p s = (d, s')
      \<Longrightarrow> rd_allowed d = (memory_used s (memory_opened s (id t) p) p < rp_limit p)"
    by (cases "s (rp_bucket p)") (auto simp: memory_defs)
  show "memory_sound s p (id t) \<Longrightarrow> memory_consume t p s = (d, s')
      \<Longrightarrow> memory_used s' (memory_opened s (id t) p) p = memory_used s (memory_opened s (id t) p) p + 1"
    by (cases "s (rp_bucket p)") (auto simp: memory_defs)
  show "memory_sound s p n \<Longrightarrow> 0 \<le> memory_used s x p"
    by (cases "s (rp_bucket p)") (auto simp: memory_defs)
  show "memory_sound s p n \<Longrightarrow> memory_opened s n p \<le> n \<and> n < memory_opened s n p + rp_windowMs p"
    by (cases "s (rp_bucket p)") (auto simp: memory_defs)
  show "memory_sound s p (id t) \<Longrightarrow> memory_consume t p s = (d, s') \<Longrightarrow> id t \<le> n
      \<Longrightarrow> memory_opened s' n p = memory_opened s (id t) p
        \<or> memory_opened s (id t) p + rp_windowMs p \<le> memory_opened s' n p"
    by (cases "s (rp_bucket p)") (auto simp: memory_defs)
  show "rp_bucket q \<noteq> rp_bucket p \<Longrightarrow> memory_sound s p (id t) \<Longrightarrow> memory_consume t q s = (d, s')
      \<Longrightarrow> memory_sound s' p (id t) \<and> memory_opened s' n p = memory_opened s n p
        \<and> memory_used s x p \<le> memory_used s' x p"
    by (auto simp: memory_defs)
  show "memory_sound s p (id t) \<Longrightarrow> memory_consume t p s = (d, s') \<Longrightarrow> memory_sound s' p (id t)"
    by (cases "s (rp_bucket p)") (auto simp: memory_defs)
  show "memory_sound s p n \<Longrightarrow> n \<le> n' \<Longrightarrow> memory_sound s p n'"
    by (cases "s (rp_bucket p)") (auto simp: memory_defs)
  show "memory_consume t p s = (d, s') \<Longrightarrow> 1 \<le> rd_retryAfterMs d"
    by (auto simp: memory_defs)
qed

definition pg_used :: "crypto \<Rightarrow> window_table \<Rightarrow> millis \<Rightarrow> rate_limit_policy \<Rightarrow> int" where
  "pg_used c table x p = (case table (hex (cr_sha256 c (utf8 (rp_bucket p))), x) of
     None \<Rightarrow> 0 | Some row \<Rightarrow> rw_request_count row)"

definition pg_opened :: "window_table \<Rightarrow> millis \<Rightarrow> rate_limit_policy \<Rightarrow> millis" where
  "pg_opened table n p = window_start n (rp_windowMs p)"

text \<open>The check constraint on the count; windows have a length.\<close>

definition pg_sound :: "window_table \<Rightarrow> rate_limit_policy \<Rightarrow> millis \<Rightarrow> bool" where
  "pg_sound table p n \<longleftrightarrow> 0 < rp_windowMs p \<and> (\<forall>row\<in>ran table. 0 \<le> rw_request_count row)"

lemma window_start_covers:
  "0 < w \<Longrightarrow> window_start n w \<le> n \<and> n < window_start n w + w"
  using pos_mod_bound [of w n] pos_mod_sign [of w n] div_mult_mod_eq [of n w]
  unfolding window_start_def by linarith

lemma window_start_apart:
  assumes "0 < w" and "n \<le> n'"
  shows "window_start n' w = window_start n w \<or> window_start n w + w \<le> window_start n' w"
proof -
  have "n div w \<le> n' div w" using assms by (simp add: zdiv_mono1)
  then consider "n div w = n' div w" | "n div w + 1 \<le> n' div w" by linarith
  then show ?thesis
  proof cases
    case 2
    then have "(n div w + 1) * w \<le> n' div w * w" using assms(1) by (intro mult_right_mono) auto
    then show ?thesis by (simp add: window_start_def algebra_simps)
  qed (simp add: window_start_def)
qed

lemma ran_upd: "x \<in> ran (m(k \<mapsto> v)) \<Longrightarrow> x = v \<or> x \<in> ran m"
  by (auto simp: ran_def split: if_splits)

lemmas pg_defs = pg_used_def pg_opened_def pg_consume_def decision_of_def Let_def

lemma pg_consume_row:
  assumes "pg_consume c t q table = (d, table')"
  obtains k row where "table' = table(k \<mapsto> row)"
    and "rw_request_count row = (case table k of None \<Rightarrow> 1 | Some r \<Rightarrow> rw_request_count r + 1)"
  using assms by (auto simp: pg_consume_def Let_def split: option.splits)

lemma pg_sound_step:
  assumes "pg_sound table p n" and "pg_consume c t q table = (d, table')"
  shows "pg_sound table' p n'"
proof -
  obtain k row where t: "table' = table(k \<mapsto> row)"
    and row: "rw_request_count row = (case table k of None \<Rightarrow> 1 | Some r \<Rightarrow> rw_request_count r + 1)"
    by (rule pg_consume_row [OF assms(2)])
  have "0 \<le> rw_request_count row"
    using row assms(1) by (cases "table k") (auto simp: pg_sound_def dest: ranI)
  then show ?thesis using assms(1) unfolding t pg_sound_def by (auto dest!: ran_upd)
qed

lemma pg_used_mono:
  assumes "pg_consume c t q table = (d, table')"
  shows "pg_used c table x p \<le> pg_used c table' x p"
  using pg_consume_row [OF assms]
proof cases
  case (1 k row)
  then show ?thesis by (cases "table k") (auto simp: pg_used_def)
qed

interpretation postgres: rate_limit_store fst "pg_consume c" pg_opened "pg_used c" pg_sound
proof
  fix s s' p q d x and t :: "millis \<times> millis" and n n' :: millis
  show "pg_consume c t p s = (d, s')
      \<Longrightarrow> rd_allowed d = (pg_used c s (pg_opened s (fst t) p) p < rp_limit p)"
    by (auto simp: pg_defs split: option.splits)
  show "pg_consume c t p s = (d, s')
      \<Longrightarrow> pg_used c s' (pg_opened s (fst t) p) p = pg_used c s (pg_opened s (fst t) p) p + 1"
    by (auto simp: pg_defs split: option.splits)
  show "pg_sound s p n \<Longrightarrow> 0 \<le> pg_used c s x p"
    by (auto simp: pg_used_def pg_sound_def ran_def split: option.splits)
  show "pg_sound s p n \<Longrightarrow> pg_opened s n p \<le> n \<and> n < pg_opened s n p + rp_windowMs p"
    by (simp add: pg_opened_def pg_sound_def window_start_covers)
  show "pg_sound s p (fst t) \<Longrightarrow> fst t \<le> n \<Longrightarrow> pg_opened s' n p = pg_opened s (fst t) p
        \<or> pg_opened s (fst t) p + rp_windowMs p \<le> pg_opened s' n p"
    by (simp add: pg_opened_def pg_sound_def window_start_apart)
  show "pg_sound s p (fst t) \<Longrightarrow> pg_consume c t q s = (d, s')
      \<Longrightarrow> pg_sound s' p (fst t) \<and> pg_opened s' n p = pg_opened s n p \<and> pg_used c s x p \<le> pg_used c s' x p"
    by (intro conjI) (simp_all add: pg_sound_step pg_used_mono pg_opened_def)
  show "pg_sound s p (fst t) \<Longrightarrow> pg_consume c t p s = (d, s') \<Longrightarrow> pg_sound s' p (fst t)"
    by (rule pg_sound_step)
  show "pg_sound s p n \<Longrightarrow> pg_sound s p n'"
    by (simp add: pg_sound_def)
  show "pg_consume c t p s = (d, s') \<Longrightarrow> 1 \<le> rd_retryAfterMs d"
    by (auto simp: pg_defs split: option.splits)
qed

section \<open>Properties\<close>

text \<open>
  C35: Whatever else is requested, the PostgreSQL store admits at most twice its limit of the
  requests on a bucket within any time of the length of the window, when the requests of the bucket
  come with one policy and the database clock does not run backwards.
\<close>

theorem postgres_admission_bound:
  assumes "0 < rp_windowMs p" and "\<forall>row\<in>ran table. 0 \<le> rw_request_count row"
    and "sorted (map (fst \<circ> fst) es)" and "\<forall>(t, q)\<in>set es. rp_bucket q = rp_bucket p \<longrightarrow> q = p"
  shows "admitted_from a (rp_windowMs p) (admissions fst (pg_consume c) (rp_bucket p) es table)
    \<le> 2 * nat (rp_limit p)"
proof (rule postgres.admission_bound)
  show "pg_sound table p (case es of [] \<Rightarrow> 0 | e # _ \<Rightarrow> fst (fst e))"
    using assms(1,2) by (simp add: pg_sound_def)
  show "postgres.orderly p (case es of [] \<Rightarrow> 0 | e # _ \<Rightarrow> fst (fst e)) es"
    using assms(3,4) by (cases es) (auto simp: postgres.orderly_def)
qed

text \<open>The same for the store in memory, from the empty store on.\<close>

theorem memory_admission_bound:
  assumes "0 < rp_windowMs p" and "sorted (map fst es)"
    and "\<forall>(t, q)\<in>set es. rp_bucket q = rp_bucket p \<longrightarrow> q = p"
  shows "admitted_from a (rp_windowMs p) (admissions id memory_consume (rp_bucket p) es Map.empty)
    \<le> 2 * nat (rp_limit p)"
proof (rule memory.admission_bound)
  show "memory_sound Map.empty p (case es of [] \<Rightarrow> 0 | e # _ \<Rightarrow> fst e)"
    using assms(1) by (simp add: memory_sound_def)
  show "memory.orderly p (case es of [] \<Rightarrow> 0 | e # _ \<Rightarrow> fst e) es"
    using assms(2,3) by (cases es) (auto simp: memory.orderly_def)
qed

end
