(* ===== verification/Build_Coordinator.thy ===== *)
theory Build_Coordinator
  imports Prelude
begin

text \<open>
  \<open>domains/scoreboards/build-coordinator.ts\<close>: concurrent calls of \<open>run\<close> with one key share one
  build. A call runs without interruption up to its \<open>await\<close>; from there the builds settle and the
  callers resume in any order, so the calls of a process are a step relation. \<open>promises\<close> lists the
  promises \<open>build()\<close> returned, with their key and, once settled, their outcome; a build is an
  asynchronous function, so it settles its promise and throws nothing itself. \<open>owners\<close> are the calls
  that wait for a build of their own inside \<open>try\<close>, \<open>joiners\<close> those that returned a promise they found.
\<close>

record 'o build_coordinator =
  inFlight :: "string \<Rightarrow> nat option"
  promises :: "(string \<times> 'o option) list"
  owners :: "(nat \<times> string \<times> nat) list"
  joiners :: "(nat \<times> string \<times> nat) list"
  answers :: "(nat \<times> string \<times> 'o) list"

definition coordinator :: "'o build_coordinator" where
  "coordinator = \<lparr>inFlight = Map.empty, promises = [], owners = [], joiners = [], answers = []\<rparr>"

section \<open>One call\<close>

text \<open>From the call to its \<open>await\<close>.\<close>

definition coordinated_run :: "nat \<Rightarrow> string \<Rightarrow> 'o build_coordinator \<Rightarrow> 'o build_coordinator" where
  "coordinated_run caller key s =
     (case inFlight s key of
        Some existing \<Rightarrow> s\<lparr>joiners := (caller, key, existing) # joiners s\<rparr>
      | None \<Rightarrow> let coordinated = length (promises s) in
          s\<lparr>promises := promises s @ [(key, None)], inFlight := (inFlight s)(key \<mapsto> coordinated),
            owners := (caller, key, coordinated) # owners s\<rparr>)"

definition promise_settles :: "nat \<Rightarrow> 'o \<Rightarrow> 'o build_coordinator \<Rightarrow> 'o build_coordinator" where
  "promise_settles p outcome s = s\<lparr>promises := (promises s)[p := (fst (promises s ! p), Some outcome)]\<rparr>"

text \<open>The \<open>finally\<close> block: the key is dropped when it still leads to the settled promise.\<close>

definition owner_returns :: "nat \<Rightarrow> string \<Rightarrow> nat \<Rightarrow> 'o \<Rightarrow> 'o build_coordinator \<Rightarrow> 'o build_coordinator" where
  "owner_returns caller key p outcome s =
     s\<lparr>inFlight := (if inFlight s key = Some p then (inFlight s)(key := None) else inFlight s),
       owners := remove1 (caller, key, p) (owners s), answers := (caller, key, outcome) # answers s\<rparr>"

definition joiner_returns :: "nat \<Rightarrow> string \<Rightarrow> nat \<Rightarrow> 'o \<Rightarrow> 'o build_coordinator \<Rightarrow> 'o build_coordinator" where
  "joiner_returns caller key p outcome s =
     s\<lparr>joiners := remove1 (caller, key, p) (joiners s), answers := (caller, key, outcome) # answers s\<rparr>"

inductive coordinator_step :: "'o build_coordinator \<Rightarrow> 'o build_coordinator \<Rightarrow> bool" where
  call: "coordinator_step s (coordinated_run caller key s)"
| settle: "p < length (promises s) \<Longrightarrow> snd (promises s ! p) = None \<Longrightarrow>
    coordinator_step s (promise_settles p outcome s)"
| own: "(caller, key, p) \<in> set (owners s) \<Longrightarrow> snd (promises s ! p) = Some outcome \<Longrightarrow>
    coordinator_step s (owner_returns caller key p outcome s)"
| join: "(caller, key, p) \<in> set (joiners s) \<Longrightarrow> snd (promises s ! p) = Some outcome \<Longrightarrow>
    coordinator_step s (joiner_returns caller key p outcome s)"

abbreviation coordinated :: "'o build_coordinator \<Rightarrow> bool" where
  "coordinated s \<equiv> coordinator_step\<^sup>*\<^sup>* coordinator s"

text \<open>The builds that run.\<close>

definition running :: "'o build_coordinator \<Rightarrow> nat set" where
  "running s = {p. p < length (promises s) \<and> snd (promises s ! p) = None}"

section \<open>The invariant\<close>

text \<open>
  The keys in flight are those of the waiting owners, every running build is in flight, and every
  call waits for, or was answered by, a build for its key.
\<close>

definition coordinator_ok :: "'o build_coordinator \<Rightarrow> bool" where
  "coordinator_ok s \<longleftrightarrow>
     (\<forall>k p. inFlight s k = Some p \<longleftrightarrow> (\<exists>c. (c, k, p) \<in> set (owners s)))
   \<and> distinct (map (\<lambda>(c, k, p). p) (owners s))
   \<and> (\<forall>p\<in>running s. inFlight s (fst (promises s ! p)) = Some p)
   \<and> (\<forall>(c, k, p)\<in>set (owners s) \<union> set (joiners s). p < length (promises s) \<and> fst (promises s ! p) = k)
   \<and> (\<forall>(c, k, out)\<in>set (answers s). (k, Some out) \<in> set (promises s))"

lemma coordinator_okI:
  assumes "\<And>k p. inFlight s k = Some p \<longleftrightarrow> (\<exists>c. (c, k, p) \<in> set (owners s))"
    and "distinct (map (\<lambda>(c, k, p). p) (owners s))"
    and "\<And>p. p \<in> running s \<Longrightarrow> inFlight s (fst (promises s ! p)) = Some p"
    and "\<And>c k p. (c, k, p) \<in> set (owners s) \<or> (c, k, p) \<in> set (joiners s) \<Longrightarrow>
      p < length (promises s) \<and> fst (promises s ! p) = k"
    and "\<And>c k out. (c, k, out) \<in> set (answers s) \<Longrightarrow> (k, Some out) \<in> set (promises s)"
  shows "coordinator_ok s"
  unfolding coordinator_ok_def
  by (intro conjI allI ballI) (use assms in \<open>simp, simp, simp, blast, blast\<close>)

lemma coordinator_okD:
  assumes "coordinator_ok s"
  shows ok_flight: "inFlight s k = Some p \<longleftrightarrow> (\<exists>c. (c, k, p) \<in> set (owners s))"
    and ok_distinct: "distinct (map (\<lambda>(c, k, p). p) (owners s))"
    and ok_running: "p \<in> running s \<Longrightarrow> inFlight s (fst (promises s ! p)) = Some p"
    and ok_waits: "(c, k, p) \<in> set (owners s) \<or> (c, k, p) \<in> set (joiners s) \<Longrightarrow>
      p < length (promises s) \<and> fst (promises s ! p) = k"
    and ok_answers: "(c, k, out) \<in> set (answers s) \<Longrightarrow> (k, Some out) \<in> set (promises s)"
  using assms unfolding coordinator_ok_def by (simp, simp, simp, blast, blast)

lemma ok_one_owner:
  assumes "coordinator_ok s" and "(c, k, p) \<in> set (owners s)" and "(c', k', p) \<in> set (owners s)"
  shows "c' = c \<and> k' = k"
proof -
  have "inj_on (\<lambda>(c, k, p). p) (set (owners s))" using ok_distinct [OF assms(1)] by (simp add: distinct_map)
  from inj_onD [OF this, of "(c, k, p)" "(c', k', p)"] assms show ?thesis by simp
qed

lemma coordinator_ok_start: "coordinator_ok coordinator"
  by (rule coordinator_okI) (simp_all add: coordinator_def running_def)

lemma ok_call:
  assumes ok: "coordinator_ok s"
  shows "coordinator_ok (coordinated_run caller key s)"
proof (cases "inFlight s key")
  case (Some p)
  then obtain c where "(c, key, p) \<in> set (owners s)" using ok_flight [OF ok] by blast
  note new = ok_waits [OF ok disjI1 [OF this]]
  let ?t = "coordinated_run caller key s"
  have t: "owners ?t = owners s" "joiners ?t = (caller, key, p) # joiners s" "promises ?t = promises s"
    "answers ?t = answers s" "inFlight ?t = inFlight s" "running ?t = running s"
    using Some by (simp_all add: coordinated_run_def running_def)
  show ?thesis
  proof (rule coordinator_okI)
    show "q < length (promises ?t) \<and> fst (promises ?t ! q) = k"
      if "(c, k, q) \<in> set (owners ?t) \<or> (c, k, q) \<in> set (joiners ?t)" for c k q
      using that new ok_waits [OF ok, of c k q] by (auto simp: t)
  qed (use ok_flight [OF ok] ok_distinct [OF ok] ok_running [OF ok] ok_answers [OF ok]
    in \<open>simp_all add: t\<close>)
next
  case None
  let ?t = "coordinated_run caller key s" and ?n = "length (promises s)"
  have t: "owners ?t = (caller, key, ?n) # owners s" "joiners ?t = joiners s" "answers ?t = answers s"
    "promises ?t = promises s @ [(key, None)]" "inFlight ?t = (inFlight s)(key \<mapsto> ?n)"
    using None by (simp_all add: coordinated_run_def Let_def)
  have free: "(c, key, p) \<notin> set (owners s)" for c p using None ok_flight [OF ok, of key p] by auto
  have old: "p < ?n" if "(c, k, p) \<in> set (owners s)" for c k p using ok_waits [OF ok] that by blast
  have run: "p \<in> running s \<or> p = ?n" if "p \<in> running ?t" for p
    using that by (auto simp: running_def t nth_append less_Suc_eq)
  show ?thesis
  proof (rule coordinator_okI)
    show "inFlight ?t k = Some p \<longleftrightarrow> (\<exists>c. (c, k, p) \<in> set (owners ?t))" for k p
      using ok_flight [OF ok, of k p] free by (auto simp: t)
    show "distinct (map (\<lambda>(c, k, p). p) (owners ?t))"
      using ok_distinct [OF ok] old by (auto simp: t)
    show "inFlight ?t (fst (promises ?t ! p)) = Some p" if "p \<in> running ?t" for p
      using run [OF that]
    proof
      assume p: "p \<in> running s"
      then have "p < ?n" by (simp add: running_def)
      with ok_running [OF ok p] None show ?thesis by (auto simp: t nth_append)
    qed (simp add: t)
    show "p < length (promises ?t) \<and> fst (promises ?t ! p) = k"
      if "(c, k, p) \<in> set (owners ?t) \<or> (c, k, p) \<in> set (joiners ?t)" for c k p
      using that ok_waits [OF ok, of c k p] by (auto simp: t nth_append)
    show "(k, Some out) \<in> set (promises ?t)" if "(c, k, out) \<in> set (answers ?t)" for c k out
      using that ok_answers [OF ok] by (auto simp: t)
  qed
qed

lemma ok_settle:
  assumes ok: "coordinator_ok s" and p: "p < length (promises s)" "snd (promises s ! p) = None"
  shows "coordinator_ok (promise_settles p outcome s)"
proof -
  let ?t = "promise_settles p outcome s"
  have t: "owners ?t = owners s" "joiners ?t = joiners s" "answers ?t = answers s" "inFlight ?t = inFlight s"
    "length (promises ?t) = length (promises s)"
    by (simp_all add: promise_settles_def)
  have keys: "fst (promises ?t ! q) = fst (promises s ! q)" for q
    using p(1) by (cases "q = p") (auto simp: promise_settles_def)
  have run: "running ?t \<subseteq> running s"
    using p(1) by (auto simp: running_def promise_settles_def nth_list_update split: if_splits)
  have settled: "(k, Some out) \<in> set (promises ?t)" if "(k, Some out) \<in> set (promises s)" for k out
  proof -
    from that obtain i where i: "i < length (promises s)" "promises s ! i = (k, Some out)"
      by (auto simp: in_set_conv_nth)
    then have "i \<noteq> p" using p(2) by auto
    with i have "promises ?t ! i = (k, Some out)" by (simp add: promise_settles_def)
    with i(1) t(5) show ?thesis using nth_mem by metis
  qed
  show ?thesis
    by (rule coordinator_okI)
      (use ok run settled in \<open>auto simp: t keys ok_flight ok_distinct dest: ok_waits ok_answers\<close>,
       use ok_running [OF ok] ok_flight [OF ok] run keys in auto)
qed

lemma ok_own:
  assumes ok: "coordinator_ok s" and own: "(caller, key, p) \<in> set (owners s)" and out: "snd (promises s ! p) = Some outcome"
  shows "coordinator_ok (owner_returns caller key p outcome s)"
proof -
  let ?t = "owner_returns caller key p outcome s"
  have flight: "inFlight s key = Some p" using own ok_flight [OF ok] by blast
  have p: "p < length (promises s)" "fst (promises s ! p) = key" using ok_waits [OF ok] own by blast+
  have dist: "distinct (owners s)" using ok_distinct [OF ok] by (simp add: distinct_map)
  have t: "set (owners ?t) = set (owners s) - {(caller, key, p)}" "joiners ?t = joiners s"
    "answers ?t = (caller, key, outcome) # answers s" "promises ?t = promises s"
    "inFlight ?t = (inFlight s)(key := None)" "running ?t = running s"
    using dist flight by (simp_all add: owner_returns_def running_def)
  show ?thesis
  proof (rule coordinator_okI)
    show "inFlight ?t k = Some q \<longleftrightarrow> (\<exists>c. (c, k, q) \<in> set (owners ?t))" for k q
    proof (cases "k = key")
      case True
      have "(c, key, q) \<notin> set (owners ?t)" for c
        using ok_one_owner [OF ok own, of c key] ok_flight [OF ok, of key q] flight by (auto simp: t)
      with True show ?thesis by (simp add: t)
    qed (use ok_flight [OF ok, of k q] in \<open>auto simp: t\<close>)
    show "distinct (map (\<lambda>(c, k, p). p) (owners ?t))"
      using ok_distinct [OF ok] by (auto simp: owner_returns_def distinct_map dest: inj_on_subset set_remove1_subset
          [THEN subsetD] intro: inj_on_subset [OF _ set_remove1_subset])
    show "inFlight ?t (fst (promises ?t ! q)) = Some q" if "q \<in> running ?t" for q
    proof -
      have "inFlight s (fst (promises s ! q)) = Some q" "q \<noteq> p"
        using that ok_running [OF ok] out by (auto simp: t running_def)
      with flight show ?thesis by (auto simp: t)
    qed
    show "q < length (promises ?t) \<and> fst (promises ?t ! q) = k"
      if "(c, k, q) \<in> set (owners ?t) \<or> (c, k, q) \<in> set (joiners ?t)" for c k q
      using that ok_waits [OF ok, of c k q] by (auto simp: t)
    have "(key, Some outcome) \<in> set (promises s)" using p out nth_mem by (metis prod.collapse)
    then show "(k, Some o') \<in> set (promises ?t)" if "(c, k, o') \<in> set (answers ?t)" for c k o'
      using that ok_answers [OF ok] by (auto simp: t)
  qed
qed

lemma ok_join:
  assumes ok: "coordinator_ok s" and j: "(caller, key, p) \<in> set (joiners s)" and out: "snd (promises s ! p) = Some outcome"
  shows "coordinator_ok (joiner_returns caller key p outcome s)"
proof -
  let ?t = "joiner_returns caller key p outcome s"
  have "p < length (promises s)" "fst (promises s ! p) = key" using ok_waits [OF ok] j by blast+
  with out have new: "(key, Some outcome) \<in> set (promises s)" using nth_mem by (metis prod.collapse)
  have t: "owners ?t = owners s" "set (joiners ?t) \<subseteq> set (joiners s)" "promises ?t = promises s"
    "answers ?t = (caller, key, outcome) # answers s" "inFlight ?t = inFlight s" "running ?t = running s"
    by (simp_all add: joiner_returns_def running_def set_remove1_subset)
  show ?thesis
  proof (rule coordinator_okI)
    show "q < length (promises ?t) \<and> fst (promises ?t ! q) = k"
      if "(c, k, q) \<in> set (owners ?t) \<or> (c, k, q) \<in> set (joiners ?t)" for c k q
      using that t(2) ok_waits [OF ok, of c k q] by (auto simp: t(1,3))
    show "(k, Some o') \<in> set (promises ?t)" if "(c, k, o') \<in> set (answers ?t)" for c k o'
      using that new ok_answers [OF ok] by (auto simp: t(3,4))
  qed (use ok_flight [OF ok] ok_distinct [OF ok] ok_running [OF ok] in \<open>simp_all add: t(1,3,5,6)\<close>)
qed

lemma coordinator_ok_step: "coordinator_step s t \<Longrightarrow> coordinator_ok s \<Longrightarrow> coordinator_ok t"
  by (induction rule: coordinator_step.induct) (simp_all add: ok_call ok_settle ok_own ok_join)

lemma coordinated_ok: "coordinated s \<Longrightarrow> coordinator_ok s"
  by (induction rule: rtranclp_induct) (auto intro: coordinator_ok_start coordinator_ok_step)

text \<open>From settled builds, first the owners return, then the joiners.\<close>

lemma owners_return:
  assumes "coordinator_ok s" and "running s = {}"
  shows "\<exists>t. coordinator_step\<^sup>*\<^sup>* s t \<and> coordinator_ok t \<and> running t = {} \<and> owners t = [] \<and> joiners t = joiners s
    \<and> length (answers t) = length (answers s) + length (owners s)"
  using assms
proof (induction "length (owners s)" arbitrary: s)
  case 0
  then show ?case by (intro exI [of _ s]) auto
next
  case (Suc n)
  then obtain c k p os where os: "owners s = (c, k, p) # os" by (cases "owners s") auto
  with Suc.prems obtain out where out: "snd (promises s ! p) = Some out"
    using ok_waits [OF Suc.prems(1), of c k p] by (cases "snd (promises s ! p)") (auto simp: running_def)
  let ?s = "owner_returns c k p out s"
  have step: "coordinator_step s ?s" using os out by (auto intro: coordinator_step.own)
  have "running ?s = {}" using Suc.prems(2) by (simp add: running_def owner_returns_def)
  moreover have "n = length (owners ?s)" using os Suc.hyps(2) by (simp add: owner_returns_def)
  ultimately obtain t where t: "coordinator_step\<^sup>*\<^sup>* ?s t" "coordinator_ok t" "running t = {}" "owners t = []"
      "joiners t = joiners ?s" "length (answers t) = length (answers ?s) + length (owners ?s)"
    using Suc.hyps(1) coordinator_ok_step [OF step Suc.prems(1)] by blast
  with step os show ?case
    by (intro exI [of _ t]) (auto simp: owner_returns_def intro: converse_rtranclp_into_rtranclp)
qed

lemma joiners_return:
  assumes "coordinator_ok s" and "running s = {}" and "owners s = []"
  shows "\<exists>t. coordinator_step\<^sup>*\<^sup>* s t \<and> inFlight t = Map.empty \<and> owners t = [] \<and> joiners t = []
    \<and> length (answers t) = length (answers s) + length (joiners s)"
  using assms
proof (induction "length (joiners s)" arbitrary: s)
  case 0
  then have "inFlight s = Map.empty" using ok_flight [OF 0(2)] by (intro ext) (simp add: not_Some_eq [symmetric])
  with 0 show ?case by (intro exI [of _ s]) auto
next
  case (Suc n)
  then obtain c k p js where js: "joiners s = (c, k, p) # js" by (cases "joiners s") auto
  with Suc.prems obtain out where out: "snd (promises s ! p) = Some out"
    using ok_waits [OF Suc.prems(1), of c k p] by (cases "snd (promises s ! p)") (auto simp: running_def)
  let ?s = "joiner_returns c k p out s"
  have step: "coordinator_step s ?s" using js out by (auto intro: coordinator_step.join)
  have "running ?s = {}" "owners ?s = []" using Suc.prems by (simp_all add: running_def joiner_returns_def)
  moreover have "n = length (joiners ?s)" using js Suc.hyps(2) by (simp add: joiner_returns_def)
  ultimately obtain t where t: "coordinator_step\<^sup>*\<^sup>* ?s t" "inFlight t = Map.empty" "owners t = []" "joiners t = []"
      "length (answers t) = length (answers ?s) + length (joiners ?s)"
    using Suc.hyps(1) coordinator_ok_step [OF step Suc.prems(1)] by blast
  with step js show ?case
    by (intro exI [of _ t]) (auto simp: joiner_returns_def intro: converse_rtranclp_into_rtranclp)
qed

section \<open>Properties\<close>

text \<open>
  C33: At most one build per key runs at any time, and every call is answered with the outcome of a
  build for its own key.
\<close>

theorem single_flight:
  assumes "coordinated s"
  shows "inj_on (\<lambda>p. fst (promises s ! p)) (running s)
    \<and> (\<forall>(c, k, out)\<in>set (answers s). (k, Some out) \<in> set (promises s))"
proof
  note ok = coordinated_ok [OF assms]
  show "inj_on (\<lambda>p. fst (promises s ! p)) (running s)"
    by (rule inj_onI) (metis ok_running [OF ok] option.inject)
  show "\<forall>(c, k, out)\<in>set (answers s). (k, Some out) \<in> set (promises s)"
    using ok_answers [OF ok] by blast
qed

text \<open>
  No key gets stuck: once the builds have settled, every waiting call can return, whether its build
  succeeded or failed, and then no key is in flight.
\<close>

theorem callers_answered:
  assumes "coordinated s" and "running s = {}"
  shows "\<exists>t. coordinator_step\<^sup>*\<^sup>* s t \<and> inFlight t = Map.empty \<and> owners t = [] \<and> joiners t = []
    \<and> length (answers t) = length (answers s) + length (owners s) + length (joiners s)"
proof -
  obtain u where u: "coordinator_step\<^sup>*\<^sup>* s u" "coordinator_ok u" "running u = {}" "owners u = []"
      "joiners u = joiners s" "length (answers u) = length (answers s) + length (owners s)"
    using owners_return [OF coordinated_ok [OF assms(1)] assms(2)] by blast
  then obtain t where "coordinator_step\<^sup>*\<^sup>* u t" "inFlight t = Map.empty" "owners t = []" "joiners t = []"
      "length (answers t) = length (answers u) + length (joiners u)"
    using joiners_return by blast
  with u show ?thesis by (intro exI [of _ t]) auto
qed

end
