(* ===== verification/Security_Examples.thy ===== *)
theory Security_Examples
  imports Flag_Verifier Answer_Protector Rate_Limiting Build_Coordinator
begin

text \<open>
  The properties of flags, answers, rate limits and shared builds applied to small inputs, with the
  copying digests of \<open>plain_crypto\<close>.
\<close>

section \<open>Flags\<close>

definition team_key :: bytes where
  "team_key = replicate 32 7"

definition one_key :: "int \<rightharpoonup> bytes" where
  "one_key = [1 \<mapsto> team_key]"

definition attempt :: "flag_policy \<Rightarrow> uuid \<Rightarrow> string option \<Rightarrow> string \<Rightarrow> flag_verification_context" where
  "attempt policy team format flag = \<lparr>fv_contestId = ''cup'', fv_challengeId = ''warmup'', fv_teamId = team,
     fv_submittedFlag = flag, fv_flagFormat = format, fv_policy = policy\<rparr>"

definition own_flag :: "uuid \<Rightarrow> string" where
  "own_flag team = ''flag{'' @ team_flag_token plain_crypto team_key ''cup'' ''warmup'' team @ ''}''"

abbreviation framed_attempt :: "uuid \<Rightarrow> string \<Rightarrow> flag_verification_context" where
  "framed_attempt \<equiv> \<lambda>team. attempt (TeamDerivedFlag 1) team (Some ''flag{...}'')"

lemma own_flag_derived: "deriveTeamFlag plain_crypto (framed_attempt team flag) team_key = Inr (own_flag team)"
proof -
  have "js_index_of marker ''flag{...}'' 0 = Some 5" "js_index_of marker ''flag{...}'' 8 = None" "has_format (Some ''flag{...}'')"
    by code_simp+
  then show ?thesis by (simp add: deriveTeamFlag_def attempt_def own_flag_def marker_def)
qed

theorem derived_flag_accepted_witness:
  "verify plain_crypto one_key Map.empty (framed_attempt ''red'' (own_flag ''red'')) = Inr True"
proof (rule derived_flag_accepted [OF plain_crypto_documented(1)])
  show "utf8_length (fv_submittedFlag (framed_attempt ''red'' (own_flag ''red''))) \<le> maximumFlagBytes"
    by code_simp
  show "deriveTeamFlag plain_crypto (framed_attempt ''red'' (own_flag ''red'')) team_key
      = Inr (fv_submittedFlag (framed_attempt ''red'' (own_flag ''red'')))"
    by (simp add: own_flag_derived) (simp add: attempt_def)
qed (simp_all add: attempt_def one_key_def team_key_def)

lemma flag_digests_apart: "cr_sha256 plain_crypto (utf8 (own_flag ''red'')) \<noteq> cr_sha256 plain_crypto (utf8 (own_flag ''blue''))"
  by code_simp

lemma flag_digests_nonempty: "cr_sha256 plain_crypto (utf8 (own_flag ''red'')) \<noteq> cr_sha256 plain_crypto (utf8 [])"
  "cr_sha256 plain_crypto (utf8 (own_flag ''blue'')) \<noteq> cr_sha256 plain_crypto (utf8 [])"
  by code_simp+

lemma materials_apart: "cr_hmac_sha256 plain_crypto team_key (utf8 (team_flag_material ''cup'' ''warmup'' ''red''))
    \<noteq> cr_hmac_sha256 plain_crypto team_key (utf8 (team_flag_material ''cup'' ''warmup'' ''blue''))"
  by code_simp

lemma ids_nul_free: "list_all nul_free [''cup'', ''warmup'', ''blue'', ''red'']"
  by (simp add: nul_free_def char_of_def bit_0)

theorem foreign_flag_refused_witness:
  "verify plain_crypto one_key Map.empty (framed_attempt ''blue'' (own_flag ''red'')) \<noteq> Inr True"
proof (rule foreign_flag_refused [OF plain_crypto_documented(1), where other = "''red''"])
  let ?input = "framed_attempt ''blue'' (own_flag ''red'')"
  have derived: "deriveTeamFlag plain_crypto ?input team_key = Inr (own_flag ''blue'')"
    "deriveTeamFlag plain_crypto (?input\<lparr>fv_teamId := ''red''\<rparr>) team_key = Inr (own_flag ''red'')"
    using own_flag_derived [of "''blue''" "own_flag ''red''"] own_flag_derived [of "''red''" "own_flag ''red''"]
    by (simp_all add: attempt_def)
  have fields: "fv_contestId ?input = ''cup''" "fv_challengeId ?input = ''warmup''" "fv_teamId ?input = ''blue''"
    "fv_submittedFlag ?input = own_flag ''red''" by (simp_all add: attempt_def)
  show "deriveTeamFlag plain_crypto (?input\<lparr>fv_teamId := ''red''\<rparr>) team_key = Inr (fv_submittedFlag ?input)"
    by (simp add: derived fields)
  show "inj_on (cr_hmac_sha256 plain_crypto team_key) ((\<lambda>t. utf8 (team_flag_material (fv_contestId ?input)
      (fv_challengeId ?input) t)) ` {''red'', fv_teamId ?input})"
    unfolding fields using materials_apart by (auto simp: inj_on_def)
  show "inj_on (cr_sha256 plain_crypto) (utf8 ` {flag. flag = [] \<or> flag = fv_submittedFlag ?input
      \<or> deriveTeamFlag plain_crypto ?input team_key = Inr flag})"
    unfolding derived fields using flag_digests_apart flag_digests_nonempty by (auto simp: inj_on_def)
  show "list_all nul_free [fv_contestId ?input, fv_challengeId ?input, fv_teamId ?input, ''red'']"
    unfolding fields by (rule ids_nul_free)
qed (simp_all add: attempt_def one_key_def)

theorem static_flag_roundtrip_witness:
  "verify plain_crypto one_key Map.empty (attempt (StaticFlag (staticFlagDigest plain_crypto ''flag{a}'')) ''red'' None ''flag{a}'')
     = Inr True
   \<and> verify plain_crypto one_key Map.empty (attempt (StaticFlag (staticFlagDigest plain_crypto ''flag{a}'')) ''red'' None ''flag{b}'')
     \<noteq> Inr True"
proof -
  have "within_input_limit ''flag{a}''" "within_input_limit ''flag{b}''" "\<not> has_format None"
    "cr_sha256 plain_crypto (utf8 ''flag{b}'') \<noteq> cr_sha256 plain_crypto (utf8 ''flag{a}'')" by code_simp+
  then show ?thesis
    using static_flag_roundtrip [OF plain_crypto_documented(1), of "''flag{a}''"] by (auto simp: attempt_def)
qed

theorem verification_errors_witness:
  "verify plain_crypto one_key Map.empty (attempt (TeamDerivedFlag 2) ''red'' (Some ''flag{...}'') ''x'')
     = Inl FlagVerificationConfiguration
   \<and> verify plain_crypto one_key [''echo'' \<mapsto> \<lambda>_. Throws] (attempt (SynchronousFlag ''echo'') ''red'' None ''x'')
     = Inl FlagValidatorExecution"
proof -
  have keys: "VersionedFlagKeyring [(Some 1, team_key)] = Inr one_key"
    by (simp add: VersionedFlagKeyring_def one_key_def team_key_def safe_integer_def max_safe_integer_def)
  have "within_input_limit ''x''" by code_simp
  moreover have "\<not> broken_format None" by (simp add: broken_format_def)
  ultimately show ?thesis
    using verification_errors [OF keys] by (auto simp: attempt_def one_key_def)
qed

section \<open>Answers\<close>

definition entry_context :: submission_answer_context where
  "entry_context = \<lparr>sx_contestId = ''cup'', sx_challengeId = ''warmup'', sx_participationId = ''pr'', sx_teamId = ''red'',
     sx_userId = ''alice'', sx_requestId = ''q1''\<rparr>"

definition some_keys :: answer_protector where
  "some_keys = (case AesGcmSubmissionAnswerProtector plain_crypto (replicate 32 3) of Inr k \<Rightarrow> k)"

theorem answer_roundtrip_witness:
  "reveal plain_crypto some_keys (pr_ciphertext (protect plain_crypto some_keys (replicate 12 5) ''flag{a}'' entry_context))
     entry_context = Inr (Some ''flag{a}'')"
  using answer_roundtrip [OF plain_crypto_documented, of "replicate 12 5"] by (simp add: nonceLength_def)

theorem reveal_authentic_witness:
  "\<exists>nonce. length nonce = nonceLength
     \<and> envelopeMagic @ [1] @ replicate 12 5 @ replicate 16 7 @ utf8 ''flag{a}''
       = pr_ciphertext (protect plain_crypto some_keys nonce ''flag{a}'' entry_context)"
proof (rule reveal_authentic [OF plain_crypto_documented(2)])
  show "reveal plain_crypto some_keys (envelopeMagic @ [1] @ replicate 12 5 @ replicate 16 7 @ utf8 ''flag{a}'')
      entry_context = Inr (Some ''flag{a}'')"
    by code_simp
qed

section \<open>Rate limits\<close>

definition knocks :: "rate_limit_policy" where
  "knocks = \<lparr>rp_bucket = ''login'', rp_limit = 2, rp_windowMs = 1000\<rparr>"

text \<open>Six requests around a window boundary: four pass within one window length.\<close>

theorem postgres_admission_bound_witness:
  "admitted_from 900 1000 (admissions fst (pg_consume plain_crypto) ''login''
     [((t, t), knocks). t \<leftarrow> [900, 950, 990, 1000, 1010, 1020]] Map.empty) \<le> 4"
  using postgres_admission_bound [of knocks Map.empty "[((t, t), knocks). t \<leftarrow> [900, 950, 990, 1000, 1010, 1020]]"
      900 plain_crypto]
  by (simp add: knocks_def)

section \<open>Shared builds\<close>

definition two_calls :: "nat build_coordinator" where
  "two_calls = coordinated_run 2 ''board'' (coordinated_run 1 ''board'' coordinator)"

lemma two_calls_coordinated: "coordinated two_calls"
  unfolding two_calls_def by (rule rtranclp.rtrancl_into_rtrancl [OF r_into_rtranclp]) (rule coordinator_step.call)+

lemma two_calls_state: "promises two_calls = [(''board'', None)]" "length (owners two_calls) = 1" "length (joiners two_calls) = 1"
  "answers two_calls = []"
  by (simp_all add: two_calls_def coordinated_run_def coordinator_def Let_def)

theorem single_flight_witness:
  "inj_on (\<lambda>p. fst (promises two_calls ! p)) (running two_calls) \<and> running two_calls = {0}"
  using single_flight [OF two_calls_coordinated] by (auto simp: running_def two_calls_state)

theorem callers_answered_witness:
  "\<exists>t. coordinator_step\<^sup>*\<^sup>* (promise_settles 0 42 two_calls) t \<and> inFlight t = Map.empty \<and> length (answers t) = 2"
proof -
  let ?s = "promise_settles 0 42 two_calls"
  have "coordinator_step two_calls ?s"
    by (rule coordinator_step.settle) (simp_all add: two_calls_state)
  with two_calls_coordinated have "coordinated ?s" by (rule rtranclp.rtrancl_into_rtrancl)
  moreover have "running ?s = {}" by (auto simp: running_def promise_settles_def two_calls_state)
  ultimately obtain t where "coordinator_step\<^sup>*\<^sup>* ?s t" "inFlight t = Map.empty"
      "length (answers t) = length (answers ?s) + length (owners ?s) + length (joiners ?s)"
    using callers_answered by blast
  then show ?thesis by (auto simp: promise_settles_def two_calls_state)
qed

end
