(* ===== verification/Database.thy ===== *)
theory Database
  imports Scoring_Replay
begin

text \<open>
  The tables of \<open>server/db/schema.ts\<close> the modelled repositories use, as lists of row records in
  insertion order, with the constraints PostgreSQL checks on insertion. A transaction is a function
  from a database to an error (rolled back: no new database) or a result and the new database; row
  locks serialise transactions and have no other effect. \<open>gen_random_uuid()\<close> and \<open>now()\<close> are
  the fields of an environment argument; time stamps are milliseconds.
\<close>

section \<open>Environment and errors\<close>

record tx_env =
  env_now :: millis
  env_uuid :: "nat \<Rightarrow> uuid"       \<comment> \<open>the identifiers the transaction draws, one index per draw\<close>

datatype pg_error =
    UniqueViolation string       \<comment> \<open>SQLSTATE 23505 with the constraint\<close>
  | CheckViolation string        \<comment> \<open>SQLSTATE 23514\<close>
  | ForeignKeyViolation string   \<comment> \<open>SQLSTATE 23503\<close>

text \<open>The first constraint of the list that does not hold.\<close>

fun constraints :: "(pg_error \<times> bool) list \<Rightarrow> pg_error + unit" where
  "constraints [] = Inr ()"
| "constraints ((e, ok) # cs) = (if ok then constraints cs else Inl e)"

lemma constraints_Inr [simp]: "constraints cs = Inr u \<longleftrightarrow> list_all snd cs"
  by (induction cs rule: constraints.induct) auto

lemma constraints_Inl: "constraints cs = Inl e \<Longrightarrow> e \<in> fst ` set cs"
  by (induction cs rule: constraints.induct) (auto split: if_splits)

text \<open>JSON values: \<open>jsonb\<close> columns and the values \<open>JSON.parse\<close> returns.\<close>

datatype json = JNull | JBool bool | JNum int | JStr string | JArr "json list"
  | JObj "(string \<times> json) list"

section \<open>Enumerations\<close>

datatype user_status = Active | Banned | Deleted
datatype team_member_role = Member | Captain
datatype contest_publication_status = Draft | Published | Archived
datatype contest_time_phase = Upcoming | Running | Ended
datatype contest_visibility = PublicContest | PrivateContest
datatype registration_strategy = Review | AutoAccept
datatype cheat_clue_status = Open | Reviewing | Dismissed | Confirmed
datatype scoreboard_view = PublicView | InternalView

section \<open>Rows\<close>

record user_row =
  us_id :: uuid
  us_username :: string
  us_email_normalized :: string
  us_email_verified_at :: "millis option"
  us_status :: user_status
  us_must_change_password :: bool

record team_row =
  te_id :: uuid
  te_name :: string
  te_name_normalized :: string
  te_created_by :: uuid
  te_version :: int
  te_updated_at :: millis

record team_member_row =
  tm_id :: uuid
  tm_team_id :: uuid
  tm_user_id :: uuid
  tm_role :: team_member_role
  tm_joined_at :: millis

record team_invite_row =
  ti_id :: uuid
  ti_team_id :: uuid
  ti_token_digest :: bytes
  ti_generation :: int
  ti_created_by :: uuid
  ti_expires_at :: "millis option"
  ti_revoked_at :: "millis option"
  ti_created_at :: millis

record contest_row =
  co_id :: uuid
  co_title :: string
  co_publication_status :: contest_publication_status
  co_visibility :: contest_visibility
  co_registration_strategy :: registration_strategy
  co_invite_required :: bool
  co_invite_digest :: "bytes option"
  co_start_at :: millis
  co_end_at :: millis
  co_scoreboard_freeze_at :: "millis option"
  co_practice_enabled :: bool
  co_min_team_size :: int
  co_max_team_size :: int
  co_registration_constraints :: json

record division_row =
  di_id :: uuid
  di_contest_id :: uuid
  di_name :: string
  di_sort_order :: int

record participation_row =
  pa_id :: uuid
  pa_contest_id :: uuid
  pa_team_id :: uuid
  pa_division_id :: "uuid option"
  pa_status :: participation_status
  pa_registered_by :: uuid
  pa_reviewed_by :: "uuid option"
  pa_review_reason :: "string option"
  pa_invite_digest_verified :: "bytes option"
  pa_registered_at :: millis
  pa_reviewed_at :: "millis option"
  pa_withdrawn_at :: "millis option"
  pa_version :: int
  pa_updated_at :: millis

record contest_challenge_row =
  ch_id :: uuid
  ch_contest_id :: uuid
  ch_enabled :: bool
  ch_publish_at :: "millis option"
  ch_close_at :: "millis option"
  ch_submission_limit :: "int option"
  ch_flag_format :: "string option"
  ch_flag_policy :: flag_policy
  ch_scoring_policy :: scoring_policy

record submission_row =
  su_id :: uuid
  su_contest_id :: uuid
  su_challenge_id :: uuid
  su_participation_id :: uuid
  su_user_id :: uuid
  su_mode :: submission_mode
  su_result :: submission_result
  su_answer_digest :: bytes
  su_answer_ciphertext :: bytes
  su_request_id :: string
  su_submitted_at :: millis

record solve_row =
  so_id :: uuid
  so_submission_id :: uuid
  so_contest_id :: uuid
  so_challenge_id :: uuid
  so_participation_id :: uuid
  so_mode :: submission_mode
  so_awarded_score :: int
  so_solve_order :: int
  so_solved_at :: millis

record score_adjustment_row =
  sa_id :: uuid
  sa_contest_id :: uuid
  sa_participation_id :: uuid
  sa_points_delta :: int
  sa_reason :: string
  sa_created_by :: uuid
  sa_request_id :: string
  sa_created_at :: millis

text \<open>The four clue types with their evidence, and the keys that make a clue unique.\<close>

datatype clue_key =
    RepeatKey uuid uuid bytes            \<comment> \<open>participation, challenge, fingerprint\<close>
  | SharedKey uuid bytes uuid            \<comment> \<open>challenge, fingerprint, participation\<close>
  | FrequencyKey uuid uuid int           \<comment> \<open>participation, challenge, epoch minute\<close>
  | ForeignKey uuid uuid                 \<comment> \<open>offending submission, owning participation\<close>

datatype clue_type = RepeatedIncorrectAnswer | SharedIncorrectAnswer | AbnormalSubmissionFrequency
  | ForeignTeamFlag

record clue_evidence =
  ev_kind :: clue_type
  ev_answer_fingerprint :: "bytes option"
  ev_trigger_submission_id :: "uuid option"
  ev_subject_submission_id :: "uuid option"
  ev_incorrect_submission_id :: "uuid option"
  ev_owner_submission_id :: "uuid option"
  ev_participation_id :: uuid
  ev_owner_participation_id :: "uuid option"
  ev_related_participation_ids :: "uuid list"
  ev_challenge_id :: uuid
  ev_matching_count :: "int option"
  ev_started_at :: "millis option"
  ev_ended_at :: "millis option"
  ev_observed_at :: "millis option"

record cheat_clue_row =
  cc_id :: uuid
  cc_clue_key :: clue_key
  cc_contest_id :: uuid
  cc_challenge_id :: "uuid option"
  cc_participation_id :: "uuid option"
  cc_clue_type :: clue_type
  cc_evidence :: clue_evidence
  cc_status :: cheat_clue_status
  cc_reviewed_by :: "uuid option"
  cc_review_note :: "string option"
  cc_reviewed_at :: "millis option"
  cc_created_at :: millis
  cc_updated_at :: millis

record scoreboard_version_row =
  bv_contest_id :: uuid
  bv_version :: int
  bv_updated_at :: millis

record contest_event_row =
  ce_id :: uuid
  ce_contest_id :: uuid
  ce_event_type :: string
  ce_event_key :: "string \<times> uuid \<times> string"    \<comment> \<open>the parts joined by colons\<close>
  ce_occurred_at :: millis
  ce_visible_at :: millis
  ce_payload :: "(string \<times> json) list"

record audit_event_row =
  au_id :: uuid
  au_actor_user_id :: "uuid option"
  au_action :: string
  au_target_type :: string
  au_target_id :: "uuid option"
  au_reason :: "string option"
  au_request_id :: string
  au_changes :: "(string \<times> json) list"
  au_metadata :: "(string \<times> json) list"
  au_occurred_at :: millis

record 'board snapshot_row =
  sn_id :: uuid
  sn_contest_id :: uuid
  sn_view :: scoreboard_view
  sn_division_id :: "uuid option"
  sn_scope_key :: string
  sn_version :: int
  sn_payload :: 'board
  sn_built_at :: js_date

section \<open>The database\<close>

record database =
  db_users :: "user_row list"
  db_teams :: "team_row list"
  db_team_members :: "team_member_row list"
  db_team_invites :: "team_invite_row list"
  db_contests :: "contest_row list"
  db_divisions :: "division_row list"
  db_participations :: "participation_row list"
  db_contest_challenges :: "contest_challenge_row list"
  db_submissions :: "submission_row list"
  db_solves :: "solve_row list"
  db_score_adjustments :: "score_adjustment_row list"
  db_cheat_clues :: "cheat_clue_row list"
  db_scoreboard_versions :: "scoreboard_version_row list"
  db_contest_events :: "contest_event_row list"
  db_audit_events :: "audit_event_row list"

definition derive_contest_time_phase :: "millis \<Rightarrow> millis \<Rightarrow> millis \<Rightarrow> contest_time_phase" where
  "derive_contest_time_phase start_at end_at now_at =
     (if now_at < start_at then Upcoming else if now_at < end_at then Running else Ended)"

section \<open>Cursor pages\<close>

record 'item page =
  page_items :: "'item list"
  page_nextCursor :: "uuid option"
  page_hasMore :: bool

text \<open>
  The last step of a cursor query: the rows come with one more than the limit. \<open>None\<close> is the
  \<open>TypeError\<close> of \<open>rows.at(-1)!\<close> when the page is empty though rows are left.
\<close>

definition page_of :: "nat \<Rightarrow> ('r \<Rightarrow> uuid) \<Rightarrow> ('r \<Rightarrow> 'item) \<Rightarrow> 'r list \<Rightarrow> 'item page option" where
  "page_of limit ident record fetched =
     (let hasMore = limit < length fetched; rows = take limit fetched in
      if hasMore \<and> rows = [] then None
      else Some \<lparr>page_items = map record rows,
                page_nextCursor = (if hasMore then Some (ident (last rows)) else None),
                page_hasMore = hasMore\<rparr>)"

text \<open>A cursor that JavaScript takes for absent: \<open>undefined\<close> or the empty string.\<close>

definition given :: "string option \<Rightarrow> bool" where
  "given cursor \<longleftrightarrow> cursor \<noteq> None \<and> cursor \<noteq> Some ''''"

section \<open>Insertions with their constraints\<close>

definition known :: "('r \<Rightarrow> 'k) \<Rightarrow> 'r list \<Rightarrow> 'k \<Rightarrow> bool" where
  "known key rows k \<longleftrightarrow> k \<in> key ` set rows"

definition insert_submission :: "submission_row \<Rightarrow> database \<Rightarrow> pg_error + database" where
  "insert_submission r db = ebind (constraints [
      (CheckViolation ''submissions_answer_digest_length'', length (su_answer_digest r) = 32),
      (CheckViolation ''submissions_answer_ciphertext_envelope'', 33 \<le> length (su_answer_ciphertext r)),
      (UniqueViolation ''submissions_pkey'', \<not> known su_id (db_submissions db) (su_id r)),
      (UniqueViolation ''submissions_request_id_unique'',
        \<not> known su_request_id (db_submissions db) (su_request_id r)),
      (ForeignKeyViolation ''submissions_contest_id'', known co_id (db_contests db) (su_contest_id r)),
      (ForeignKeyViolation ''submissions_contest_challenge_id'',
        known ch_id (db_contest_challenges db) (su_challenge_id r)),
      (ForeignKeyViolation ''submissions_participation_id'',
        known pa_id (db_participations db) (su_participation_id r)),
      (ForeignKeyViolation ''submissions_user_id'', known us_id (db_users db) (su_user_id r))])
    (\<lambda>_. Inr (db\<lparr>db_submissions := db_submissions db @ [r]\<rparr>))"

definition insert_solve :: "solve_row \<Rightarrow> database \<Rightarrow> pg_error + database" where
  "insert_solve r db = ebind (constraints [
      (CheckViolation ''solves_awarded_score_nonnegative'', 0 \<le> so_awarded_score r),
      (CheckViolation ''solves_order_positive'', 0 < so_solve_order r),
      (UniqueViolation ''solves_pkey'', \<not> known so_id (db_solves db) (so_id r)),
      (UniqueViolation ''solves_submission_unique'',
        \<not> known so_submission_id (db_solves db) (so_submission_id r)),
      (UniqueViolation ''solves_participation_challenge_mode_unique'',
        \<not> known (\<lambda>s. (so_participation_id s, so_challenge_id s, so_mode s)) (db_solves db)
            (so_participation_id r, so_challenge_id r, so_mode r)),
      (UniqueViolation ''solves_challenge_mode_order_unique'',
        \<not> known (\<lambda>s. (so_challenge_id s, so_mode s, so_solve_order s)) (db_solves db)
            (so_challenge_id r, so_mode r, so_solve_order r)),
      (ForeignKeyViolation ''solves_submission_id'', known su_id (db_submissions db) (so_submission_id r)),
      (ForeignKeyViolation ''solves_contest_id'', known co_id (db_contests db) (so_contest_id r)),
      (ForeignKeyViolation ''solves_contest_challenge_id'',
        known ch_id (db_contest_challenges db) (so_challenge_id r)),
      (ForeignKeyViolation ''solves_participation_id'',
        known pa_id (db_participations db) (so_participation_id r))])
    (\<lambda>_. Inr (db\<lparr>db_solves := db_solves db @ [r]\<rparr>))"

definition insert_score_adjustment :: "score_adjustment_row \<Rightarrow> database \<Rightarrow> pg_error + database" where
  "insert_score_adjustment r db = ebind (constraints [
      (CheckViolation ''score_adjustments_delta_nonzero'', sa_points_delta r \<noteq> 0),
      (CheckViolation ''score_adjustments_reason_not_empty'', sa_reason r \<noteq> ''''),
      (UniqueViolation ''score_adjustments_pkey'', \<not> known sa_id (db_score_adjustments db) (sa_id r)),
      (UniqueViolation ''score_adjustments_request_id_unique'',
        \<not> known sa_request_id (db_score_adjustments db) (sa_request_id r)),
      (ForeignKeyViolation ''score_adjustments_contest_id'',
        known co_id (db_contests db) (sa_contest_id r)),
      (ForeignKeyViolation ''score_adjustments_participation_id'',
        known pa_id (db_participations db) (sa_participation_id r)),
      (ForeignKeyViolation ''score_adjustments_created_by'', known us_id (db_users db) (sa_created_by r))])
    (\<lambda>_. Inr (db\<lparr>db_score_adjustments := db_score_adjustments db @ [r]\<rparr>))"

definition insert_contest_event :: "contest_event_row \<Rightarrow> database \<Rightarrow> pg_error + database" where
  "insert_contest_event r db = ebind (constraints [
      (UniqueViolation ''contest_events_pkey'', \<not> known ce_id (db_contest_events db) (ce_id r)),
      (UniqueViolation ''contest_events_contest_key_unique'',
        \<not> known (\<lambda>e. (ce_contest_id e, ce_event_key e)) (db_contest_events db)
            (ce_contest_id r, ce_event_key r)),
      (ForeignKeyViolation ''contest_events_contest_id'', known co_id (db_contests db) (ce_contest_id r))])
    (\<lambda>_. Inr (db\<lparr>db_contest_events := db_contest_events db @ [r]\<rparr>))"

text \<open>White space of \<open>btrim\<close>: the space character only.\<close>

definition btrim :: "string \<Rightarrow> string" where
  "btrim s = rev (dropWhile (\<lambda>c. c = CHR '' '') (rev (dropWhile (\<lambda>c. c = CHR '' '') s)))"

definition insert_audit_event :: "audit_event_row \<Rightarrow> database \<Rightarrow> pg_error + database" where
  "insert_audit_event r db = ebind (constraints [
      (CheckViolation ''audit_events_action_not_empty'', btrim (au_action r) \<noteq> ''''),
      (CheckViolation ''audit_events_target_type_not_empty'', btrim (au_target_type r) \<noteq> ''''),
      (CheckViolation ''audit_events_request_id_not_empty'', btrim (au_request_id r) \<noteq> ''''),
      (CheckViolation ''audit_events_reason_not_empty'',
        (case au_reason r of None \<Rightarrow> True | Some t \<Rightarrow> btrim t \<noteq> '''')),
      (UniqueViolation ''audit_events_pkey'', \<not> known au_id (db_audit_events db) (au_id r)),
      (UniqueViolation (if au_target_id r = None then ''audit_events_request_action_without_target_unique''
          else ''audit_events_request_action_target_unique''),
        \<not> known (\<lambda>e. (au_request_id e, au_action e, au_target_type e, au_target_id e))
            (db_audit_events db) (au_request_id r, au_action r, au_target_type r, au_target_id r)),
      (ForeignKeyViolation ''audit_events_actor_user_id'',
        (case au_actor_user_id r of None \<Rightarrow> True | Some u \<Rightarrow> known us_id (db_users db) u))])
    (\<lambda>_. Inr (db\<lparr>db_audit_events := db_audit_events db @ [r]\<rparr>))"

lemma insert_submission_Inr:
  "insert_submission r db = Inr db' \<Longrightarrow>
     su_id r \<notin> su_id ` set (db_submissions db) \<and> su_request_id r \<notin> su_request_id ` set (db_submissions db)
     \<and> db' = db\<lparr>db_submissions := db_submissions db @ [r]\<rparr>"
  by (simp add: insert_submission_def ebind_Inr_iff known_def del: constraints.simps)

lemma insert_solve_Inr:
  "insert_solve r db = Inr db' \<Longrightarrow>
     so_id r \<notin> so_id ` set (db_solves db)
     \<and> so_submission_id r \<notin> so_submission_id ` set (db_solves db)
     \<and> (so_participation_id r, so_challenge_id r, so_mode r)
         \<notin> (\<lambda>s. (so_participation_id s, so_challenge_id s, so_mode s)) ` set (db_solves db)
     \<and> db' = db\<lparr>db_solves := db_solves db @ [r]\<rparr>"
  by (simp add: insert_solve_def ebind_Inr_iff known_def del: constraints.simps)

lemma insert_score_adjustment_Inr:
  "insert_score_adjustment r db = Inr db' \<Longrightarrow> sa_points_delta r \<noteq> 0
     \<and> sa_id r \<notin> sa_id ` set (db_score_adjustments db)
     \<and> db' = db\<lparr>db_score_adjustments := db_score_adjustments db @ [r]\<rparr>"
  by (simp add: insert_score_adjustment_def ebind_Inr_iff known_def del: constraints.simps)

lemma insert_contest_event_Inr:
  "insert_contest_event r db = Inr db' \<Longrightarrow>
     db' = db\<lparr>db_contest_events := db_contest_events db @ [r]\<rparr>"
  by (simp add: insert_contest_event_def ebind_Inr_iff del: constraints.simps)

lemma insert_audit_event_Inr:
  "insert_audit_event r db = Inr db' \<Longrightarrow> db' = db\<lparr>db_audit_events := db_audit_events db @ [r]\<rparr>"
  by (simp add: insert_audit_event_def ebind_Inr_iff del: constraints.simps)

text \<open>Checks and references of a participation row, on insertion and on update.\<close>

definition participation_checks :: "participation_row \<Rightarrow> database \<Rightarrow> (pg_error \<times> bool) list" where
  "participation_checks r db = [
      (CheckViolation ''participations_review_state'',
        pa_status r \<in> {Accepted, Rejected} \<longrightarrow> pa_reviewed_at r \<noteq> None \<and> pa_reviewed_by r \<noteq> None),
      (CheckViolation ''participations_withdrawn_state'',
        pa_status r = Withdrawn \<longleftrightarrow> pa_withdrawn_at r \<noteq> None),
      (CheckViolation ''participations_invite_digest_length'',
        (case pa_invite_digest_verified r of None \<Rightarrow> True | Some d \<Rightarrow> length d = 32)),
      (CheckViolation ''participations_version_positive'', 0 < pa_version r),
      (ForeignKeyViolation ''participations_contest_id'', known co_id (db_contests db) (pa_contest_id r)),
      (ForeignKeyViolation ''participations_team_id'', known te_id (db_teams db) (pa_team_id r)),
      (ForeignKeyViolation ''participations_registered_by'', known us_id (db_users db) (pa_registered_by r)),
      (ForeignKeyViolation ''participations_reviewed_by'',
        (case pa_reviewed_by r of None \<Rightarrow> True | Some u \<Rightarrow> known us_id (db_users db) u)),
      (ForeignKeyViolation ''participations_contest_division_fk'',
        (case pa_division_id r of None \<Rightarrow> True
         | Some d \<Rightarrow> known (\<lambda>d. (di_contest_id d, di_id d)) (db_divisions db) (pa_contest_id r, d)))]"

definition insert_participation :: "participation_row \<Rightarrow> database \<Rightarrow> pg_error + database" where
  "insert_participation r db = ebind (constraints ([
      (UniqueViolation ''participations_pkey'', \<not> known pa_id (db_participations db) (pa_id r)),
      (UniqueViolation ''participations_contest_team_unique'',
        \<not> known (\<lambda>p. (pa_contest_id p, pa_team_id p)) (db_participations db)
            (pa_contest_id r, pa_team_id r))] @ participation_checks r db))
    (\<lambda>_. Inr (db\<lparr>db_participations := db_participations db @ [r]\<rparr>))"

text \<open>\<open>UPDATE participations SET ... WHERE id = $1\<close>; the updates keep the key columns.\<close>

definition update_participation ::
  "uuid \<Rightarrow> (participation_row \<Rightarrow> participation_row) \<Rightarrow> database \<Rightarrow> pg_error + database" where
  "update_participation ident f db = ebind (constraints
      (concat (map (\<lambda>p. participation_checks (f p) db)
        (filter (\<lambda>p. pa_id p = ident) (db_participations db)))))
    (\<lambda>_. Inr (db\<lparr>db_participations :=
       map (\<lambda>p. if pa_id p = ident then f p else p) (db_participations db)\<rparr>))"

lemma insert_participation_Inr:
  "insert_participation r db = Inr db' \<Longrightarrow>
     pa_id r \<notin> pa_id ` set (db_participations db)
     \<and> (pa_contest_id r, pa_team_id r) \<notin> (\<lambda>p. (pa_contest_id p, pa_team_id p)) ` set (db_participations db)
     \<and> list_all snd (participation_checks r db)
     \<and> db' = db\<lparr>db_participations := db_participations db @ [r]\<rparr>"
  by (simp add: insert_participation_def ebind_Inr_iff known_def del: constraints.simps)

lemma update_participation_Inr:
  "update_participation ident f db = Inr db' \<Longrightarrow>
     (\<forall>p\<in>set (db_participations db). pa_id p = ident \<longrightarrow> list_all snd (participation_checks (f p) db))
     \<and> db' = db\<lparr>db_participations := map (\<lambda>p. if pa_id p = ident then f p else p) (db_participations db)\<rparr>"
  by (auto simp: update_participation_def ebind_Inr_iff list_all_iff simp del: constraints.simps)

end
