(* ===== verification/Submission_Repository.thy ===== *)
theory Submission_Repository
  imports Database
begin

text \<open>
  \<open>server/infrastructure/db/submission-repository.ts\<close> with the commands and records of
  \<open>server/domains/submissions/repository.ts\<close>: admission, the append-only submission log, solves and
  their order, the scoreboard version, cheat clues and score adjustments. A method that only reads
  is a function of the database; a method that writes returns the new database.
\<close>

section \<open>Commands, records and errors\<close>

record submission_admission_command =
  sac_userId :: uuid
  sac_contestId :: uuid
  sac_challengeId :: uuid
  sac_at :: millis

record submission_admission =
  adm_contestId :: uuid
  adm_challengeId :: uuid
  adm_participationId :: uuid
  adm_teamId :: uuid
  adm_teamName :: string
  adm_flagFormat :: "string option"
  adm_flagPolicy :: flag_policy
  adm_scoringPolicy :: scoring_policy
  adm_mode :: submission_mode

datatype verified_result = VerifiedCorrect | VerifiedIncorrect

record append_submission_command = submission_admission_command +
  asc_requestId :: string
  asc_result :: verified_result
  asc_answerDigest :: bytes
  asc_answerCiphertext :: bytes

record stored_submission =
  ss_id :: uuid
  ss_contestId :: uuid
  ss_challengeId :: uuid
  ss_participationId :: uuid
  ss_userId :: uuid
  ss_mode :: submission_mode
  ss_result :: submission_result
  ss_submittedAt :: millis

record score_adjustment_command =
  rsa_actorId :: uuid
  rsa_contestId :: uuid
  rsa_participationId :: uuid
  rsa_pointsDelta :: int
  rsa_reason :: string
  rsa_requestId :: string
  rsa_at :: millis

record score_adjustment_record =
  sar_id :: uuid
  sar_contestId :: uuid
  sar_participationId :: uuid
  sar_pointsDelta :: int
  sar_reason :: string
  sar_createdBy :: uuid
  sar_requestId :: string
  sar_createdAt :: millis

record cheat_clue_record =
  ccr_id :: uuid
  ccr_contestId :: uuid
  ccr_challengeId :: "uuid option"
  ccr_participationId :: "uuid option"
  ccr_clueType :: clue_type
  ccr_evidence :: clue_evidence
  ccr_status :: cheat_clue_status
  ccr_reviewedBy :: "uuid option"
  ccr_reviewNote :: "string option"
  ccr_reviewedAt :: "millis option"
  ccr_createdAt :: millis
  ccr_updatedAt :: millis

record review_cheat_clue_command =
  rcc_actorId :: uuid
  rcc_contestId :: uuid
  rcc_clueId :: uuid
  rcc_status :: cheat_clue_status
  rcc_note :: "string option"
  rcc_requestId :: string
  rcc_at :: millis

datatype submission_error =
    SubmissionTeamRequired
  | SubmissionParticipationNotAccepted
  | SubmissionContestNotRunning
  | SubmissionChallengeUnavailable
  | SubmissionChallengeClosed
  | SubmissionLimitReached
  | SubmissionRequestConflict
  | SubmissionCursorInvalid
  | SubmissionContestNotFound
  | SubmissionParticipationNotFound
  | ScoreAdjustmentArchivedContest
  | ScoreAdjustmentRequestConflict
  | CheatClueNotFound
  | CheatClueCursorInvalid
  | CheatClueReviewConflict
  | CheatClueRequestConflict
  | PolicyParseError                  \<comment> \<open>the \<open>ZodError\<close> of a stored policy\<close>
  | ScoringFailure scoring_error
  | VersionOutOfRange
  | EmptyPageCursor                   \<comment> \<open>the \<open>TypeError\<close> of \<open>rows.at(-1)!\<close> on no rows\<close>
  | SubmissionDatabaseError pg_error

section \<open>Admission\<close>

definition getTime_ge :: "millis \<Rightarrow> millis option \<Rightarrow> bool" where
  "getTime_ge now_at bound = (case bound of None \<Rightarrow> True | Some b \<Rightarrow> b \<le> now_at)"

definition submission_mode_at :: "contest_row \<Rightarrow> millis \<Rightarrow> submission_error + submission_mode" where
  "submission_mode_at contest now_at =
     (if now_at < co_end_at contest then Inr Official
      else if co_practice_enabled contest then Inr Practice
      else Inl SubmissionContestNotRunning)"

definition submission_count :: "database \<Rightarrow> uuid \<Rightarrow> uuid \<Rightarrow> submission_mode \<Rightarrow> int" where
  "submission_count db participationId challengeId mode =
     int (length (filter (\<lambda>s. su_participation_id s = participationId
        \<and> su_challenge_id s = challengeId \<and> su_mode s = mode) (db_submissions db)))"

text \<open>The membership row of a user joined with its team.\<close>

definition team_of_user :: "database \<Rightarrow> uuid \<Rightarrow> team_row option" where
  "team_of_user db userId =
     (case find (\<lambda>m. tm_user_id m = userId \<and> known te_id (db_teams db) (tm_team_id m))
        (db_team_members db) of
        None \<Rightarrow> None
      | Some m \<Rightarrow> find (\<lambda>t. te_id t = tm_team_id m) (db_teams db))"

definition admitWith ::
  "database \<Rightarrow> 'a submission_admission_command_scheme \<Rightarrow> submission_error + submission_admission" where
  "admitWith db command =
     (case find (\<lambda>c. co_id c = sac_contestId command) (db_contests db) of
        None \<Rightarrow> Inl SubmissionContestNotRunning
      | Some contest \<Rightarrow>
      if co_publication_status contest \<noteq> Published \<or> sac_at command < co_start_at contest
      then Inl SubmissionContestNotRunning
      else ebind (submission_mode_at contest (sac_at command)) (\<lambda>mode.
      case team_of_user db (sac_userId command) of
        None \<Rightarrow> Inl SubmissionTeamRequired
      | Some team \<Rightarrow>
      (case find (\<lambda>p. pa_contest_id p = sac_contestId command \<and> pa_team_id p = te_id team)
          (db_participations db) of
        None \<Rightarrow> Inl SubmissionParticipationNotAccepted
      | Some participation \<Rightarrow>
      if pa_status participation \<noteq> Accepted then Inl SubmissionParticipationNotAccepted
      else (case find (\<lambda>c. ch_contest_id c = sac_contestId command \<and> ch_id c = sac_challengeId command)
          (db_contest_challenges db) of
        None \<Rightarrow> Inl SubmissionChallengeUnavailable
      | Some challenge \<Rightarrow>
      if \<not> ch_enabled challenge \<or> \<not> getTime_ge (sac_at command) (ch_publish_at challenge)
      then Inl SubmissionChallengeUnavailable
      else if mode = Official \<and> ch_close_at challenge \<noteq> None
              \<and> getTime_ge (sac_at command) (ch_close_at challenge)
      then Inl SubmissionChallengeClosed
      else if (case ch_submission_limit challenge of None \<Rightarrow> False
          | Some limit \<Rightarrow> limit \<le> submission_count db (pa_id participation) (ch_id challenge) mode)
      then Inl SubmissionLimitReached
      else (case challengeFlagPolicySchema (ch_flag_policy challenge) of
        None \<Rightarrow> Inl PolicyParseError
      | Some flagPolicy \<Rightarrow>
      (case challengeScoringPolicySchema (ch_scoring_policy challenge) of
        None \<Rightarrow> Inl PolicyParseError
      | Some scoringPolicy \<Rightarrow>
          Inr \<lparr>adm_contestId = sac_contestId command, adm_challengeId = ch_id challenge,
               adm_participationId = pa_id participation, adm_teamId = te_id team,
               adm_teamName = te_name team, adm_flagFormat = ch_flag_format challenge,
               adm_flagPolicy = flagPolicy, adm_scoringPolicy = scoringPolicy,
               adm_mode = mode\<rparr>))))))"

definition admit :: "database \<Rightarrow> submission_admission_command \<Rightarrow> submission_error + submission_admission" where
  "admit db command = admitWith db command"

section \<open>Records and repeated requests\<close>

definition submissionRecord :: "submission_row \<Rightarrow> stored_submission" where
  "submissionRecord row = \<lparr>ss_id = su_id row, ss_contestId = su_contest_id row,
     ss_challengeId = su_challenge_id row, ss_participationId = su_participation_id row,
     ss_userId = su_user_id row, ss_mode = su_mode row, ss_result = su_result row,
     ss_submittedAt = su_submitted_at row\<rparr>"

fun result_of :: "verified_result \<Rightarrow> submission_result" where
  "result_of VerifiedCorrect = Correct"
| "result_of VerifiedIncorrect = Incorrect"

definition sameRequest :: "submission_row \<Rightarrow> append_submission_command \<Rightarrow> bool" where
  "sameRequest existing command \<longleftrightarrow>
     su_contest_id existing = sac_contestId command
     \<and> su_challenge_id existing = sac_challengeId command
     \<and> su_user_id existing = sac_userId command
     \<and> (su_result existing = result_of (asc_result command)
        \<or> (asc_result command = VerifiedCorrect \<and> su_result existing = AlreadySolved))
     \<and> length (su_answer_digest existing) = length (asc_answerDigest command)
     \<and> su_answer_digest existing = asc_answerDigest command"

definition readByRequestId :: "database \<Rightarrow> string \<Rightarrow> submission_row option" where
  "readByRequestId db requestId = find (\<lambda>s. su_request_id s = requestId) (db_submissions db)"

definition hasSolve :: "database \<Rightarrow> uuid \<Rightarrow> uuid \<Rightarrow> submission_mode \<Rightarrow> bool" where
  "hasSolve db participationId challengeId mode \<longleftrightarrow>
     (\<exists>s\<in>set (db_solves db). so_participation_id s = participationId
        \<and> so_challenge_id s = challengeId \<and> so_mode s = mode)"

definition pg :: "pg_error + 'a \<Rightarrow> submission_error + 'a" where
  "pg x = map_error SubmissionDatabaseError x"

section \<open>Solves and the scoreboard version\<close>

definition advanceScoreboardVersion ::
  "uuid \<Rightarrow> millis \<Rightarrow> database \<Rightarrow> submission_error + (int \<times> database)" where
  "advanceScoreboardVersion contestId now_at db =
     (let (version, rows) =
        (case find (\<lambda>v. bv_contest_id v = contestId) (db_scoreboard_versions db) of
           None \<Rightarrow> (1, db_scoreboard_versions db @
             [\<lparr>bv_contest_id = contestId, bv_version = 1, bv_updated_at = now_at\<rparr>])
         | Some row \<Rightarrow> (bv_version row + 1,
             map (\<lambda>v. if bv_contest_id v = contestId
                then v\<lparr>bv_version := bv_version v + 1, bv_updated_at := now_at\<rparr> else v)
               (db_scoreboard_versions db)))
      in if \<not> safe_integer version \<or> version \<le> 0 then Inl VersionOutOfRange
         else Inr (version, db\<lparr>db_scoreboard_versions := rows\<rparr>))"

definition next_solve_order :: "database \<Rightarrow> uuid \<Rightarrow> submission_mode \<Rightarrow> int" where
  "next_solve_order db challengeId mode =
     int (length (filter (\<lambda>s. so_challenge_id s = challengeId \<and> so_mode s = mode) (db_solves db))) + 1"

definition createSolve ::
  "js_math \<Rightarrow> tx_env \<Rightarrow> submission_row \<Rightarrow> uuid \<Rightarrow> string \<Rightarrow> scoring_policy \<Rightarrow> submission_mode
    \<Rightarrow> database \<Rightarrow> submission_error + database" where
  "createSolve m env submission teamId teamName scoringPolicy mode db =
     (let solveOrder = next_solve_order db (su_challenge_id submission) mode in
      ebind (if mode = Official
             then map_error ScoringFailure (calculateChallengeScore m scoringPolicy solveOrder)
             else Inr 0) (\<lambda>awardedScore.
      ebind (pg (insert_solve \<lparr>so_id = env_uuid env 1, so_submission_id = su_id submission,
          so_contest_id = su_contest_id submission, so_challenge_id = su_challenge_id submission,
          so_participation_id = su_participation_id submission, so_mode = mode,
          so_awarded_score = awardedScore, so_solve_order = solveOrder,
          so_solved_at = su_submitted_at submission\<rparr> db)) (\<lambda>db1.
      if mode = Practice then Inr db1
      else ebind (advanceScoreboardVersion (su_contest_id submission) (su_submitted_at submission) db1)
        (\<lambda>(_, db2).
      if solveOrder \<noteq> 1 then Inr db2
      else pg (insert_contest_event \<lparr>ce_id = env_uuid env 2, ce_contest_id = su_contest_id submission,
          ce_event_type = ''first_solve'',
          ce_event_key = (''challenge'', su_challenge_id submission, ''first-solve''),
          ce_occurred_at = su_submitted_at submission, ce_visible_at = su_submitted_at submission,
          ce_payload = [(''challenge_id'', JStr (su_challenge_id submission)),
            (''team_id'', JStr teamId), (''team_name'', JStr teamName)]\<rparr> db2)))))"

section \<open>Cheat clues\<close>

definition insertCheatClue ::
  "tx_env \<Rightarrow> nat \<Rightarrow> clue_key \<Rightarrow> submission_row \<Rightarrow> clue_type \<Rightarrow> clue_evidence \<Rightarrow> database
    \<Rightarrow> submission_error + database" where
  "insertCheatClue env k key submission ctype evidence db =
     (if known cc_clue_key (db_cheat_clues db) key then Inr db
      else ebind (pg (constraints [
          (UniqueViolation ''cheat_clues_pkey'', \<not> known cc_id (db_cheat_clues db) (env_uuid env k)),
          (ForeignKeyViolation ''cheat_clues_contest_id'',
            known co_id (db_contests db) (su_contest_id submission)),
          (ForeignKeyViolation ''cheat_clues_contest_challenge_id'',
            known ch_id (db_contest_challenges db) (su_challenge_id submission)),
          (ForeignKeyViolation ''cheat_clues_participation_id'',
            known pa_id (db_participations db) (su_participation_id submission))]))
        (\<lambda>_. Inr (db\<lparr>db_cheat_clues := db_cheat_clues db @
          [\<lparr>cc_id = env_uuid env k, cc_clue_key = key, cc_contest_id = su_contest_id submission,
            cc_challenge_id = Some (su_challenge_id submission),
            cc_participation_id = Some (su_participation_id submission), cc_clue_type = ctype,
            cc_evidence = evidence, cc_status = Open, cc_reviewed_by = None, cc_review_note = None,
            cc_reviewed_at = None, cc_created_at = su_submitted_at submission,
            cc_updated_at = su_submitted_at submission\<rparr>]\<rparr>)))"

definition blank_evidence :: "clue_type \<Rightarrow> uuid \<Rightarrow> uuid \<Rightarrow> clue_evidence" where
  "blank_evidence kind participationId challengeId = \<lparr>ev_kind = kind, ev_answer_fingerprint = None,
     ev_trigger_submission_id = None, ev_subject_submission_id = None,
     ev_incorrect_submission_id = None, ev_owner_submission_id = None,
     ev_participation_id = participationId, ev_owner_participation_id = None,
     ev_related_participation_ids = [], ev_challenge_id = challengeId, ev_matching_count = None,
     ev_started_at = None, ev_ended_at = None, ev_observed_at = None\<rparr>"

definition detectRepeatedIncorrectAnswer ::
  "tx_env \<Rightarrow> submission_row \<Rightarrow> bytes \<Rightarrow> database \<Rightarrow> submission_error + database" where
  "detectRepeatedIncorrectAnswer env submission answerDigest db =
     (let times = map su_submitted_at (filter (\<lambda>s.
            su_participation_id s = su_participation_id submission
            \<and> su_challenge_id s = su_challenge_id submission \<and> su_mode s = Official
            \<and> su_result s = Incorrect \<and> su_answer_digest s = answerDigest) (db_submissions db))
      in if length times < 3 then Inr db
         else insertCheatClue env 3
           (RepeatKey (su_participation_id submission) (su_challenge_id submission) answerDigest)
           submission RepeatedIncorrectAnswer
           ((blank_evidence RepeatedIncorrectAnswer (su_participation_id submission)
              (su_challenge_id submission))
             \<lparr>ev_answer_fingerprint := Some answerDigest, ev_trigger_submission_id := Some (su_id submission),
              ev_matching_count := Some (int (length times)),
              ev_started_at := Some (Min (set times)), ev_ended_at := Some (Max (set times))\<rparr>) db)"

text \<open>\<open>SELECT DISTINCT ON (participation_id)\<close>: the first row of each participation in the given order.\<close>

fun distinct_on :: "('r \<Rightarrow> 'k) \<Rightarrow> 'r list \<Rightarrow> 'r list" where
  "distinct_on key [] = []"
| "distinct_on key (r # rs) = r # filter (\<lambda>s. key s \<noteq> key r) (distinct_on key rs)"

definition detectSharedIncorrectAnswer ::
  "tx_env \<Rightarrow> submission_row \<Rightarrow> bytes \<Rightarrow> database \<Rightarrow> submission_error + database" where
  "detectSharedIncorrectAnswer env submission answerDigest db =
     (let rows = distinct_on su_participation_id
            (sort_key (\<lambda>s. (su_participation_id s, su_submitted_at s, su_id s))
              (filter (\<lambda>s. su_challenge_id s = su_challenge_id submission \<and> su_mode s = Official
                 \<and> su_result s = Incorrect \<and> su_answer_digest s = answerDigest) (db_submissions db)))
      in if length rows < 2 then Inr db
         else let related = sort (map su_participation_id rows) in
         efold (\<lambda>(i, subject) db'. insertCheatClue env (5 + 2 * i)
             (SharedKey (su_challenge_id submission) answerDigest (su_participation_id subject))
             (submission\<lparr>su_id := su_id subject, su_participation_id := su_participation_id subject,
                su_submitted_at := su_submitted_at subject\<rparr>)
             SharedIncorrectAnswer
             ((blank_evidence SharedIncorrectAnswer (su_participation_id subject)
                (su_challenge_id submission))
               \<lparr>ev_answer_fingerprint := Some answerDigest,
                ev_trigger_submission_id := Some (su_id submission),
                ev_subject_submission_id := Some (su_id subject),
                ev_related_participation_ids := related,
                ev_matching_count := Some (int (length related)),
                ev_observed_at := Some (su_submitted_at submission)\<rparr>) db')
           (zip [0..<length rows] rows) db)"

definition detectAbnormalFrequency ::
  "tx_env \<Rightarrow> submission_row \<Rightarrow> database \<Rightarrow> submission_error + database" where
  "detectAbnormalFrequency env submission db =
     (let times = map su_submitted_at (filter (\<lambda>s.
            su_participation_id s = su_participation_id submission
            \<and> su_challenge_id s = su_challenge_id submission \<and> su_mode s = Official
            \<and> su_submitted_at s > su_submitted_at submission - 60000
            \<and> su_submitted_at s \<le> su_submitted_at submission) (db_submissions db))
      in if length times < 10 then Inr db
         else insertCheatClue env 4
           (FrequencyKey (su_participation_id submission) (su_challenge_id submission)
              (su_submitted_at submission div 60000))
           submission AbnormalSubmissionFrequency
           ((blank_evidence AbnormalSubmissionFrequency (su_participation_id submission)
              (su_challenge_id submission))
             \<lparr>ev_trigger_submission_id := Some (su_id submission),
              ev_matching_count := Some (int (length times)),
              ev_started_at := Some (Min (set times)), ev_ended_at := Some (Max (set times))\<rparr>) db)"

definition insertForeignTeamFlagClue ::
  "tx_env \<Rightarrow> nat \<Rightarrow> submission_row \<Rightarrow> submission_row \<Rightarrow> bytes \<Rightarrow> submission_row \<Rightarrow> database
    \<Rightarrow> submission_error + database" where
  "insertForeignTeamFlagClue env k offender owner fingerprint submission db =
     insertCheatClue env k (ForeignKey (su_id offender) (su_participation_id owner))
       (submission\<lparr>su_id := su_id offender, su_participation_id := su_participation_id offender,
          su_submitted_at := su_submitted_at offender\<rparr>)
       ForeignTeamFlag
       ((blank_evidence ForeignTeamFlag (su_participation_id offender) (su_challenge_id submission))
         \<lparr>ev_answer_fingerprint := Some fingerprint,
          ev_incorrect_submission_id := Some (su_id offender),
          ev_owner_submission_id := Some (su_id owner),
          ev_owner_participation_id := Some (su_participation_id owner),
          ev_observed_at := Some (su_submitted_at submission)\<rparr>) db"

definition foreign_rows :: "submission_row \<Rightarrow> bytes \<Rightarrow> (submission_result \<Rightarrow> bool) \<Rightarrow> database \<Rightarrow> submission_row list" where
  "foreign_rows submission answerDigest ok db = filter (\<lambda>s.
     su_challenge_id s = su_challenge_id submission \<and> su_mode s = Official \<and> ok (su_result s)
     \<and> su_answer_digest s = answerDigest
     \<and> su_participation_id s \<noteq> su_participation_id submission) (db_submissions db)"

definition detectForeignTeamFlag ::
  "tx_env \<Rightarrow> submission_row \<Rightarrow> bytes \<Rightarrow> database \<Rightarrow> submission_error + database" where
  "detectForeignTeamFlag env submission answerDigest db =
     (if su_result submission = Incorrect
      then let owners = distinct_on su_participation_id
             (sort_key (\<lambda>s. (su_participation_id s, if su_result s = Correct then 0 else (1::nat),
                 su_submitted_at s, su_id s))
               (foreign_rows submission answerDigest (\<lambda>r. r = Correct \<or> r = AlreadySolved) db))
           in efold (\<lambda>(i, owner). insertForeignTeamFlagClue env (6 + 2 * i) submission owner
                answerDigest submission) (zip [0..<length owners] owners) db
      else let offenders = sort_key (\<lambda>s. (su_submitted_at s, su_id s))
             (foreign_rows submission answerDigest (\<lambda>r. r = Incorrect) db)
           in efold (\<lambda>(i, offender). insertForeignTeamFlagClue env (6 + 2 * i) offender submission
                answerDigest submission) (zip [0..<length offenders] offenders) db)"

definition detectCheatClues ::
  "tx_env \<Rightarrow> submission_row \<Rightarrow> bytes \<Rightarrow> bool \<Rightarrow> database \<Rightarrow> submission_error + database" where
  "detectCheatClues env submission answerDigest teamDerivedFlag db =
     ebind (if su_result submission = Incorrect
            then ebind (detectRepeatedIncorrectAnswer env submission answerDigest db)
                   (detectSharedIncorrectAnswer env submission answerDigest)
            else Inr db) (\<lambda>db1.
     ebind (detectAbnormalFrequency env submission db1) (\<lambda>db2.
     if teamDerivedFlag then detectForeignTeamFlag env submission answerDigest db2 else Inr db2))"

section \<open>Appending a submission\<close>

definition is_team_derived :: "flag_policy \<Rightarrow> bool" where
  "is_team_derived p = (case p of TeamDerivedFlag _ \<Rightarrow> True | _ \<Rightarrow> False)"

definition submission_of ::
  "tx_env \<Rightarrow> submission_admission \<Rightarrow> append_submission_command \<Rightarrow> submission_result \<Rightarrow> submission_row" where
  "submission_of env admission command result =
     \<lparr>su_id = env_uuid env 0, su_contest_id = adm_contestId admission,
      su_challenge_id = adm_challengeId admission,
      su_participation_id = adm_participationId admission, su_user_id = sac_userId command,
      su_mode = adm_mode admission, su_result = result,
      su_answer_digest = asc_answerDigest command,
      su_answer_ciphertext = asc_answerCiphertext command,
      su_request_id = asc_requestId command, su_submitted_at = sac_at command\<rparr>"

text \<open>The transaction of \<open>append\<close>.\<close>

definition append_tx ::
  "js_math \<Rightarrow> tx_env \<Rightarrow> append_submission_command \<Rightarrow> database
    \<Rightarrow> submission_error + (stored_submission \<times> database)" where
  "append_tx m env command db =
     (case readByRequestId db (asc_requestId command) of
        Some existing \<Rightarrow>
          if \<not> sameRequest existing command then Inl SubmissionRequestConflict
          else Inr (submissionRecord existing, db)
      | None \<Rightarrow>
          ebind (admitWith db command) (\<lambda>admission.
          let alreadySolved = (asc_result command = VerifiedCorrect
                \<and> hasSolve db (adm_participationId admission) (adm_challengeId admission)
                    (adm_mode admission));
              result = (if alreadySolved then AlreadySolved else result_of (asc_result command));
              inserted = submission_of env admission command result
          in ebind (pg (insert_submission inserted db)) (\<lambda>db1.
             ebind (if result = Correct
                    then createSolve m env inserted (adm_teamId admission) (adm_teamName admission)
                           (adm_scoringPolicy admission) (adm_mode admission) db1
                    else Inr db1) (\<lambda>db2.
             ebind (if adm_mode admission = Official
                    then detectCheatClues env inserted (asc_answerDigest command)
                           (is_team_derived (adm_flagPolicy admission)) db2
                    else Inr db2) (\<lambda>db3.
             Inr (submissionRecord inserted, db3))))))"

definition append_submission ::
  "js_math \<Rightarrow> tx_env \<Rightarrow> append_submission_command \<Rightarrow> database
    \<Rightarrow> submission_error + (stored_submission \<times> database)" where
  "append_submission m env command db =
     (case append_tx m env command db of
        Inl e \<Rightarrow>
          if e = SubmissionDatabaseError (UniqueViolation ''submissions_request_id_unique'')
          then (case readByRequestId db (asc_requestId command) of
                  Some existing \<Rightarrow> if sameRequest existing command then Inr (submissionRecord existing, db)
                                    else Inl SubmissionRequestConflict
                | None \<Rightarrow> Inl SubmissionRequestConflict)
          else Inl e
      | Inr result \<Rightarrow> Inr result)"

section \<open>Pages\<close>

definition submission_page ::
  "nat \<Rightarrow> ('r \<Rightarrow> uuid) \<Rightarrow> ('r \<Rightarrow> 'item) \<Rightarrow> 'r list \<Rightarrow> submission_error + 'item page" where
  "submission_page limit ident record fetched =
     (case page_of limit ident record fetched of None \<Rightarrow> Inl EmptyPageCursor | Some p \<Rightarrow> Inr p)"

definition before_anchor :: "'r option \<Rightarrow> ('r \<Rightarrow> millis \<times> uuid) \<Rightarrow> 'r \<Rightarrow> bool" where
  "before_anchor anchor key r = (case anchor of None \<Rightarrow> True | Some a \<Rightarrow> key r < key a)"

definition submission_order :: "submission_row \<Rightarrow> millis \<times> uuid" where
  "submission_order s = (su_submitted_at s, su_id s)"

definition listManaged ::
  "database \<Rightarrow> uuid \<Rightarrow> string option \<Rightarrow> nat \<Rightarrow> submission_error + stored_submission page" where
  "listManaged db contestId cursor limit =
     (if \<not> known co_id (db_contests db) contestId then Inl SubmissionContestNotFound
      else let anchor = (if given cursor
             then find (\<lambda>s. su_contest_id s = contestId \<and> Some (su_id s) = cursor) (db_submissions db)
             else None)
      in if given cursor \<and> anchor = None then Inl SubmissionCursorInvalid
         else submission_page limit su_id submissionRecord
           (take (limit + 1) (rev (sort_key submission_order
             (filter (\<lambda>s. su_contest_id s = contestId \<and> before_anchor anchor submission_order s)
               (db_submissions db))))))"

definition cheatClueRecord :: "cheat_clue_row \<Rightarrow> cheat_clue_record" where
  "cheatClueRecord row = \<lparr>ccr_id = cc_id row, ccr_contestId = cc_contest_id row,
     ccr_challengeId = cc_challenge_id row, ccr_participationId = cc_participation_id row,
     ccr_clueType = cc_clue_type row, ccr_evidence = cc_evidence row, ccr_status = cc_status row,
     ccr_reviewedBy = cc_reviewed_by row, ccr_reviewNote = cc_review_note row,
     ccr_reviewedAt = cc_reviewed_at row, ccr_createdAt = cc_created_at row,
     ccr_updatedAt = cc_updated_at row\<rparr>"

definition clue_order :: "cheat_clue_row \<Rightarrow> millis \<times> uuid" where
  "clue_order c = (cc_created_at c, cc_id c)"

definition has_status :: "cheat_clue_status option \<Rightarrow> cheat_clue_row \<Rightarrow> bool" where
  "has_status status c \<longleftrightarrow> status = None \<or> status = Some (cc_status c)"

definition listCheatClues ::
  "database \<Rightarrow> uuid \<Rightarrow> cheat_clue_status option \<Rightarrow> string option \<Rightarrow> nat
    \<Rightarrow> submission_error + cheat_clue_record page" where
  "listCheatClues db contestId status cursor limit =
     (if \<not> known co_id (db_contests db) contestId then Inl SubmissionContestNotFound
      else let anchor = (if given cursor
             then find (\<lambda>c. cc_contest_id c = contestId \<and> Some (cc_id c) = cursor \<and> has_status status c)
                    (db_cheat_clues db)
             else None)
      in if given cursor \<and> anchor = None then Inl CheatClueCursorInvalid
         else submission_page limit cc_id cheatClueRecord
           (take (limit + 1) (rev (sort_key clue_order
             (filter (\<lambda>c. cc_contest_id c = contestId \<and> has_status status c
                 \<and> before_anchor anchor clue_order c) (db_cheat_clues db))))))"

section \<open>Score adjustments\<close>

definition scoreAdjustmentRecord :: "score_adjustment_row \<Rightarrow> score_adjustment_record" where
  "scoreAdjustmentRecord row = \<lparr>sar_id = sa_id row, sar_contestId = sa_contest_id row,
     sar_participationId = sa_participation_id row, sar_pointsDelta = sa_points_delta row,
     sar_reason = sa_reason row, sar_createdBy = sa_created_by row, sar_requestId = sa_request_id row,
     sar_createdAt = sa_created_at row\<rparr>"

definition sameScoreAdjustment :: "score_adjustment_row \<Rightarrow> score_adjustment_command \<Rightarrow> bool" where
  "sameScoreAdjustment existing command \<longleftrightarrow>
     sa_contest_id existing = rsa_contestId command
     \<and> sa_participation_id existing = rsa_participationId command
     \<and> sa_points_delta existing = rsa_pointsDelta command
     \<and> sa_reason existing = rsa_reason command
     \<and> sa_created_by existing = rsa_actorId command"

definition readScoreAdjustmentByRequestId :: "database \<Rightarrow> string \<Rightarrow> score_adjustment_row option" where
  "readScoreAdjustmentByRequestId db requestId =
     find (\<lambda>a. sa_request_id a = requestId) (db_score_adjustments db)"

definition adjustment_of :: "tx_env \<Rightarrow> score_adjustment_command \<Rightarrow> score_adjustment_row" where
  "adjustment_of env command = \<lparr>sa_id = env_uuid env 0, sa_contest_id = rsa_contestId command,
     sa_participation_id = rsa_participationId command, sa_points_delta = rsa_pointsDelta command,
     sa_reason = rsa_reason command, sa_created_by = rsa_actorId command,
     sa_request_id = rsa_requestId command, sa_created_at = rsa_at command\<rparr>"

definition recordScoreAdjustment_tx ::
  "tx_env \<Rightarrow> score_adjustment_command \<Rightarrow> database
    \<Rightarrow> submission_error + (score_adjustment_record \<times> database)" where
  "recordScoreAdjustment_tx env command db =
     (case readScoreAdjustmentByRequestId db (rsa_requestId command) of
        Some existing \<Rightarrow>
          if \<not> sameScoreAdjustment existing command then Inl ScoreAdjustmentRequestConflict
          else Inr (scoreAdjustmentRecord existing, db)
      | None \<Rightarrow>
      (case find (\<lambda>c. co_id c = rsa_contestId command) (db_contests db) of
        None \<Rightarrow> Inl SubmissionContestNotFound
      | Some contest \<Rightarrow>
      if co_publication_status contest = Archived then Inl ScoreAdjustmentArchivedContest
      else if find (\<lambda>p. pa_id p = rsa_participationId command \<and> pa_contest_id p = rsa_contestId command)
              (db_participations db) = None
      then Inl SubmissionParticipationNotFound
      else let adjustment = adjustment_of env command in
        ebind (pg (insert_score_adjustment adjustment db)) (\<lambda>db1.
        ebind (advanceScoreboardVersion (rsa_contestId command) (rsa_at command) db1)
          (\<lambda>(scoreboardVersion, db2).
        ebind (pg (insert_audit_event \<lparr>au_id = env_uuid env 1,
            au_actor_user_id = Some (rsa_actorId command), au_action = ''score.adjustment.recorded'',
            au_target_type = ''score_adjustment'', au_target_id = Some (sa_id adjustment),
            au_reason = Some (rsa_reason command), au_request_id = rsa_requestId command,
            au_changes = [(''contest_id'', JStr (rsa_contestId command)),
              (''participation_id'', JStr (rsa_participationId command)),
              (''points_delta'', JNum (rsa_pointsDelta command))],
            au_metadata = [(''scoreboard_version'', JNum scoreboardVersion)],
            au_occurred_at = rsa_at command\<rparr> db2)) (\<lambda>db3.
        Inr (scoreAdjustmentRecord adjustment, db3))))))"

definition recordScoreAdjustment ::
  "tx_env \<Rightarrow> score_adjustment_command \<Rightarrow> database
    \<Rightarrow> submission_error + (score_adjustment_record \<times> database)" where
  "recordScoreAdjustment env command db =
     (case recordScoreAdjustment_tx env command db of
        Inl e \<Rightarrow>
          if e = SubmissionDatabaseError (UniqueViolation ''score_adjustments_request_id_unique'')
          then (case readScoreAdjustmentByRequestId db (rsa_requestId command) of
                  Some existing \<Rightarrow> if sameScoreAdjustment existing command
                                    then Inr (scoreAdjustmentRecord existing, db)
                                    else Inl ScoreAdjustmentRequestConflict
                | None \<Rightarrow> Inl ScoreAdjustmentRequestConflict)
          else Inl e
      | Inr result \<Rightarrow> Inr result)"

section \<open>Reviewing a cheat clue\<close>

definition canReviewCheatClue :: "cheat_clue_status \<Rightarrow> cheat_clue_status \<Rightarrow> bool" where
  "canReviewCheatClue current next =
     (if current = Open then next \<in> {Reviewing, Dismissed, Confirmed}
      else current = Reviewing \<and> next \<in> {Dismissed, Confirmed})"

text \<open>A field of a JSON object; \<open>None\<close> is \<open>undefined\<close>.\<close>

definition field :: "(string \<times> json) list \<Rightarrow> string \<Rightarrow> json option" where
  "field obj k = map_of obj k"

fun nullable :: "string option \<Rightarrow> json" where
  "nullable None = JNull"
| "nullable (Some s) = JStr s"

fun status_text :: "cheat_clue_status \<Rightarrow> string" where
  "status_text Open = ''open''"
| "status_text Reviewing = ''reviewing''"
| "status_text Dismissed = ''dismissed''"
| "status_text Confirmed = ''confirmed''"

definition sameCheatClueReview :: "audit_event_row \<Rightarrow> review_cheat_clue_command \<Rightarrow> bool" where
  "sameCheatClueReview audit command \<longleftrightarrow>
     au_actor_user_id audit = Some (rcc_actorId command)
     \<and> au_target_id audit = Some (rcc_clueId command)
     \<and> field (au_changes audit) ''contest_id'' = Some (JStr (rcc_contestId command))
     \<and> field (au_changes audit) ''to_status'' = Some (JStr (status_text (rcc_status command)))
     \<and> (case field (au_changes audit) ''review_note'' of None \<Rightarrow> JNull | Some v \<Rightarrow> v)
          = nullable (rcc_note command)"

definition readCheatClue :: "database \<Rightarrow> uuid \<Rightarrow> uuid \<Rightarrow> cheat_clue_row option" where
  "readCheatClue db contestId clueId =
     find (\<lambda>c. cc_contest_id c = contestId \<and> cc_id c = clueId) (db_cheat_clues db)"

definition readCheatClueReviewByRequestId :: "database \<Rightarrow> string \<Rightarrow> audit_event_row option" where
  "readCheatClueReviewByRequestId db requestId =
     (case sort_key (\<lambda>a. (au_occurred_at a, au_id a))
        (filter (\<lambda>a. au_request_id a = requestId \<and> au_action a = ''cheat_clue.reviewed''
           \<and> au_target_type a = ''cheat_clue'') (db_audit_events db)) of
        [] \<Rightarrow> None | a # _ \<Rightarrow> Some a)"

definition final_review :: "cheat_clue_status \<Rightarrow> bool" where
  "final_review s \<longleftrightarrow> s = Dismissed \<or> s = Confirmed"

definition reviewedCheatClueRecord ::
  "cheat_clue_row \<Rightarrow> audit_event_row \<Rightarrow> review_cheat_clue_command \<Rightarrow> cheat_clue_record" where
  "reviewedCheatClueRecord clue audit command =
     (let final = final_review (rcc_status command) in
      (cheatClueRecord clue)\<lparr>ccr_status := rcc_status command,
        ccr_reviewedBy := (if final then Some (rcc_actorId command) else None),
        ccr_reviewNote := rcc_note command,
        ccr_reviewedAt := (if final then Some (au_occurred_at audit) else None),
        ccr_updatedAt := au_occurred_at audit\<rparr>)"

definition review_update :: "review_cheat_clue_command \<Rightarrow> cheat_clue_row \<Rightarrow> cheat_clue_row" where
  "review_update command clue =
     (let final = final_review (rcc_status command) in
      clue\<lparr>cc_status := rcc_status command,
        cc_reviewed_by := (if final then Some (rcc_actorId command) else None),
        cc_review_note := rcc_note command,
        cc_reviewed_at := (if final then Some (rcc_at command) else None),
        cc_updated_at := rcc_at command\<rparr>)"

definition reviewCheatClue ::
  "tx_env \<Rightarrow> review_cheat_clue_command \<Rightarrow> database \<Rightarrow> submission_error + (cheat_clue_record \<times> database)" where
  "reviewCheatClue env command db =
     (case readCheatClueReviewByRequestId db (rcc_requestId command) of
        Some existingAudit \<Rightarrow>
          if \<not> sameCheatClueReview existingAudit command then Inl CheatClueRequestConflict
          else (case readCheatClue db (rcc_contestId command) (rcc_clueId command) of
              None \<Rightarrow> Inl CheatClueNotFound
            | Some clue \<Rightarrow> Inr (reviewedCheatClueRecord clue existingAudit command, db))
      | None \<Rightarrow>
          (case readCheatClue db (rcc_contestId command) (rcc_clueId command) of
              None \<Rightarrow> Inl CheatClueNotFound
            | Some clue \<Rightarrow>
          if \<not> canReviewCheatClue (cc_status clue) (rcc_status command) then Inl CheatClueReviewConflict
          else let db1 = db\<lparr>db_cheat_clues := map (\<lambda>c. if cc_id c = rcc_clueId command
                   then review_update command c else c) (db_cheat_clues db)\<rparr> in
            ebind (pg (insert_audit_event \<lparr>au_id = env_uuid env 0,
              au_actor_user_id = Some (rcc_actorId command), au_action = ''cheat_clue.reviewed'',
              au_target_type = ''cheat_clue'', au_target_id = Some (rcc_clueId command),
              au_reason = rcc_note command, au_request_id = rcc_requestId command,
              au_changes = [(''contest_id'', JStr (rcc_contestId command)),
                (''from_status'', JStr (status_text (cc_status clue))),
                (''to_status'', JStr (status_text (rcc_status command))),
                (''review_note'', nullable (rcc_note command))],
              au_metadata = [(''automatic_action'', JBool False)],
              au_occurred_at = rcc_at command\<rparr> db1)) (\<lambda>db2.
            Inr (cheatClueRecord (review_update command clue), db2))))"

end
