(* ===== verification/Scoring_Facts.thy ===== *)
theory Scoring_Facts
  imports Submission_Repository
begin

text \<open>
  \<open>server/infrastructure/db/scoring-replay-repository.ts\<close>: loading the facts of a contest in one
  read-only snapshot, optionally cut off before a time, and the replay service over it.
\<close>

datatype load_error = ScoringReplayContestNotFound | LoadPolicyParseError

datatype replay_service_error = ReplayLoadError load_error | ReplayError replay_error

definition before_cutoff :: "millis option \<Rightarrow> millis \<Rightarrow> bool" where
  "before_cutoff factsBefore t = (case factsBefore of None \<Rightarrow> True | Some b \<Rightarrow> t < b)"

definition mode_rank :: "submission_mode \<Rightarrow> nat" where
  "mode_rank mode = (case mode of Official \<Rightarrow> 0 | Practice \<Rightarrow> 1)"

definition load_challenge :: "contest_challenge_row \<Rightarrow> load_error + replay_challenge_fact" where
  "load_challenge row = (case challengeScoringPolicySchema (ch_scoring_policy row) of
      None \<Rightarrow> Inl LoadPolicyParseError
    | Some policy \<Rightarrow> Inr \<lparr>rc_id = ch_id row, rc_scoringPolicy = policy\<rparr>)"

definition load_participation :: "database \<Rightarrow> participation_row \<Rightarrow> replay_participation_fact list" where
  "load_participation db row =
     map (\<lambda>t. \<lparr>rp_id = pa_id row, rp_teamId = pa_team_id row, rp_teamName = te_name t,
              rp_divisionId = pa_division_id row, rp_status = pa_status row\<rparr>)
       (filter (\<lambda>t. te_id t = pa_team_id row) (db_teams db))"

definition load_submission :: "submission_row \<Rightarrow> replay_submission_fact" where
  "load_submission row = \<lparr>rs_id = su_id row, rs_challengeId = su_challenge_id row,
     rs_participationId = su_participation_id row, rs_mode = su_mode row, rs_result = su_result row,
     rs_submittedAt = Date (su_submitted_at row)\<rparr>"

definition load_solve :: "solve_row \<Rightarrow> replay_solve_fact" where
  "load_solve row = \<lparr>sv_id = so_id row, sv_submissionId = so_submission_id row,
     sv_challengeId = so_challenge_id row, sv_participationId = so_participation_id row,
     sv_mode = so_mode row, sv_solveOrder = so_solve_order row, sv_solvedAt = Date (so_solved_at row)\<rparr>"

definition load_adjustment :: "score_adjustment_row \<Rightarrow> replay_adjustment_fact" where
  "load_adjustment row = \<lparr>ra_id = sa_id row, ra_participationId = sa_participation_id row,
     ra_pointsDelta = sa_points_delta row, ra_createdAt = Date (sa_created_at row)\<rparr>"

definition contest_submissions :: "database \<Rightarrow> uuid \<Rightarrow> millis option \<Rightarrow> submission_row list" where
  "contest_submissions db contestId factsBefore =
     sort_key (\<lambda>s. (su_submitted_at s, su_id s))
       (filter (\<lambda>s. su_contest_id s = contestId \<and> before_cutoff factsBefore (su_submitted_at s))
         (db_submissions db))"

definition contest_solves :: "database \<Rightarrow> uuid \<Rightarrow> millis option \<Rightarrow> solve_row list" where
  "contest_solves db contestId factsBefore =
     sort_key (\<lambda>s. (mode_rank (so_mode s), so_challenge_id s, so_solve_order s, so_solved_at s, so_id s))
       (filter (\<lambda>s. so_contest_id s = contestId \<and> before_cutoff factsBefore (so_solved_at s))
         (db_solves db))"

definition contest_adjustments :: "database \<Rightarrow> uuid \<Rightarrow> millis option \<Rightarrow> score_adjustment_row list" where
  "contest_adjustments db contestId factsBefore =
     sort_key (\<lambda>a. (sa_created_at a, sa_id a))
       (filter (\<lambda>a. sa_contest_id a = contestId \<and> before_cutoff factsBefore (sa_created_at a))
         (db_score_adjustments db))"

definition load_facts :: "database \<Rightarrow> uuid \<Rightarrow> millis option \<Rightarrow> load_error + contest_scoring_facts" where
  "load_facts db contestId factsBefore =
     (if \<not> known co_id (db_contests db) contestId then Inl ScoringReplayContestNotFound
      else ebind (emap load_challenge
          (sort_key ch_id (filter (\<lambda>c. ch_contest_id c = contestId) (db_contest_challenges db))))
        (\<lambda>challenges. Inr
          \<lparr>f_challenges = challenges,
           f_participations = concat (map (load_participation db)
             (sort_key pa_id (filter (\<lambda>p. pa_contest_id p = contestId) (db_participations db)))),
           f_submissions = map load_submission (contest_submissions db contestId factsBefore),
           f_solves = map load_solve (contest_solves db contestId factsBefore),
           f_adjustments = map load_adjustment (contest_adjustments db contestId factsBefore)\<rparr>))"

text \<open>\<open>ContestScoringReplayService.replay\<close>.\<close>

fun cutoff_of :: "js_date option \<Rightarrow> millis option" where
  "cutoff_of (Some (Date t)) = Some t"
| "cutoff_of _ = None"

definition replay_contest ::
  "js_math \<Rightarrow> database \<Rightarrow> uuid \<Rightarrow> js_date option \<Rightarrow> replay_service_error + contest_scoring_replay" where
  "replay_contest m db contestId factsBefore =
     ebind (case factsBefore of None \<Rightarrow> Inr ()
       | Some d \<Rightarrow> map_error ReplayError (requireValidDate d ''Scoring replay cutoff'')) (\<lambda>_.
     ebind (map_error ReplayLoadError (load_facts db contestId (cutoff_of factsBefore))) (\<lambda>facts.
     map_error ReplayError (replayContestScoring m facts)))"

end
