(* ===== verification/Submission_Frames.thy ===== *)
theory Submission_Frames
  imports Submission_Repository
begin

text \<open>
  Which tables the steps of a submission touch: the detectors only add cheat clues, with fresh
  identifiers and keys; recording a solve only adds to the solves, the scoreboard versions and the
  contest's events.
\<close>

section \<open>Cheat clues\<close>

definition clues_inv :: "database \<Rightarrow> bool" where
  "clues_inv db \<longleftrightarrow> distinct (map cc_id (db_cheat_clues db)) \<and> distinct (map cc_clue_key (db_cheat_clues db))"

definition adds_clues :: "database \<Rightarrow> database \<Rightarrow> bool" where
  "adds_clues db db' \<longleftrightarrow> (\<exists>cs. db' = db\<lparr>db_cheat_clues := db_cheat_clues db @ cs\<rparr> \<and>
     (\<forall>c\<in>set cs. cc_status c = Open)) \<and> (clues_inv db \<longrightarrow> clues_inv db')"

lemma adds_clues_refl [simp]: "adds_clues db db"
  by (auto simp: adds_clues_def intro: exI [of _ "[]"])

lemma adds_clues_trans:
  assumes "adds_clues a b" and "adds_clues b c"
  shows "adds_clues a c"
proof -
  from assms(1) obtain cs where b: "b = a\<lparr>db_cheat_clues := db_cheat_clues a @ cs\<rparr>" "\<forall>c\<in>set cs. cc_status c = Open"
    unfolding adds_clues_def by blast
  from assms(2) obtain ds where c: "c = b\<lparr>db_cheat_clues := db_cheat_clues b @ ds\<rparr>" "\<forall>c\<in>set ds. cc_status c = Open"
    unfolding adds_clues_def by blast
  have "clues_inv a \<longrightarrow> clues_inv c" using assms unfolding adds_clues_def by blast
  moreover have "c = a\<lparr>db_cheat_clues := db_cheat_clues a @ (cs @ ds)\<rparr>" using b(1) c(1) by simp
  ultimately show ?thesis using b(2) c(2) unfolding adds_clues_def
    by (intro conjI exI [of _ "cs @ ds"]) auto
qed

lemma insertCheatClue_adds:
  assumes "insertCheatClue env k key s t e db = Inr db'"
  shows "adds_clues db db'"
proof (cases "known cc_clue_key (db_cheat_clues db) key")
  case True
  with assms show ?thesis by (simp add: insertCheatClue_def)
next
  case False
  with assms show ?thesis
    by (auto simp: insertCheatClue_def adds_clues_def clues_inv_def known_def pg_def ebind_Inr_iff
        simp del: constraints.simps)
qed

lemma efold_adds:
  assumes "efold f xs db = Inr db'" and "\<And>x db db'. f x db = Inr db' \<Longrightarrow> adds_clues db db'"
  shows "adds_clues db db'"
  using assms(1)
proof (induction xs arbitrary: db)
  case (Cons x xs)
  then obtain db1 where "f x db = Inr db1" "efold f xs db1 = Inr db'" by (auto split: sum.splits)
  with Cons.IH assms(2) show ?case by (blast intro: adds_clues_trans)
qed simp

lemma detect_adds:
  "detectRepeatedIncorrectAnswer env s d db = Inr db' \<Longrightarrow> adds_clues db db'"
  "detectSharedIncorrectAnswer env s d db = Inr db' \<Longrightarrow> adds_clues db db'"
  "detectAbnormalFrequency env s db = Inr db' \<Longrightarrow> adds_clues db db'"
  "detectForeignTeamFlag env s d db = Inr db' \<Longrightarrow> adds_clues db db'"
  by (auto simp: detectRepeatedIncorrectAnswer_def detectSharedIncorrectAnswer_def
      detectAbnormalFrequency_def detectForeignTeamFlag_def insertForeignTeamFlagClue_def Let_def
      split: if_splits elim!: efold_adds dest: insertCheatClue_adds)

lemma detectCheatClues_adds:
  assumes "detectCheatClues env s d t db = Inr db'"
  shows "adds_clues db db'"
proof -
  from assms obtain db1 db2 where
    1: "(if su_result s = Incorrect then ebind (detectRepeatedIncorrectAnswer env s d db)
      (detectSharedIncorrectAnswer env s d) else Inr db) = Inr db1"
    and 2: "detectAbnormalFrequency env s db1 = Inr db2"
    and 3: "(if t then detectForeignTeamFlag env s d db2 else Inr db2) = Inr db'"
    by (auto simp: detectCheatClues_def ebind_Inr_iff)
  have "adds_clues db db1"
    using 1 by (auto simp: ebind_Inr_iff split: if_splits dest!: detect_adds(1,2) intro: adds_clues_trans)
  moreover have "adds_clues db1 db2" using 2 by (rule detect_adds(3))
  moreover have "adds_clues db2 db'" using 3 by (auto split: if_splits dest: detect_adds(4))
  ultimately show ?thesis by (blast intro: adds_clues_trans)
qed

section \<open>Recording a solve\<close>

definition solve_of :: "tx_env \<Rightarrow> submission_row \<Rightarrow> submission_mode \<Rightarrow> int \<Rightarrow> database \<Rightarrow> solve_row" where
  "solve_of env u mode score db = \<lparr>so_id = env_uuid env 1, so_submission_id = su_id u,
     so_contest_id = su_contest_id u, so_challenge_id = su_challenge_id u,
     so_participation_id = su_participation_id u, so_mode = mode, so_awarded_score = score,
     so_solve_order = next_solve_order db (su_challenge_id u) mode, so_solved_at = su_submitted_at u\<rparr>"

lemma pg_Inr [simp]: "pg x = Inr y \<longleftrightarrow> x = Inr y"
  by (simp add: pg_def)

text \<open>The steps of \<open>createSolve\<close>.\<close>

lemma createSolve_steps:
  assumes "createSolve m env u tid tname pol mode db = Inr db'"
  obtains score db1 where "insert_solve (solve_of env u mode score db) db = Inr db1"
    and "mode = Practice \<Longrightarrow> score = 0 \<and> db' = db1"
    and "mode = Official \<Longrightarrow> calculateChallengeScore m pol (next_solve_order db (su_challenge_id u) mode) = Inr score
      \<and> (\<exists>v db2. advanceScoreboardVersion (su_contest_id u) (su_submitted_at u) db1 = Inr (v, db2)
           \<and> (db' = db2 \<or> (\<exists>e. insert_contest_event e db2 = Inr db')))"
proof -
  let ?finish = "\<lambda>(_, db2). if next_solve_order db (su_challenge_id u) mode \<noteq> 1 then Inr db2
      else pg (insert_contest_event \<lparr>ce_id = env_uuid env 2, ce_contest_id = su_contest_id u,
        ce_event_type = ''first_solve'', ce_event_key = (''challenge'', su_challenge_id u, ''first-solve''),
        ce_occurred_at = su_submitted_at u, ce_visible_at = su_submitted_at u,
        ce_payload = [(''challenge_id'', JStr (su_challenge_id u)),
          (''team_id'', JStr tid), (''team_name'', JStr tname)]\<rparr> db2)"
  from assms obtain score db1 where
    sc: "(if mode = Official then map_error ScoringFailure
        (calculateChallengeScore m pol (next_solve_order db (su_challenge_id u) mode)) else Inr 0) = Inr score"
    and ins: "insert_solve (solve_of env u mode score db) db = Inr db1"
    and rest: "(if mode = Practice then Inr db1
      else ebind (advanceScoreboardVersion (su_contest_id u) (su_submitted_at u) db1) ?finish) = Inr db'"
    by (auto simp: createSolve_def Let_def ebind_Inr_iff solve_of_def)
  show ?thesis
  proof (rule that [OF ins])
    show "score = 0 \<and> db' = db1" if "mode = Practice" using that sc rest by simp
    assume off: "mode = Official"
    with rest obtain v db2 where "advanceScoreboardVersion (su_contest_id u) (su_submitted_at u) db1 = Inr (v, db2)"
      and "?finish (v, db2) = Inr db'" by (auto simp: ebind_Inr_iff)
    with off sc show "calculateChallengeScore m pol (next_solve_order db (su_challenge_id u) mode) = Inr score
      \<and> (\<exists>v db2. advanceScoreboardVersion (su_contest_id u) (su_submitted_at u) db1 = Inr (v, db2)
           \<and> (db' = db2 \<or> (\<exists>e. insert_contest_event e db2 = Inr db')))"
      by (intro conjI exI [of _ v] exI [of _ db2]) (auto split: if_splits)
  qed
qed

lemma advance_frame:
  "advanceScoreboardVersion contest t db = Inr (v, db') \<Longrightarrow>
     db' = db\<lparr>db_scoreboard_versions := db_scoreboard_versions db'\<rparr>"
  by (auto simp: advanceScoreboardVersion_def Let_def split: option.splits if_splits)

text \<open>The tables a solve does not touch.\<close>

lemma createSolve_frame:
  assumes "createSolve m env u tid tname pol mode db = Inr db'"
  shows "db' = db\<lparr>db_solves := db_solves db', db_scoreboard_versions := db_scoreboard_versions db',
    db_contest_events := db_contest_events db'\<rparr>"
proof -
  from assms obtain score db1 where s: "insert_solve (solve_of env u mode score db) db = Inr db1"
    and p: "mode = Practice \<Longrightarrow> db' = db1"
    and off: "mode = Official \<Longrightarrow> \<exists>v db2. advanceScoreboardVersion (su_contest_id u) (su_submitted_at u) db1 = Inr (v, db2)
           \<and> (db' = db2 \<or> (\<exists>e. insert_contest_event e db2 = Inr db'))"
    by (rule createSolve_steps) blast
  from insert_solve_Inr [OF s] have db1: "db1 = db\<lparr>db_solves := db_solves db1\<rparr>" by simp
  show ?thesis
  proof (cases mode)
    case Practice
    with p db1 show ?thesis by (cases db; cases db1) simp
  next
    case Official
    with off obtain v db2 where adv: "advanceScoreboardVersion (su_contest_id u) (su_submitted_at u) db1 = Inr (v, db2)"
      and e: "db' = db2 \<or> (\<exists>e. insert_contest_event e db2 = Inr db')" by blast
    from e have "db' = db2\<lparr>db_contest_events := db_contest_events db'\<rparr>"
      by (auto dest!: insert_contest_event_Inr)
    with advance_frame [OF adv] db1 show ?thesis by (cases db; cases db1; cases db2; cases db') simp
  qed
qed

section \<open>Appending a submission\<close>

text \<open>The steps of a first \<open>append\<close>: admission, the row, the solve, the clues.\<close>

lemma append_tx_steps:
  assumes "append_tx m env command db = Inr (r, db')"
    and "readByRequestId db (asc_requestId command) = None"
  obtains adm res db1 db2 where "admitWith db command = Inr adm"
    and "res = (if asc_result command = VerifiedCorrect
        \<and> hasSolve db (adm_participationId adm) (adm_challengeId adm) (adm_mode adm)
        then AlreadySolved else result_of (asc_result command))"
    and "insert_submission (submission_of env adm command res) db = Inr db1"
    and "(if res = Correct then createSolve m env (submission_of env adm command res)
        (adm_teamId adm) (adm_teamName adm) (adm_scoringPolicy adm) (adm_mode adm) db1
        else Inr db1) = Inr db2"
    and "(if adm_mode adm = Official then detectCheatClues env (submission_of env adm command res)
        (asc_answerDigest command) (is_team_derived (adm_flagPolicy adm)) db2 else Inr db2) = Inr db'"
    and "r = submissionRecord (submission_of env adm command res)"
  using assms by (auto simp: append_tx_def Let_def ebind_Inr_iff)

text \<open>What a first append does to the tables.\<close>

definition appends :: "submission_row \<Rightarrow> database \<Rightarrow> database \<Rightarrow> bool" where
  "appends u db db' \<longleftrightarrow> db_submissions db' = db_submissions db @ [u]
     \<and> su_id u \<notin> su_id ` set (db_submissions db) \<and> su_request_id u \<notin> su_request_id ` set (db_submissions db)
     \<and> db' = db\<lparr>db_submissions := db_submissions db', db_solves := db_solves db',
         db_scoreboard_versions := db_scoreboard_versions db', db_contest_events := db_contest_events db',
         db_cheat_clues := db_cheat_clues db'\<rparr>
     \<and> (\<exists>cs. db_cheat_clues db' = db_cheat_clues db @ cs \<and> (\<forall>c\<in>set cs. cc_status c = Open))
     \<and> (clues_inv db \<longrightarrow> clues_inv db')"

lemma append_tx_appends:
  assumes "append_tx m env command db = Inr (r, db')"
    and "readByRequestId db (asc_requestId command) = None"
  obtains adm res where "admitWith db command = Inr adm" and "r = submissionRecord (submission_of env adm command res)"
    and "res = AlreadySolved \<and> asc_result command = VerifiedCorrect \<or> res = result_of (asc_result command)"
    and "appends (submission_of env adm command res) db db'"
proof -
  from append_tx_steps [OF assms] obtain adm res db1 db2 where
    adm: "admitWith db command = Inr adm"
    and res: "res = (if asc_result command = VerifiedCorrect
        \<and> hasSolve db (adm_participationId adm) (adm_challengeId adm) (adm_mode adm)
        then AlreadySolved else result_of (asc_result command))"
    and ins: "insert_submission (submission_of env adm command res) db = Inr db1"
    and sol: "(if res = Correct then createSolve m env (submission_of env adm command res)
        (adm_teamId adm) (adm_teamName adm) (adm_scoringPolicy adm) (adm_mode adm) db1
        else Inr db1) = Inr db2"
    and clues: "(if adm_mode adm = Official then detectCheatClues env (submission_of env adm command res)
        (asc_answerDigest command) (is_team_derived (adm_flagPolicy adm)) db2 else Inr db2) = Inr db'"
    and r: "r = submissionRecord (submission_of env adm command res)" .
  let ?u = "submission_of env adm command res"
  note i = insert_submission_Inr [OF ins]
  have 2: "db2 = db1\<lparr>db_solves := db_solves db2, db_scoreboard_versions := db_scoreboard_versions db2,
      db_contest_events := db_contest_events db2\<rparr>"
    using sol by (auto split: if_splits dest: createSolve_frame)
  have 3: "adds_clues db2 db'" using clues by (auto split: if_splits dest: detectCheatClues_adds)
  then obtain cs where cs: "db' = db2\<lparr>db_cheat_clues := db_cheat_clues db2 @ cs\<rparr>" "\<forall>c\<in>set cs. cc_status c = Open"
    by (auto simp: adds_clues_def)
  have eq: "db' = db\<lparr>db_submissions := db_submissions db @ [?u], db_solves := db_solves db2,
      db_scoreboard_versions := db_scoreboard_versions db2, db_contest_events := db_contest_events db2,
      db_cheat_clues := db_cheat_clues db @ cs\<rparr>"
    using i 2 cs(1) by (cases db; cases db1; cases db2) simp
  moreover have "clues_inv db2 = clues_inv db" using 2 i by (cases db2; cases db1) (simp add: clues_inv_def)
  ultimately have "appends ?u db db'"
    using i 3 cs(2) by (simp add: appends_def adds_clues_def clues_inv_def)
  moreover have "res = AlreadySolved \<and> asc_result command = VerifiedCorrect \<or> res = result_of (asc_result command)"
    using res by auto
  ultimately show ?thesis using that adm r by blast
qed

text \<open>Every successful \<open>append\<close> is a first append or returns the stored record.\<close>

lemma append_submission_cases:
  assumes "append_submission m env command db = Inr (r, db')"
  obtains (stored) row where "readByRequestId db (asc_requestId command) = Some row" "sameRequest row command"
      "r = submissionRecord row" "db' = db"
  | (first) "readByRequestId db (asc_requestId command) = None" "append_tx m env command db = Inr (r, db')"
  using assms
  by (cases "readByRequestId db (asc_requestId command)")
    (auto simp: append_submission_def append_tx_def split: sum.splits if_splits option.splits)

end
