(* ===== verification/Scoring_Invariant.thy ===== *)
theory Scoring_Invariant
  imports Scoring_Facts Submission_Frames Replay_Invariance
begin

text \<open>
  The invariant of the scoring tables: solves and correct submissions match one to one, solve
  orders have no gaps, references stay inside a contest and the scoreboard version counts the
  official solves and the adjustments. On a database with the invariant the facts of a contest can
  always be replayed, and the replayed fact version is the stored scoreboard version.
\<close>

section \<open>The invariant\<close>

definition solve_matches :: "solve_row \<Rightarrow> submission_row \<Rightarrow> bool" where
  "solve_matches s u \<longleftrightarrow> su_id u = so_submission_id s \<and> su_mode u = so_mode s \<and> su_result u = Correct
     \<and> su_contest_id u = so_contest_id s \<and> su_challenge_id u = so_challenge_id s
     \<and> su_participation_id u = so_participation_id s \<and> su_submitted_at u = so_solved_at s"

definition in_contest :: "database \<Rightarrow> uuid \<Rightarrow> uuid \<Rightarrow> uuid \<Rightarrow> bool" where
  "in_contest db contest challenge participation \<longleftrightarrow>
     (\<exists>c\<in>set (db_contest_challenges db). ch_id c = challenge \<and> ch_contest_id c = contest)
     \<and> (\<exists>p\<in>set (db_participations db). pa_id p = participation \<and> pa_contest_id p = contest)"

definition solves_at :: "database \<Rightarrow> uuid \<Rightarrow> submission_mode \<Rightarrow> solve_row list" where
  "solves_at db challenge mode =
     filter (\<lambda>s. so_challenge_id s = challenge \<and> so_mode s = mode) (db_solves db)"

definition version_of :: "database \<Rightarrow> uuid \<Rightarrow> int" where
  "version_of db contest =
     (case find (\<lambda>v. bv_contest_id v = contest) (db_scoreboard_versions db) of
        None \<Rightarrow> 0 | Some v \<Rightarrow> bv_version v)"

definition fact_count :: "database \<Rightarrow> uuid \<Rightarrow> int" where
  "fact_count db contest =
     int (length (filter (\<lambda>s. so_contest_id s = contest \<and> so_mode s = Official) (db_solves db)))
     + int (length (filter (\<lambda>a. sa_contest_id a = contest) (db_score_adjustments db)))"

definition rows_inv :: "database \<Rightarrow> bool" where
  "rows_inv db \<longleftrightarrow> distinct (map ch_id (db_contest_challenges db))
     \<and> distinct (map pa_id (db_participations db)) \<and> distinct (map te_id (db_teams db))
     \<and> (\<forall>p\<in>set (db_participations db). pa_team_id p \<in> te_id ` set (db_teams db))"

definition submissions_inv :: "database \<Rightarrow> bool" where
  "submissions_inv db \<longleftrightarrow> distinct (map su_id (db_submissions db))
     \<and> (\<forall>u\<in>set (db_submissions db).
          in_contest db (su_contest_id u) (su_challenge_id u) (su_participation_id u)
          \<and> (su_result u = Correct \<longrightarrow> su_id u \<in> so_submission_id ` set (db_solves db)))"

definition solves_inv :: "database \<Rightarrow> bool" where
  "solves_inv db \<longleftrightarrow> distinct (map so_id (db_solves db))
     \<and> distinct (map so_submission_id (db_solves db))
     \<and> distinct (map (\<lambda>s. (so_participation_id s, so_challenge_id s, so_mode s)) (db_solves db))
     \<and> (\<forall>s\<in>set (db_solves db). \<exists>u\<in>set (db_submissions db). solve_matches s u)
     \<and> (\<forall>c mode. map so_solve_order (solves_at db c mode) =
          map (\<lambda>i. 1 + int i) [0..<length (solves_at db c mode)])"

definition adjustments_inv :: "database \<Rightarrow> bool" where
  "adjustments_inv db \<longleftrightarrow> distinct (map sa_id (db_score_adjustments db))
     \<and> (\<forall>a\<in>set (db_score_adjustments db). sa_points_delta a \<noteq> 0
          \<and> (\<exists>p\<in>set (db_participations db). pa_id p = sa_participation_id a
               \<and> pa_contest_id p = sa_contest_id a))"

definition versions_inv :: "database \<Rightarrow> bool" where
  "versions_inv db \<longleftrightarrow> distinct (map bv_contest_id (db_scoreboard_versions db))
     \<and> (\<forall>contest. version_of db contest = fact_count db contest)"

definition scoring_inv :: "database \<Rightarrow> bool" where
  "scoring_inv db \<longleftrightarrow> rows_inv db \<and> submissions_inv db \<and> solves_inv db \<and> adjustments_inv db
     \<and> versions_inv db"

lemmas scoring_inv_defs = scoring_inv_def rows_inv_def submissions_inv_def solves_inv_def
  adjustments_inv_def versions_inv_def in_contest_def

text \<open>Only these tables matter.\<close>

definition same_scoring :: "database \<Rightarrow> database \<Rightarrow> bool" where
  "same_scoring db db' \<longleftrightarrow> db_contest_challenges db' = db_contest_challenges db
     \<and> db_participations db' = db_participations db \<and> db_teams db' = db_teams db
     \<and> db_submissions db' = db_submissions db \<and> db_solves db' = db_solves db
     \<and> db_score_adjustments db' = db_score_adjustments db
     \<and> db_scoreboard_versions db' = db_scoreboard_versions db"

lemma same_scoring_refl [simp]: "same_scoring db db"
  by (simp add: same_scoring_def)

lemma same_scoring_trans: "same_scoring a b \<Longrightarrow> same_scoring b c \<Longrightarrow> same_scoring a c"
  by (simp add: same_scoring_def)

lemma scoring_inv_cong: "same_scoring db db' \<Longrightarrow> scoring_inv db' \<longleftrightarrow> scoring_inv db"
  by (simp add: same_scoring_def scoring_inv_defs solves_at_def version_of_def fact_count_def)

lemma adds_clues_same: "adds_clues db db' \<Longrightarrow> same_scoring db db'"
  by (auto simp: adds_clues_def same_scoring_def)

section \<open>The scoreboard version\<close>

lemma find_map_update:
  "find (\<lambda>v. key v = c) (map (\<lambda>v. if key v = d then f v else v) vs) =
     (if c = d then map_option f (find (\<lambda>v. key v = c) vs) else find (\<lambda>v. key v = c) vs)"
  if "\<And>v. key (f v) = key v"
  by (induction vs) (auto simp: that)

lemma find_append: "find P (xs @ ys) = (case find P xs of None \<Rightarrow> find P ys | Some x \<Rightarrow> Some x)"
  by (induction xs) auto

lemma find_None_ident: "find (\<lambda>v. key v = c) vs = None \<longleftrightarrow> c \<notin> key ` set vs"
  by (auto simp: find_None_iff)

lemma advance_Inr:
  assumes "advanceScoreboardVersion contest t db = Inr (v, db')"
    and "distinct (map bv_contest_id (db_scoreboard_versions db))"
  shows "\<exists>rows. db' = db\<lparr>db_scoreboard_versions := rows\<rparr> \<and> distinct (map bv_contest_id rows)"
    and "version_of db' c = version_of db c + (if c = contest then 1 else 0)"
    and "v = version_of db contest + 1"
proof -
  let ?vs = "db_scoreboard_versions db"
  let ?up = "\<lambda>v. if bv_contest_id v = contest
      then v\<lparr>bv_version := bv_version v + 1, bv_updated_at := t\<rparr> else v"
  have keys: "map bv_contest_id (map ?up ?vs) = map bv_contest_id ?vs" by (induction ?vs) auto
  show "\<exists>rows. db' = db\<lparr>db_scoreboard_versions := rows\<rparr> \<and> distinct (map bv_contest_id rows)"
  proof (cases "find (\<lambda>v. bv_contest_id v = contest) ?vs")
    case None
    with assms show ?thesis
      by (intro exI [of _ "?vs @ [\<lparr>bv_contest_id = contest, bv_version = 1, bv_updated_at = t\<rparr>]"])
        (auto simp: advanceScoreboardVersion_def Let_def find_None_ident split: if_splits)
  next
    case (Some row)
    have "distinct (map bv_contest_id (map ?up ?vs))" unfolding keys by (rule assms(2))
    with assms Some show ?thesis
      by (intro exI [of _ "map ?up ?vs"])
        (simp add: advanceScoreboardVersion_def Let_def split: if_splits)
  qed
  show "version_of db' c = version_of db c + (if c = contest then 1 else 0)"
    using assms(1) by (auto simp: advanceScoreboardVersion_def Let_def version_of_def find_append
        find_map_update split: option.splits if_splits)
  show "v = version_of db contest + 1"
    using assms(1) by (auto simp: advanceScoreboardVersion_def Let_def version_of_def
        split: option.splits if_splits)
qed

section \<open>Adding a submission, with or without its solve\<close>

lemma add_submission_inv:
  assumes "scoring_inv db" and "su_id u \<notin> su_id ` set (db_submissions db)"
    and "in_contest db (su_contest_id u) (su_challenge_id u) (su_participation_id u)"
    and "su_result u \<noteq> Correct"
  shows "scoring_inv (db\<lparr>db_submissions := db_submissions db @ [u]\<rparr>)"
  using assms by (auto simp: scoring_inv_defs solves_at_def version_of_def fact_count_def)

lemma solves_at_snoc:
  "solves_at (db\<lparr>db_solves := db_solves db @ [s]\<rparr>) c mode =
     solves_at db c mode @ (if so_challenge_id s = c \<and> so_mode s = mode then [s] else [])"
  by (simp add: solves_at_def)

lemma add_solve_solves_inv:
  assumes inv: "solves_inv db" and sub: "submissions_inv db"
    and fresh: "su_id u \<notin> su_id ` set (db_submissions db)" "so_id s \<notin> so_id ` set (db_solves db)"
      "(so_participation_id s, so_challenge_id s, so_mode s)
        \<notin> (\<lambda>s. (so_participation_id s, so_challenge_id s, so_mode s)) ` set (db_solves db)"
    and m: "solve_matches s u"
    and ord: "so_solve_order s = int (length (solves_at db (so_challenge_id s) (so_mode s))) + 1"
  shows "solves_inv (db\<lparr>db_submissions := db_submissions db @ [u], db_solves := db_solves db @ [s]\<rparr>)"
proof -
  let ?db = "db\<lparr>db_submissions := db_submissions db @ [u], db_solves := db_solves db @ [s]\<rparr>"
  have at: "solves_at ?db c mode =
      solves_at db c mode @ (if so_challenge_id s = c \<and> so_mode s = mode then [s] else [])" for c mode
    by (simp add: solves_at_def)
  have "so_submission_id s \<notin> so_submission_id ` set (db_solves db)"
  proof
    assume "so_submission_id s \<in> so_submission_id ` set (db_solves db)"
    then obtain t where t: "t \<in> set (db_solves db)" "so_submission_id t = so_submission_id s" by auto
    then obtain v where "v \<in> set (db_submissions db)" "solve_matches t v"
      using inv by (auto simp: solves_inv_def)
    then have "su_id u \<in> su_id ` set (db_submissions db)"
      using t(2) m by (metis image_eqI solve_matches_def)
    with fresh(1) show False by simp
  qed
  moreover have "\<exists>u\<in>set (db_submissions ?db). solve_matches t u" if "t \<in> set (db_solves ?db)" for t
    using that inv m by (auto simp: solves_inv_def)
  moreover have "map so_solve_order (solves_at ?db c mode) =
      map (\<lambda>i. 1 + int i) [0..<length (solves_at ?db c mode)]" for c mode
    using inv ord by (auto simp: at solves_inv_def)
  ultimately show ?thesis using inv fresh(2,3) by (simp add: solves_inv_def)
qed

lemma add_solved_submission_inv:
  assumes inv: "scoring_inv db"
    and fresh: "su_id u \<notin> su_id ` set (db_submissions db)" "so_id s \<notin> so_id ` set (db_solves db)"
      "(so_participation_id s, so_challenge_id s, so_mode s)
        \<notin> (\<lambda>s. (so_participation_id s, so_challenge_id s, so_mode s)) ` set (db_solves db)"
    and con: "in_contest db (su_contest_id u) (su_challenge_id u) (su_participation_id u)"
    and m: "solve_matches s u"
    and ord: "so_solve_order s = int (length (solves_at db (so_challenge_id s) (so_mode s))) + 1"
    and rows: "distinct (map bv_contest_id rows)"
    and ver: "\<And>c. version_of (db\<lparr>db_scoreboard_versions := rows\<rparr>) c =
      version_of db c + (if so_mode s = Official \<and> c = so_contest_id s then 1 else 0)"
    and db': "db_contest_challenges db' = db_contest_challenges db" "db_participations db' = db_participations db"
      "db_teams db' = db_teams db" "db_submissions db' = db_submissions db @ [u]"
      "db_solves db' = db_solves db @ [s]" "db_score_adjustments db' = db_score_adjustments db"
      "db_scoreboard_versions db' = rows"
  shows "scoring_inv db'"
proof -
  have parts: "rows_inv db" "submissions_inv db" "solves_inv db" "adjustments_inv db" "versions_inv db"
    using inv by (simp_all add: scoring_inv_def)
  have "rows_inv db'" using parts(1) db' by (simp add: rows_inv_def)
  moreover have "submissions_inv db'"
    using parts(2) fresh(1) con m db'
    by (auto simp: submissions_inv_def in_contest_def solve_matches_def)
  moreover have "solves_inv db'"
    using add_solve_solves_inv [OF parts(3,2) fresh m ord] db' by (simp add: solves_inv_def solves_at_def)
  moreover have "adjustments_inv db'" using parts(4) db' by (simp add: adjustments_inv_def)
  moreover have "version_of db' c = fact_count db' c" for c
  proof -
    have "version_of db' c = version_of db c + (if so_mode s = Official \<and> c = so_contest_id s then 1 else 0)"
      using ver [of c] db' by (simp add: version_of_def)
    moreover have "fact_count db' c = fact_count db c
        + (if so_mode s = Official \<and> c = so_contest_id s then 1 else 0)"
      using db' by (auto simp: fact_count_def)
    ultimately show ?thesis using parts(5) by (simp add: versions_inv_def)
  qed
  ultimately show ?thesis using rows db' by (simp add: scoring_inv_def versions_inv_def)
qed

section \<open>Admission\<close>

lemma find_SomeD: "find P xs = Some x \<Longrightarrow> x \<in> set xs \<and> P x"
  by (auto simp: find_Some_iff)

lemma admitWith_elim:
  assumes "admitWith db command = Inr adm"
  obtains contest mode team participation challenge flagPolicy scoringPolicy where
    "find (\<lambda>c. co_id c = sac_contestId command) (db_contests db) = Some contest"
    and "submission_mode_at contest (sac_at command) = Inr mode"
    and "team_of_user db (sac_userId command) = Some team"
    and "find (\<lambda>p. pa_contest_id p = sac_contestId command \<and> pa_team_id p = te_id team)
      (db_participations db) = Some participation"
    and "find (\<lambda>c. ch_contest_id c = sac_contestId command \<and> ch_id c = sac_challengeId command)
      (db_contest_challenges db) = Some challenge"
    and "challengeFlagPolicySchema (ch_flag_policy challenge) = Some flagPolicy"
    and "challengeScoringPolicySchema (ch_scoring_policy challenge) = Some scoringPolicy"
    and "co_publication_status contest = Published" and "co_start_at contest \<le> sac_at command"
    and "pa_status participation = Accepted"
    and "ch_enabled challenge" and "getTime_ge (sac_at command) (ch_publish_at challenge)"
    and "mode = Official \<longrightarrow> ch_close_at challenge = None \<or> \<not> getTime_ge (sac_at command) (ch_close_at challenge)"
    and "\<forall>limit. ch_submission_limit challenge = Some limit \<longrightarrow>
      submission_count db (pa_id participation) (ch_id challenge) mode < limit"
    and "adm = \<lparr>adm_contestId = sac_contestId command, adm_challengeId = ch_id challenge,
      adm_participationId = pa_id participation, adm_teamId = te_id team, adm_teamName = te_name team,
      adm_flagFormat = ch_flag_format challenge, adm_flagPolicy = flagPolicy,
      adm_scoringPolicy = scoringPolicy, adm_mode = mode\<rparr>"
  using assms unfolding admitWith_def ebind_def
  by (simp split: option.split_asm if_split_asm sum.split_asm)

lemma admitWith_Inr:
  assumes "admitWith db command = Inr adm"
  shows "adm_contestId adm = sac_contestId command"
    and "adm_challengeId adm = sac_challengeId command"
    and "in_contest db (adm_contestId adm) (adm_challengeId adm) (adm_participationId adm)"
    and "challengeScoringPolicySchema (adm_scoringPolicy adm) \<noteq> None"
proof -
  obtain mode and team :: team_row and participation challenge flagPolicy scoringPolicy where
    ch: "find (\<lambda>c. ch_contest_id c = sac_contestId command \<and> ch_id c = sac_challengeId command)
      (db_contest_challenges db) = Some challenge"
    and pa: "find (\<lambda>p. pa_contest_id p = sac_contestId command \<and> pa_team_id p = te_id team)
      (db_participations db) = Some participation"
    and pol: "challengeScoringPolicySchema (ch_scoring_policy challenge) = Some scoringPolicy"
    and adm: "adm = \<lparr>adm_contestId = sac_contestId command, adm_challengeId = ch_id challenge,
      adm_participationId = pa_id participation, adm_teamId = te_id team, adm_teamName = te_name team,
      adm_flagFormat = ch_flag_format challenge, adm_flagPolicy = flagPolicy,
      adm_scoringPolicy = scoringPolicy, adm_mode = mode\<rparr>"
    using assms by (rule admitWith_elim) blast
  show "adm_contestId adm = sac_contestId command" "adm_challengeId adm = sac_challengeId command"
    using adm find_SomeD [OF ch] by simp_all
  show "in_contest db (adm_contestId adm) (adm_challengeId adm) (adm_participationId adm)"
    using adm find_SomeD [OF ch] find_SomeD [OF pa] by (auto simp: in_contest_def)
  show "challengeScoringPolicySchema (adm_scoringPolicy adm) \<noteq> None"
    using pol adm scoring_schema_Some [OF pol] by simp
qed

section \<open>Appending a submission\<close>

definition adds_solve ::
  "database \<Rightarrow> solve_row \<Rightarrow> scoreboard_version_row list \<Rightarrow> database \<Rightarrow> bool" where
  "adds_solve db s rows db' \<longleftrightarrow> db_contest_challenges db' = db_contest_challenges db
     \<and> db_participations db' = db_participations db \<and> db_teams db' = db_teams db
     \<and> db_submissions db' = db_submissions db \<and> db_solves db' = db_solves db @ [s]
     \<and> db_score_adjustments db' = db_score_adjustments db \<and> db_scoreboard_versions db' = rows"

lemma createSolve_Inr:
  assumes "createSolve m env u tid tname pol mode db = Inr db'"
    and "distinct (map bv_contest_id (db_scoreboard_versions db))"
  obtains score rows where
    "so_id (solve_of env u mode score db) \<notin> so_id ` set (db_solves db)"
    and "(su_participation_id u, su_challenge_id u, mode)
      \<notin> (\<lambda>s. (so_participation_id s, so_challenge_id s, so_mode s)) ` set (db_solves db)"
    and "distinct (map bv_contest_id rows)"
    and "\<And>c. version_of (db\<lparr>db_scoreboard_versions := rows\<rparr>) c =
      version_of db c + (if mode = Official \<and> c = su_contest_id u then 1 else 0)"
    and "adds_solve db (solve_of env u mode score db) rows db'"
proof -
  from assms(1) obtain score db1 where ins: "insert_solve (solve_of env u mode score db) db = Inr db1"
    and practice: "mode = Practice \<Longrightarrow> db' = db1"
    and official: "mode = Official \<Longrightarrow> \<exists>v db2. advanceScoreboardVersion (su_contest_id u) (su_submitted_at u) db1 = Inr (v, db2)
           \<and> (db' = db2 \<or> (\<exists>e. insert_contest_event e db2 = Inr db'))"
    by (rule createSolve_steps) blast
  let ?s = "solve_of env u mode score db"
  from insert_solve_Inr [OF ins] have fresh: "so_id ?s \<notin> so_id ` set (db_solves db)"
    "(su_participation_id u, su_challenge_id u, mode)
      \<notin> (\<lambda>s. (so_participation_id s, so_challenge_id s, so_mode s)) ` set (db_solves db)"
    and db1: "db1 = db\<lparr>db_solves := db_solves db @ [?s]\<rparr>" by (simp_all add: solve_of_def)
  show ?thesis
  proof (cases "mode = Practice")
    case True
    then have "db' = db1" by (rule practice)
    then have "adds_solve db ?s (db_scoreboard_versions db) db'"
      unfolding db1 by (simp add: adds_solve_def)
    with True show ?thesis by (intro that [OF fresh assms(2)]) simp_all
  next
    case False
    then have off: "mode = Official" by (cases mode) simp_all
    with official obtain v db2 where adv:
      "advanceScoreboardVersion (su_contest_id u) (su_submitted_at u) db1 = Inr (v, db2)"
      and ev: "db' = db2 \<or> (\<exists>e. insert_contest_event e db2 = Inr db')"
      by blast
    have d1: "distinct (map bv_contest_id (db_scoreboard_versions db1))" using assms(2) db1 by simp
    obtain rows where rows: "db2 = db1\<lparr>db_scoreboard_versions := rows\<rparr>"
      "distinct (map bv_contest_id rows)" using advance_Inr(1) [OF adv d1] by blast
    have "version_of (db\<lparr>db_scoreboard_versions := rows\<rparr>) c =
        version_of db c + (if mode = Official \<and> c = su_contest_id u then 1 else 0)" for c
      using advance_Inr(2) [OF adv d1, of c] by (simp add: rows(1) db1 off version_of_def)
    moreover have "adds_solve db ?s rows db'"
      using ev rows(1) db1 by (auto simp: adds_solve_def dest!: insert_contest_event_Inr)
    ultimately show ?thesis using that [OF fresh rows(2)] by blast
  qed
qed

lemma append_tx_inv:
  assumes inv: "scoring_inv db" and ap: "append_tx m env command db = Inr (r, db')"
  shows "scoring_inv db'"
proof (cases "readByRequestId db (asc_requestId command)")
  case (Some existing)
  then show ?thesis using assms by (auto simp: append_tx_def split: if_splits)
next
  case None
  from append_tx_steps [OF ap this] obtain adm res db1 db2 where adm: "admitWith db command = Inr adm"
    and ins: "insert_submission (submission_of env adm command res) db = Inr db1"
    and sol: "(if res = Correct then createSolve m env (submission_of env adm command res)
        (adm_teamId adm) (adm_teamName adm) (adm_scoringPolicy adm) (adm_mode adm) db1
        else Inr db1) = Inr db2"
    and clues: "(if adm_mode adm = Official then detectCheatClues env (submission_of env adm command res)
        (asc_answerDigest command) (is_team_derived (adm_flagPolicy adm)) db2 else Inr db2) = Inr db'" .
  let ?u = "submission_of env adm command res"
  have same: "same_scoring db2 db'"
    using clues by (auto split: if_splits dest: detectCheatClues_adds adds_clues_same)
  from insert_submission_Inr [OF ins] have fresh: "su_id ?u \<notin> su_id ` set (db_submissions db)"
    and db1: "db1 = db\<lparr>db_submissions := db_submissions db @ [?u]\<rparr>" by simp_all
  have con: "in_contest db (su_contest_id ?u) (su_challenge_id ?u) (su_participation_id ?u)"
    using admitWith_Inr(3) [OF adm] by (simp add: submission_of_def)
  have "scoring_inv db2"
  proof (cases "res = Correct")
    case False
    then show ?thesis
      using add_submission_inv [OF inv fresh con] sol db1 by (simp add: submission_of_def)
  next
    case True
    have "distinct (map bv_contest_id (db_scoreboard_versions db1))"
      using inv db1 by (simp add: scoring_inv_defs)
    from sol [unfolded if_P [OF True]] this obtain score rows where
      s: "so_id (solve_of env ?u (adm_mode adm) score db1) \<notin> so_id ` set (db_solves db1)"
      "(su_participation_id ?u, su_challenge_id ?u, adm_mode adm)
        \<notin> (\<lambda>s. (so_participation_id s, so_challenge_id s, so_mode s)) ` set (db_solves db1)"
      and rows: "distinct (map bv_contest_id rows)"
      and ver: "\<And>c. version_of (db1\<lparr>db_scoreboard_versions := rows\<rparr>) c =
        version_of db1 c + (if adm_mode adm = Official \<and> c = su_contest_id ?u then 1 else 0)"
      and db2: "adds_solve db1 (solve_of env ?u (adm_mode adm) score db1) rows db2"
      by (rule createSolve_Inr) blast
    let ?s = "solve_of env ?u (adm_mode adm) score db1"
    have "version_of (db\<lparr>db_scoreboard_versions := rows\<rparr>) c =
        version_of db c + (if so_mode ?s = Official \<and> c = so_contest_id ?s then 1 else 0)" for c
      using ver [of c] by (simp add: db1 version_of_def solve_of_def)
    moreover have "solve_matches ?s ?u" using True by (simp add: solve_matches_def solve_of_def submission_of_def)
    moreover have "so_solve_order ?s = int (length (solves_at db (so_challenge_id ?s) (so_mode ?s))) + 1"
      by (simp add: solve_of_def next_solve_order_def solves_at_def db1)
    ultimately show ?thesis
      using s db1 db2 by (intro add_solved_submission_inv [OF inv fresh _ _ con _ _ rows, of ?s])
        (simp_all add: solve_of_def adds_solve_def)
  qed
  then show ?thesis using scoring_inv_cong [OF same] by simp
qed

lemma append_submission_inv:
  "scoring_inv db \<Longrightarrow> append_submission m env command db = Inr (r, db') \<Longrightarrow> scoring_inv db'"
  by (auto simp: append_submission_def dest: append_tx_inv split: sum.splits if_splits option.splits)

section \<open>Score adjustments and reviews\<close>

lemma add_adjustment_inv:
  assumes inv: "scoring_inv db" and fresh: "sa_id a \<notin> sa_id ` set (db_score_adjustments db)"
    and delta: "sa_points_delta a \<noteq> 0"
    and con: "\<exists>p\<in>set (db_participations db). pa_id p = sa_participation_id a \<and> pa_contest_id p = sa_contest_id a"
    and rows: "distinct (map bv_contest_id rows)"
    and ver: "\<And>c. version_of (db\<lparr>db_scoreboard_versions := rows\<rparr>) c =
      version_of db c + (if c = sa_contest_id a then 1 else 0)"
    and db': "db' = db\<lparr>db_score_adjustments := db_score_adjustments db @ [a], db_scoreboard_versions := rows\<rparr>"
  shows "scoring_inv db'"
proof -
  have parts: "rows_inv db" "submissions_inv db" "solves_inv db" "adjustments_inv db" "versions_inv db"
    using inv by (simp_all add: scoring_inv_def)
  have "version_of db' c = fact_count db' c" for c
  proof -
    have "version_of db' c = version_of db c + (if c = sa_contest_id a then 1 else 0)"
      using ver [of c] by (simp add: db' version_of_def)
    moreover have "fact_count db' c = fact_count db c + (if c = sa_contest_id a then 1 else 0)"
      by (simp add: db' fact_count_def)
    ultimately show ?thesis using parts(5) by (simp add: versions_inv_def)
  qed
  moreover have "adjustments_inv db'" using parts(4) fresh delta con by (auto simp: adjustments_inv_def db')
  ultimately show ?thesis
    using parts(1-3) rows
    by (simp add: scoring_inv_def versions_inv_def db' rows_inv_def submissions_inv_def solves_inv_def
        in_contest_def solves_at_def)
qed

lemma recordScoreAdjustment_tx_inv:
  assumes inv: "scoring_inv db" and rec: "recordScoreAdjustment_tx env command db = Inr (r, db')"
  shows "scoring_inv db'"
proof (cases "readScoreAdjustmentByRequestId db (rsa_requestId command)")
  case (Some existing)
  then show ?thesis using assms by (auto simp: recordScoreAdjustment_tx_def split: if_splits)
next
  case None
  let ?a = "adjustment_of env command"
  from None rec obtain p db1 v db2 e where
    p: "find (\<lambda>p. pa_id p = rsa_participationId command \<and> pa_contest_id p = rsa_contestId command)
      (db_participations db) = Some p"
    and ins: "insert_score_adjustment ?a db = Inr db1"
    and adv: "advanceScoreboardVersion (rsa_contestId command) (rsa_at command) db1 = Inr (v, db2)"
    and aud: "insert_audit_event e db2 = Inr db'"
    by (auto simp: recordScoreAdjustment_tx_def Let_def ebind_Inr_iff split: option.splits if_splits)
  from insert_score_adjustment_Inr [OF ins] have a: "sa_points_delta ?a \<noteq> 0"
    "sa_id ?a \<notin> sa_id ` set (db_score_adjustments db)"
    and db1: "db1 = db\<lparr>db_score_adjustments := db_score_adjustments db @ [?a]\<rparr>" by simp_all
  have d: "distinct (map bv_contest_id (db_scoreboard_versions db1))"
    using inv db1 by (simp add: scoring_inv_defs)
  obtain rows where rows: "db2 = db1\<lparr>db_scoreboard_versions := rows\<rparr>" "distinct (map bv_contest_id rows)"
    using advance_Inr(1) [OF adv d] by blast
  have "version_of (db\<lparr>db_scoreboard_versions := rows\<rparr>) c =
      version_of db c + (if c = sa_contest_id ?a then 1 else 0)" for c
    using advance_Inr(2) [OF adv d, of c] by (simp add: rows(1) db1 version_of_def adjustment_of_def)
  moreover have "\<exists>p\<in>set (db_participations db). pa_id p = sa_participation_id ?a \<and> pa_contest_id p = sa_contest_id ?a"
    using find_SomeD [OF p] by (auto simp: adjustment_of_def)
  ultimately have "scoring_inv db2"
    by (intro add_adjustment_inv [OF inv a(2,1) _ rows(2)]) (simp_all add: rows(1) db1)
  moreover have "same_scoring db2 db'" using insert_audit_event_Inr [OF aud] by (simp add: same_scoring_def)
  ultimately show ?thesis by (simp add: scoring_inv_cong)
qed

lemma recordScoreAdjustment_inv:
  "scoring_inv db \<Longrightarrow> recordScoreAdjustment env command db = Inr (r, db') \<Longrightarrow> scoring_inv db'"
  by (auto simp: recordScoreAdjustment_def dest: recordScoreAdjustment_tx_inv
      split: sum.splits if_splits option.splits)

lemma reviewCheatClue_same:
  assumes "reviewCheatClue env command db = Inr (r, db')"
  shows "same_scoring db db'"
  using assms by (auto simp: reviewCheatClue_def Let_def ebind_Inr_iff same_scoring_def
      dest!: insert_audit_event_Inr split: option.splits if_splits)

section \<open>The facts of a contest\<close>

lemma filter_unique_key:
  "distinct (map key ts) \<Longrightarrow> k \<in> key ` set ts \<Longrightarrow> \<exists>t. filter (\<lambda>t. key t = k) ts = [t]"
  by (induction ts) (auto simp: filter_empty_conv image_iff)

lemma load_participation_single:
  assumes "distinct (map te_id (db_teams db))" and "pa_team_id p \<in> te_id ` set (db_teams db)"
  shows "\<exists>name. load_participation db p = [\<lparr>rp_id = pa_id p, rp_teamId = pa_team_id p,
    rp_teamName = name, rp_divisionId = pa_division_id p, rp_status = pa_status p\<rparr>]"
  using filter_unique_key [OF assms] by (auto simp: load_participation_def)

lemma map_concat_single:
  "(\<And>x. x \<in> set xs \<Longrightarrow> \<exists>y. f x = [y] \<and> g y = h x) \<Longrightarrow> map g (concat (map f xs)) = map h xs"
  by (induction xs) force+

lemma load_participation_ids:
  assumes "rows_inv db" and "set ps \<subseteq> set (db_participations db)"
  shows "map rp_id (concat (map (load_participation db) ps)) = map pa_id ps"
  using assms by (intro map_concat_single) (force simp: rows_inv_def dest: load_participation_single)

lemma load_challenge_Inr:
  "load_challenge row = Inr c \<Longrightarrow> rc_id c = ch_id row \<and> challengeScoringPolicySchema (rc_scoringPolicy c) \<noteq> None"
  using scoring_schema_Some [of "ch_scoring_policy row"]
  by (auto simp: load_challenge_def split: option.splits)

lemma load_facts_Inr:
  assumes "load_facts db contest cutoff = Inr facts" and "rows_inv db"
  shows "map rc_id (f_challenges facts) =
      map ch_id (sort_key ch_id (filter (\<lambda>c. ch_contest_id c = contest) (db_contest_challenges db)))"
    and "\<forall>c\<in>set (f_challenges facts). challengeScoringPolicySchema (rc_scoringPolicy c) \<noteq> None"
    and "map rp_id (f_participations facts) =
      map pa_id (sort_key pa_id (filter (\<lambda>p. pa_contest_id p = contest) (db_participations db)))"
    and "f_submissions facts = map load_submission (contest_submissions db contest cutoff)"
    and "f_solves facts = map load_solve (contest_solves db contest cutoff)"
    and "f_adjustments facts = map load_adjustment (contest_adjustments db contest cutoff)"
proof -
  from assms(1) obtain cs where cs: "emap load_challenge
      (sort_key ch_id (filter (\<lambda>c. ch_contest_id c = contest) (db_contest_challenges db))) = Inr cs"
    and facts: "facts = \<lparr>f_challenges = cs, f_participations = concat (map (load_participation db)
      (sort_key pa_id (filter (\<lambda>p. pa_contest_id p = contest) (db_participations db)))),
      f_submissions = map load_submission (contest_submissions db contest cutoff),
      f_solves = map load_solve (contest_solves db contest cutoff),
      f_adjustments = map load_adjustment (contest_adjustments db contest cutoff)\<rparr>"
    by (auto simp: load_facts_def ebind_Inr_iff split: if_splits)
  have l: "list_all2 (\<lambda>row c. load_challenge row = Inr c)
      (sort_key ch_id (filter (\<lambda>c. ch_contest_id c = contest) (db_contest_challenges db))) cs"
    using cs by (simp add: emap_Inr_iff)
  show "map rc_id (f_challenges facts) =
      map ch_id (sort_key ch_id (filter (\<lambda>c. ch_contest_id c = contest) (db_contest_challenges db)))"
    using list_all2_map_eq [OF l, of rc_id ch_id] load_challenge_Inr by (simp add: facts)
  show "\<forall>c\<in>set (f_challenges facts). challengeScoringPolicySchema (rc_scoringPolicy c) \<noteq> None"
    using l by (auto simp: facts dest: load_challenge_Inr elim!: list_all2_member)
  show "map rp_id (f_participations facts) =
      map pa_id (sort_key pa_id (filter (\<lambda>p. pa_contest_id p = contest) (db_participations db)))"
    unfolding facts contest_scoring_facts.simps by (rule load_participation_ids [OF assms(2)]) auto
qed (use assms in \<open>auto simp: load_facts_def ebind_Inr_iff split: if_splits\<close>)

end
