(* ===== verification/Scoring_Consistency.thy ===== *)
theory Scoring_Consistency
  imports Scoring_Invariant
begin

text \<open>
  From the invariant of the tables to the replay: the facts loaded without a cutoff are consistent,
  gap-free and carry the version the scoreboard stores.
\<close>

lemma official_loaded:
  "set (officialSolves (map load_solve (contest_solves db contest cutoff))) =
     load_solve ` {s \<in> set (db_solves db). so_contest_id s = contest \<and> so_mode s = Official
       \<and> before_cutoff cutoff (so_solved_at s)}"
  by (auto simp: contest_solves_def load_solve_def)

lemma ids_of_contest:
  assumes "distinct (map key rows)"
  shows "distinct (map key (sort_key f (filter P rows)))"
  using assms by (simp add: distinct_map distinct_map_filter_by inj_on_def)

lemma solve_contest:
  assumes "rows_inv db" and "submissions_inv db" and "solves_inv db" and "s \<in> set (db_solves db)"
  shows "in_contest db (so_contest_id s) (so_challenge_id s) (so_participation_id s)"
  using assms by (fastforce simp: submissions_inv_def solves_inv_def solve_matches_def)

lemma challenge_of_contest:
  assumes "rows_inv db" and "in_contest db a c p" and "in_contest db b c q"
  shows "a = b"
proof -
  obtain x y where "x \<in> set (db_contest_challenges db)" "ch_id x = c" "ch_contest_id x = a"
    "y \<in> set (db_contest_challenges db)" "ch_id y = c" "ch_contest_id y = b"
    using assms(2,3) by (auto simp: in_contest_def)
  then show ?thesis using assms(1) by (metis (no_types, lifting) distinct_map inj_onD rows_inv_def)
qed

definition loaded :: "database \<Rightarrow> uuid \<Rightarrow> contest_scoring_facts \<Rightarrow> bool" where
  "loaded db contest facts \<longleftrightarrow> scoring_inv db \<and> load_facts db contest None = Inr facts"

lemma loaded_parts:
  assumes L: "loaded db contest facts"
  shows "rows_inv db" "submissions_inv db" "solves_inv db" "adjustments_inv db" "versions_inv db"
  using L by (simp_all add: loaded_def scoring_inv_def)

lemma loaded_fields:
  assumes "loaded db contest facts"
  shows "map rc_id (f_challenges facts) =
      map ch_id (sort_key ch_id (filter (\<lambda>c. ch_contest_id c = contest) (db_contest_challenges db)))"
    and "\<forall>c\<in>set (f_challenges facts). challengeScoringPolicySchema (rc_scoringPolicy c) \<noteq> None"
    and "map rp_id (f_participations facts) =
      map pa_id (sort_key pa_id (filter (\<lambda>p. pa_contest_id p = contest) (db_participations db)))"
    and "f_submissions facts = map load_submission (contest_submissions db contest None)"
    and "f_solves facts = map load_solve (contest_solves db contest None)"
    and "f_adjustments facts = map load_adjustment (contest_adjustments db contest None)"
  using assms load_facts_Inr [of db contest None facts] by (simp_all add: loaded_def scoring_inv_def)

lemma challenge_ids:
  assumes L: "loaded db contest facts"
  shows "rc_id ` set (f_challenges facts) =
    {c. \<exists>r\<in>set (db_contest_challenges db). ch_id r = c \<and> ch_contest_id r = contest}"
proof -
  have "rc_id ` set (f_challenges facts) = set (map rc_id (f_challenges facts))" by simp
  also have "\<dots> = {c. \<exists>r\<in>set (db_contest_challenges db). ch_id r = c \<and> ch_contest_id r = contest}"
    unfolding loaded_fields(1) [OF L] by auto
  finally show ?thesis .
qed

lemma participation_ids:
  assumes L: "loaded db contest facts"
  shows "rp_id ` set (f_participations facts) =
    {p. \<exists>r\<in>set (db_participations db). pa_id r = p \<and> pa_contest_id r = contest}"
proof -
  have "rp_id ` set (f_participations facts) = set (map rp_id (f_participations facts))" by simp
  also have "\<dots> = {p. \<exists>r\<in>set (db_participations db). pa_id r = p \<and> pa_contest_id r = contest}"
    unfolding loaded_fields(3) [OF L] by auto
  finally show ?thesis .
qed

lemma loaded_ids:
  assumes L: "loaded db contest facts"
  shows "ids_unique facts"
proof -
  have c: "distinct (map rc_id (f_challenges facts))"
    unfolding loaded_fields(1) [OF L] using loaded_parts(1) [OF L] by (intro ids_of_contest) (simp add: rows_inv_def)
  have p: "distinct (map rp_id (f_participations facts))"
    unfolding loaded_fields(3) [OF L] using loaded_parts(1) [OF L] by (intro ids_of_contest) (simp add: rows_inv_def)
  have "map rs_id (f_submissions facts) = map su_id (contest_submissions db contest None)"
    "map sv_id (f_solves facts) = map so_id (contest_solves db contest None)"
    "map ra_id (f_adjustments facts) = map sa_id (contest_adjustments db contest None)"
    by (simp_all add: loaded_fields [OF L] load_submission_def load_solve_def load_adjustment_def)
  with c p loaded_parts [OF L] show ?thesis
    by (simp add: ids_unique_def contest_submissions_def contest_solves_def contest_adjustments_def
        ids_of_contest submissions_inv_def solves_inv_def adjustments_inv_def)
qed

lemma known_ids:
  assumes L: "loaded db contest facts"
    and "in_contest db contest c p"
  shows "challenge_map facts c \<noteq> None" and "participation_map facts p \<noteq> None"
  using assms challenge_ids [OF L] participation_ids [OF L]
  by (auto simp: challenge_map_def participation_map_def map_of_ident_None in_contest_def)

lemma submission_lookup:
  assumes L: "loaded db contest facts"
    and "u \<in> set (db_submissions db)" and "su_contest_id u = contest"
  shows "submission_map facts (su_id u) = Some (load_submission u)"
proof -
  have "distinct (map rs_id (f_submissions facts))" using loaded_ids [OF L] by (simp add: ids_unique_def)
  moreover have "load_submission u \<in> set (f_submissions facts)"
    using assms by (simp add: loaded_fields(4) [OF L] contest_submissions_def before_cutoff_def)
  ultimately show ?thesis by (simp add: submission_map_def map_of_ident load_submission_def)
qed

lemma official_member:
  assumes L: "loaded db contest facts"
  shows "v \<in> set (officialSolves (f_solves facts)) \<longleftrightarrow>
     (\<exists>s\<in>set (db_solves db). v = load_solve s \<and> so_contest_id s = contest \<and> so_mode s = Official)"
  unfolding loaded_fields(5) [OF L] official_loaded by (auto simp: before_cutoff_def)

lemma order_bound:
  assumes L: "loaded db contest facts"
    and "s \<in> set (db_solves db)"
  shows "0 < so_solve_order s" and "so_solve_order s \<le> int (length (db_solves db))"
proof -
  let ?at = "solves_at db (so_challenge_id s) (so_mode s)"
  have "so_solve_order s \<in> set (map so_solve_order ?at)" using assms by (simp add: solves_at_def)
  also have "map so_solve_order ?at = map (\<lambda>i. 1 + int i) [0..<length ?at]"
    using loaded_parts(3) [OF L] by (simp add: solves_inv_def)
  finally have "\<exists>i<length ?at. so_solve_order s = 1 + int i" by auto
  moreover have "length ?at \<le> length (db_solves db)" by (simp add: solves_at_def)
  ultimately show "0 < so_solve_order s" "so_solve_order s \<le> int (length (db_solves db))" by auto
qed

lemma official_wf:
  assumes L: "loaded db contest facts"
    and "int (length (db_solves db)) \<le> max_safe_integer"
    and "v \<in> set (officialSolves (f_solves facts))"
  shows "solve_wf (challenge_map facts) (participation_map facts) (submission_map facts) v"
proof -
  obtain s where s: "s \<in> set (db_solves db)" "v = load_solve s" "so_contest_id s = contest"
    "so_mode s = Official" using assms(3) unfolding official_member [OF L] by blast
  obtain u where u: "u \<in> set (db_submissions db)" "solve_matches s u"
    using loaded_parts(3) [OF L] s(1) by (auto simp: solves_inv_def)
  have con: "in_contest db contest (so_challenge_id s) (so_participation_id s)"
    using solve_contest [OF loaded_parts(1-3) [OF L] s(1)] s(3) by simp
  have "submission_map facts (so_submission_id s) = Some (load_submission u)"
    using submission_lookup [OF L u(1)] u(2) s(3) by (simp add: solve_matches_def)
  then show ?thesis
    using known_ids [OF L con] u(2) s(2,4) order_bound [OF L s(1)] assms(2)
    by (simp add: solve_wf_def load_solve_def solve_mismatch_def load_submission_def
        solve_matches_def safe_integer_def max_safe_integer_def)
qed

lemma official_distinct:
  assumes L: "loaded db contest facts"
    and "distinct (map g (db_solves db))"
    and "\<And>s t. so_mode s = Official \<Longrightarrow> so_mode t = Official \<Longrightarrow> f (load_solve s) = f (load_solve t) \<Longrightarrow> g s = g t"
  shows "distinct (map f (officialSolves (f_solves facts)))"
proof -
  have "distinct (map f (filter (\<lambda>v. sv_mode v = Official) (map load_solve (contest_solves db contest None))))"
    using assms by (auto simp: contest_solves_def distinct_map filter_map comp_def inj_on_def load_solve_def)
  then show ?thesis by (simp only: officialSolves_def loaded_fields(5) [OF L] distinct_map_toSorted)
qed

lemma submissions_ok:
  assumes L: "loaded db contest facts"
  shows "\<forall>s\<in>set (f_submissions facts). submission_wf (challenge_map facts) (participation_map facts)
     (sv_submissionId ` set (officialSolves (f_solves facts))) s"
proof
  fix x
  assume "x \<in> set (f_submissions facts)"
  then obtain u where u: "u \<in> set (db_submissions db)" "su_contest_id u = contest" "x = load_submission u"
    by (auto simp: loaded_fields(4) [OF L] contest_submissions_def)
  have con: "in_contest db contest (su_challenge_id u) (su_participation_id u)"
    using loaded_parts(2) [OF L] u by (auto simp: submissions_inv_def)
  have "su_id u \<in> sv_submissionId ` set (officialSolves (f_solves facts))"
    if off: "su_mode u = Official" "su_result u = Correct"
  proof -
    obtain s where s: "s \<in> set (db_solves db)" "so_submission_id s = su_id u"
      using loaded_parts(2) [OF L] u(1) off(2) by (auto simp: submissions_inv_def)
    obtain w where w: "w \<in> set (db_submissions db)" "solve_matches s w"
      using loaded_parts(3) [OF L] s(1) by (auto simp: solves_inv_def)
    have "w = u" using loaded_parts(2) [OF L] w s(2) u(1)
      by (auto simp: submissions_inv_def solve_matches_def distinct_map dest: inj_onD)
    then have "load_solve s \<in> set (officialSolves (f_solves facts))"
      unfolding official_member [OF L] using w(2) s(1) u(2) off(1) \<open>w = u\<close> by (auto simp: solve_matches_def)
    then show ?thesis using s(2) by (force simp: load_solve_def)
  qed
  then show "submission_wf (challenge_map facts) (participation_map facts)
      (sv_submissionId ` set (officialSolves (f_solves facts))) x"
    using known_ids [OF L con] u(3) by (simp add: submission_wf_def load_submission_def)
qed

lemma facts_consistent:
  assumes L: "loaded db contest facts"
    and "int (length (db_solves db)) \<le> max_safe_integer"
  shows "facts_wf facts"
proof -
  have "distinct (map solve_pair (officialSolves (f_solves facts)))"
    by (rule official_distinct [OF L, where g = "\<lambda>s. (so_participation_id s, so_challenge_id s, so_mode s)"])
      (use loaded_parts(3) [OF L] in \<open>auto simp: solves_inv_def solve_pair_def load_solve_def\<close>)
  moreover have "distinct (map sv_submissionId (officialSolves (f_solves facts)))"
    by (rule official_distinct [OF L, where g = so_submission_id])
      (use loaded_parts(3) [OF L] in \<open>auto simp: solves_inv_def load_solve_def\<close>)
  ultimately show ?thesis
    using loaded_ids [OF L] official_wf [OF L assms(2)] submissions_ok [OF L] by (simp add: facts_wf_def)
qed

lemma challenge_orders:
  assumes L: "loaded db contest facts"
    and "c \<in> rc_id ` set (f_challenges facts)"
  shows "mset (map sv_solveOrder (challenge_solves facts c)) =
    mset (map (\<lambda>i. 1 + int i) [0..<length (challenge_solves facts c)])"
proof -
  have mem: "so_contest_id s = contest" if "s \<in> set (solves_at db c Official)" for s
  proof -
    have "in_contest db (so_contest_id s) c (so_participation_id s)"
      using that solve_contest [OF loaded_parts(1-3) [OF L]] by (auto simp: solves_at_def)
    moreover obtain r where "r \<in> set (db_contest_challenges db)" "ch_id r = c" "ch_contest_id r = contest"
      using assms by (auto simp: challenge_ids [OF L])
    ultimately show ?thesis
      using loaded_parts(1) [OF L] by (metis (no_types, lifting) distinct_map in_contest_def inj_onD rows_inv_def)
  qed
  have "mset (challenge_solves facts c) =
      mset (map load_solve (filter (\<lambda>s. so_mode s = Official \<and> so_challenge_id s = c)
        (contest_solves db contest None)))"
    by (simp add: challenge_solves_def loaded_fields(5) [OF L] filter_map comp_def load_solve_def)
  also have "\<dots> = mset (map load_solve (filter (\<lambda>s. so_contest_id s = contest) (solves_at db c Official)))"
    by (simp add: contest_solves_def solves_at_def filter_filter_mset before_cutoff_def conj_commute
        conj_left_commute)
  also have "filter (\<lambda>s. so_contest_id s = contest) (solves_at db c Official) = solves_at db c Official"
    using mem by (simp add: filter_id_conv)
  finally have m: "mset (challenge_solves facts c) = mset (map load_solve (solves_at db c Official))" .
  then have "length (challenge_solves facts c) = length (solves_at db c Official)"
    using mset_eq_length by fastforce
  moreover have "mset (map sv_solveOrder (challenge_solves facts c)) =
      mset (map so_solve_order (solves_at db c Official))"
    using m by (simp add: image_mset.compositionality comp_def load_solve_def)
  moreover have "map so_solve_order (solves_at db c Official) =
      map (\<lambda>i. 1 + int i) [0..<length (solves_at db c Official)]"
    using loaded_parts(3) [OF L] by (simp add: solves_inv_def)
  ultimately show ?thesis by simp
qed

lemma scorable:
  assumes L: "loaded db contest facts"
    and "1000000 * int (length (db_solves db)) + (\<Sum>a\<leftarrow>f_adjustments facts. \<bar>ra_pointsDelta a\<bar>)
      + int (length (f_adjustments facts)) \<le> max_safe_integer"
  shows "facts_scorable facts"
proof -
  have len: "length (f_solves facts) \<le> length (db_solves db)"
    by (simp add: loaded_fields(5) [OF L] contest_solves_def)
  have "0 \<le> (\<Sum>a\<leftarrow>f_adjustments facts. \<bar>ra_pointsDelta a\<bar>)" by (rule sum_list_nonneg) auto
  then have wf: "facts_wf facts" using assms by (intro facts_consistent [OF L]) linarith
  have adj: "participation_map facts (ra_participationId a) \<noteq> None \<and> valid_date (ra_createdAt a)
      \<and> ra_pointsDelta a \<noteq> 0" if a: "a \<in> set (f_adjustments facts)" for a
  proof -
    obtain r where r: "r \<in> set (db_score_adjustments db)" "sa_contest_id r = contest" "a = load_adjustment r"
      using a by (auto simp: loaded_fields(6) [OF L] contest_adjustments_def)
    then have "sa_participation_id r \<in> rp_id ` set (f_participations facts)" "sa_points_delta r \<noteq> 0"
      using loaded_parts(4) [OF L] by (auto simp: participation_ids [OF L] adjustments_inv_def)
    with r(3) show ?thesis
      by (simp add: participation_map_def map_of_ident_None load_adjustment_def)
  qed
  show ?thesis unfolding facts_scorable_def
    using wf loaded_fields(2) [OF L] challenge_orders [OF L] adj assms len by auto
qed

lemma version_counts:
  assumes L: "loaded db contest facts"
  shows "int (length (filter (\<lambda>v. sv_mode v = Official) (f_solves facts))) + int (length (f_adjustments facts))
     = version_of db contest"
proof -
  have "size (filter_mset (\<lambda>v. sv_mode v = Official) (mset (f_solves facts))) =
      size (filter_mset (\<lambda>s. so_contest_id s = contest \<and> so_mode s = Official) (mset (db_solves db)))"
    by (simp add: loaded_fields(5) [OF L] contest_solves_def filter_mset_image_mset filter_filter_mset load_solve_def
        before_cutoff_def conj_commute)
  then have "length (filter (\<lambda>v. sv_mode v = Official) (f_solves facts)) =
      length (filter (\<lambda>s. so_contest_id s = contest \<and> so_mode s = Official) (db_solves db))"
    by (metis mset_filter size_mset)
  moreover have "length (f_adjustments facts) =
      length (filter (\<lambda>a. sa_contest_id a = contest) (db_score_adjustments db))"
    by (simp add: loaded_fields(6) [OF L] contest_adjustments_def before_cutoff_def)
  ultimately show ?thesis using loaded_parts(5) [OF L] by (simp add: versions_inv_def fact_count_def)
qed

end
