(* ===== verification/Team_Repository.thy ===== *)
theory Team_Repository
  imports Database
begin

text \<open>
  \<open>server/infrastructure/db/team-repository.ts\<close>: teams, members and invitations. The deferred
  triggers of \<open>0003_teams.sql\<close> that require exactly one captain run in \<open>commit_team\<close>.
\<close>

section \<open>Records and errors\<close>

record team_member_record =
  mr_userId :: uuid
  mr_username :: string
  mr_role :: team_member_role
  mr_joinedAt :: millis

record team_lock_record =
  tl_id :: uuid
  tl_title :: string
  tl_startAt :: millis
  tl_endAt :: millis

record team_record =
  tr_id :: uuid
  tr_name :: string
  tr_version :: int
  tr_members :: "team_member_record list"
  tr_locks :: "team_lock_record list"

record created_team =
  crt_team :: team_record
  crt_inviteCode :: string

datatype correction_operation = AddMember | RemoveMember | TransferCaptain

record team_correction_command =
  tcc_actorId :: uuid
  tcc_requestId :: string
  tcc_teamId :: uuid
  tcc_operation :: correction_operation
  tcc_targetUserId :: uuid
  tcc_reason :: string

datatype team_error =
    TeamConflict
  | TeamNotFound
  | TeamForbidden
  | TeamInviteInvalid
  | TeamMemberIneligible
  | TeamLocked "team_lock_record list"
  | TeamDatabaseError pg_error

definition tpg :: "pg_error + 'a \<Rightarrow> team_error + 'a" where
  "tpg x = map_error TeamDatabaseError x"

section \<open>Insertions and the captain trigger\<close>

definition insert_team :: "team_row \<Rightarrow> database \<Rightarrow> pg_error + database" where
  "insert_team r db = ebind (constraints [
      (UniqueViolation ''teams_pkey'', \<not> known te_id (db_teams db) (te_id r)),
      (UniqueViolation ''teams_name_normalized_unique'',
        \<not> known te_name_normalized (db_teams db) (te_name_normalized r)),
      (ForeignKeyViolation ''teams_created_by'', known us_id (db_users db) (te_created_by r))])
    (\<lambda>_. Inr (db\<lparr>db_teams := db_teams db @ [r]\<rparr>))"

definition captains :: "database \<Rightarrow> uuid \<Rightarrow> team_member_row list" where
  "captains db teamId =
     filter (\<lambda>m. tm_team_id m = teamId \<and> tm_role m = Captain) (db_team_members db)"

definition insert_team_member :: "team_member_row \<Rightarrow> database \<Rightarrow> pg_error + database" where
  "insert_team_member r db = ebind (constraints [
      (UniqueViolation ''team_members_pkey'', \<not> known tm_id (db_team_members db) (tm_id r)),
      (UniqueViolation ''team_members_user_unique'',
        \<not> known tm_user_id (db_team_members db) (tm_user_id r)),
      (UniqueViolation ''team_members_team_user_unique'',
        \<not> known (\<lambda>m. (tm_team_id m, tm_user_id m)) (db_team_members db) (tm_team_id r, tm_user_id r)),
      (UniqueViolation ''team_members_single_captain_unique'',
        tm_role r = Captain \<longrightarrow> captains db (tm_team_id r) = []),
      (ForeignKeyViolation ''team_members_team_id'', known te_id (db_teams db) (tm_team_id r)),
      (ForeignKeyViolation ''team_members_user_id'', known us_id (db_users db) (tm_user_id r))])
    (\<lambda>_. Inr (db\<lparr>db_team_members := db_team_members db @ [r]\<rparr>))"

definition insert_team_invite :: "team_invite_row \<Rightarrow> database \<Rightarrow> pg_error + database" where
  "insert_team_invite r db = ebind (constraints [
      (CheckViolation ''team_invites_generation_positive'', 0 < ti_generation r),
      (UniqueViolation ''team_invites_pkey'', \<not> known ti_id (db_team_invites db) (ti_id r)),
      (UniqueViolation ''team_invites_digest_unique'',
        \<not> known ti_token_digest (db_team_invites db) (ti_token_digest r)),
      (UniqueViolation ''team_invites_generation_unique'',
        \<not> known (\<lambda>i. (ti_team_id i, ti_generation i)) (db_team_invites db) (ti_team_id r, ti_generation r)),
      (UniqueViolation ''team_invites_single_current_unique'',
        ti_revoked_at r = None \<longrightarrow>
          filter (\<lambda>i. ti_team_id i = ti_team_id r \<and> ti_revoked_at i = None) (db_team_invites db) = []),
      (ForeignKeyViolation ''team_invites_team_id'', known te_id (db_teams db) (ti_team_id r)),
      (ForeignKeyViolation ''team_invites_created_by'', known us_id (db_users db) (ti_created_by r))])
    (\<lambda>_. Inr (db\<lparr>db_team_invites := db_team_invites db @ [r]\<rparr>))"

text \<open>\<open>assert_team_has_one_captain\<close> for a team whose row or members the transaction changed.\<close>

definition commit_team :: "uuid \<Rightarrow> database \<Rightarrow> pg_error + database" where
  "commit_team teamId db =
     (if known te_id (db_teams db) teamId \<and> length (captains db teamId) \<noteq> 1
      then Inl (CheckViolation ''assert_team_has_one_captain'') else Inr db)"

section \<open>Reading\<close>

definition readLocks :: "tx_env \<Rightarrow> database \<Rightarrow> uuid \<Rightarrow> team_lock_record list" where
  "readLocks env db teamId =
     map (\<lambda>c. \<lparr>tl_id = co_id c, tl_title = co_title c, tl_startAt = co_start_at c, tl_endAt = co_end_at c\<rparr>)
       (sort_key (\<lambda>c. (co_end_at c, co_id c))
         (concat (map (\<lambda>p. filter (\<lambda>c. co_id c = pa_contest_id p
             \<and> derive_contest_time_phase (co_start_at c) (co_end_at c) (env_now env) \<noteq> Ended) (db_contests db))
           (filter (\<lambda>p. pa_team_id p = teamId \<and> pa_status p = Accepted) (db_participations db)))))"

definition readTeam :: "tx_env \<Rightarrow> database \<Rightarrow> uuid \<Rightarrow> team_error + team_record" where
  "readTeam env db teamId =
     (case find (\<lambda>t. te_id t = teamId) (db_teams db) of
        None \<Rightarrow> Inl TeamNotFound
      | Some team \<Rightarrow>
          Inr \<lparr>tr_id = te_id team, tr_name = te_name team, tr_version = te_version team,
               tr_members = concat (map (\<lambda>m. map (\<lambda>u. \<lparr>mr_userId = tm_user_id m,
                     mr_username = us_username u, mr_role = tm_role m, mr_joinedAt = tm_joined_at m\<rparr>)
                   (filter (\<lambda>u. us_id u = tm_user_id m) (db_users db)))
                 (sort_key (\<lambda>m. (tm_joined_at m, tm_id m))
                   (filter (\<lambda>m. tm_team_id m = teamId) (db_team_members db)))),
               tr_locks = readLocks env db teamId\<rparr>)"

definition findByUser :: "tx_env \<Rightarrow> database \<Rightarrow> uuid \<Rightarrow> team_error + team_record option" where
  "findByUser env db userId =
     (case find (\<lambda>m. tm_user_id m = userId) (db_team_members db) of
        None \<Rightarrow> Inr None
      | Some m \<Rightarrow> ebind (readTeam env db (tm_team_id m)) (\<lambda>t. Inr (Some t)))"

definition findTeamForUser :: "database \<Rightarrow> uuid \<Rightarrow> team_error + uuid" where
  "findTeamForUser db userId =
     (case find (\<lambda>m. tm_user_id m = userId) (db_team_members db) of
        None \<Rightarrow> Inl TeamNotFound | Some m \<Rightarrow> Inr (tm_team_id m))"

definition lockTeam :: "tx_env \<Rightarrow> database \<Rightarrow> uuid \<Rightarrow> team_error + team_lock_record list" where
  "lockTeam env db teamId =
     (if \<not> known te_id (db_teams db) teamId then Inl TeamNotFound else Inr (readLocks env db teamId))"

definition requireUnlockedTeam :: "tx_env \<Rightarrow> database \<Rightarrow> uuid \<Rightarrow> team_error + unit" where
  "requireUnlockedTeam env db teamId =
     ebind (lockTeam env db teamId) (\<lambda>locks. if locks \<noteq> [] then Inl (TeamLocked locks) else Inr ())"

definition memberOf :: "database \<Rightarrow> uuid \<Rightarrow> uuid \<Rightarrow> team_member_row option" where
  "memberOf db teamId userId =
     find (\<lambda>m. tm_team_id m = teamId \<and> tm_user_id m = userId) (db_team_members db)"

definition requireCaptain :: "tx_env \<Rightarrow> database \<Rightarrow> uuid \<Rightarrow> bool \<Rightarrow> team_error + uuid" where
  "requireCaptain env db userId requireUnlocked =
     ebind (findTeamForUser db userId) (\<lambda>teamId.
     ebind (lockTeam env db teamId) (\<lambda>locks.
     if requireUnlocked \<and> locks \<noteq> [] then Inl (TeamLocked locks)
     else (case memberOf db teamId userId of
         None \<Rightarrow> Inl TeamNotFound
       | Some m \<Rightarrow> if tm_role m \<noteq> Captain then Inl TeamForbidden else Inr teamId)))"

section \<open>Writing\<close>

definition incrementVersion :: "tx_env \<Rightarrow> uuid \<Rightarrow> database \<Rightarrow> database" where
  "incrementVersion env teamId db = db\<lparr>db_teams := map (\<lambda>t. if te_id t = teamId
     then t\<lparr>te_version := te_version t + 1, te_updated_at := env_now env\<rparr> else t) (db_teams db)\<rparr>"

definition assignCaptain :: "uuid \<Rightarrow> uuid \<Rightarrow> database \<Rightarrow> database" where
  "assignCaptain teamId memberId db =
     (let demoted = map (\<lambda>m. if tm_team_id m = teamId \<and> tm_role m = Captain
            then m\<lparr>tm_role := Member\<rparr> else m) (db_team_members db)
      in db\<lparr>db_team_members := map (\<lambda>m. if tm_team_id m = teamId \<and> tm_user_id m = memberId
            then m\<lparr>tm_role := Captain\<rparr> else m) demoted\<rparr>)"

definition deleteMember :: "uuid \<Rightarrow> uuid \<Rightarrow> database \<Rightarrow> database" where
  "deleteMember teamId userId db = db\<lparr>db_team_members :=
     filter (\<lambda>m. \<not> (tm_team_id m = teamId \<and> tm_user_id m = userId)) (db_team_members db)\<rparr>"

text \<open>The private \<open>transaction\<close> wrapper: a unique violation becomes a conflict when asked for.\<close>

definition team_transaction :: "bool \<Rightarrow> team_error + 'a \<Rightarrow> team_error + 'a" where
  "team_transaction mapUniqueViolation result =
     (case result of
        Inl (TeamDatabaseError (UniqueViolation c)) \<Rightarrow>
          if mapUniqueViolation then Inl TeamConflict else result
      | _ \<Rightarrow> result)"

definition create_team ::
  "tx_env \<Rightarrow> string \<Rightarrow> string \<Rightarrow> uuid \<Rightarrow> bytes \<Rightarrow> string \<Rightarrow> database
    \<Rightarrow> team_error + (created_team \<times> database)" where
  "create_team env name normalizedName captainId inviteDigest inviteCode db =
     team_transaction True (
       let teamId = env_uuid env 0 in
       ebind (tpg (insert_team \<lparr>te_id = teamId, te_name = name, te_name_normalized = normalizedName,
          te_created_by = captainId, te_version = 1, te_updated_at = env_now env\<rparr> db)) (\<lambda>db1.
       ebind (tpg (insert_team_member \<lparr>tm_id = env_uuid env 1, tm_team_id = teamId,
          tm_user_id = captainId, tm_role = Captain, tm_joined_at = env_now env\<rparr> db1)) (\<lambda>db2.
       ebind (tpg (insert_team_invite \<lparr>ti_id = env_uuid env 2, ti_team_id = teamId,
          ti_token_digest = inviteDigest, ti_generation = 1, ti_created_by = captainId,
          ti_expires_at = None, ti_revoked_at = None, ti_created_at = env_now env\<rparr> db2)) (\<lambda>db3.
       ebind (readTeam env db3 teamId) (\<lambda>team.
       ebind (tpg (commit_team teamId db3)) (\<lambda>db4.
       Inr (\<lparr>crt_team = team, crt_inviteCode = inviteCode\<rparr>, db4)))))))"

definition usable_invite :: "tx_env \<Rightarrow> bytes \<Rightarrow> team_invite_row \<Rightarrow> bool" where
  "usable_invite env inviteDigest i \<longleftrightarrow> ti_token_digest i = inviteDigest \<and> ti_revoked_at i = None
     \<and> (case ti_expires_at i of None \<Rightarrow> True | Some t \<Rightarrow> env_now env < t)"

definition join_team ::
  "tx_env \<Rightarrow> uuid \<Rightarrow> bytes \<Rightarrow> database \<Rightarrow> team_error + (team_record \<times> database)" where
  "join_team env userId inviteDigest db =
     team_transaction True (
       case find (usable_invite env inviteDigest) (db_team_invites db) of
         None \<Rightarrow> Inl TeamInviteInvalid
       | Some located \<Rightarrow>
       let teamId = ti_team_id located in
       ebind (requireUnlockedTeam env db teamId) (\<lambda>_.
       if find (\<lambda>i. ti_team_id i = teamId \<and> usable_invite env inviteDigest i) (db_team_invites db) = None
       then Inl TeamInviteInvalid
       else
       ebind (tpg (insert_team_member \<lparr>tm_id = env_uuid env 0, tm_team_id = teamId, tm_user_id = userId,
          tm_role = Member, tm_joined_at = env_now env\<rparr> db)) (\<lambda>db1.
       let db2 = incrementVersion env teamId db1 in
       ebind (readTeam env db2 teamId) (\<lambda>team.
       ebind (tpg (commit_team teamId db2)) (\<lambda>db3. Inr (team, db3))))))"

definition leave_team :: "tx_env \<Rightarrow> uuid \<Rightarrow> database \<Rightarrow> team_error + (unit \<times> database)" where
  "leave_team env userId db =
     ebind (findTeamForUser db userId) (\<lambda>located.
     ebind (requireUnlockedTeam env db located) (\<lambda>_.
     case memberOf db located userId of
       None \<Rightarrow> Inl TeamNotFound
     | Some m \<Rightarrow>
         if tm_role m = Captain then Inl TeamForbidden
         else ebind (tpg (commit_team located
                (incrementVersion env located (deleteMember located userId db)))) (\<lambda>db1. Inr ((), db1))))"

definition removeMember :: "tx_env \<Rightarrow> uuid \<Rightarrow> uuid \<Rightarrow> database \<Rightarrow> team_error + (unit \<times> database)" where
  "removeMember env actorId memberId db =
     ebind (requireCaptain env db actorId True) (\<lambda>teamId.
     case memberOf db teamId memberId of
       None \<Rightarrow> Inl TeamNotFound
     | Some m \<Rightarrow>
         if tm_role m = Captain then Inl TeamForbidden
         else ebind (tpg (commit_team teamId
                (incrementVersion env teamId (deleteMember teamId memberId db)))) (\<lambda>db1. Inr ((), db1)))"

definition next_generation :: "database \<Rightarrow> uuid \<Rightarrow> int" where
  "next_generation db teamId =
     (case map ti_generation (filter (\<lambda>i. ti_team_id i = teamId) (db_team_invites db)) of
        [] \<Rightarrow> 1 | g # gs \<Rightarrow> foldl max g gs + 1)"

definition revoke_invites :: "tx_env \<Rightarrow> uuid \<Rightarrow> database \<Rightarrow> pg_error + database" where
  "revoke_invites env teamId db =
     (let current = (\<lambda>i. ti_team_id i = teamId \<and> ti_revoked_at i = None) in
      if \<exists>i\<in>set (db_team_invites db). current i \<and> env_now env < ti_created_at i
      then Inl (CheckViolation ''team_invites_revocation_check'')
      else Inr (db\<lparr>db_team_invites := map (\<lambda>i. if current i
        then i\<lparr>ti_revoked_at := Some (env_now env)\<rparr> else i) (db_team_invites db)\<rparr>))"

definition rotateInvite ::
  "tx_env \<Rightarrow> uuid \<Rightarrow> bytes \<Rightarrow> string \<Rightarrow> database \<Rightarrow> team_error + (string \<times> database)" where
  "rotateInvite env actorId inviteDigest inviteCode db =
     team_transaction True (
       ebind (requireCaptain env db actorId False) (\<lambda>teamId.
       let generation = next_generation db teamId in
       ebind (tpg (revoke_invites env teamId db)) (\<lambda>db1.
       ebind (tpg (insert_team_invite \<lparr>ti_id = env_uuid env 0, ti_team_id = teamId,
          ti_token_digest = inviteDigest, ti_generation = generation, ti_created_by = actorId,
          ti_expires_at = None, ti_revoked_at = None, ti_created_at = env_now env\<rparr> db1)) (\<lambda>db2.
       ebind (tpg (commit_team teamId (incrementVersion env teamId db2))) (\<lambda>db3.
       Inr (inviteCode, db3))))))"

definition transferCaptain :: "tx_env \<Rightarrow> uuid \<Rightarrow> uuid \<Rightarrow> database \<Rightarrow> team_error + (unit \<times> database)" where
  "transferCaptain env actorId memberId db =
     ebind (requireCaptain env db actorId True) (\<lambda>teamId.
     if actorId = memberId then Inl TeamForbidden
     else if memberOf db teamId memberId = None then Inl TeamNotFound
     else ebind (tpg (commit_team teamId
            (incrementVersion env teamId (assignCaptain teamId memberId db)))) (\<lambda>db1. Inr ((), db1)))"

fun operation_text :: "correction_operation \<Rightarrow> string" where
  "operation_text AddMember = ''add_member''"
| "operation_text RemoveMember = ''remove_member''"
| "operation_text TransferCaptain = ''transfer_captain''"

definition eligible_user :: "user_row \<Rightarrow> bool" where
  "eligible_user u \<longleftrightarrow> us_status u = Active \<and> us_email_verified_at u \<noteq> None \<and> \<not> us_must_change_password u"

definition correction_change ::
  "tx_env \<Rightarrow> team_correction_command \<Rightarrow> database \<Rightarrow> team_error + database" where
  "correction_change env command db =
     (case tcc_operation command of
        AddMember \<Rightarrow>
          if find (\<lambda>u. us_id u = tcc_targetUserId command \<and> eligible_user u) (db_users db) = None
          then Inl TeamMemberIneligible
          else tpg (insert_team_member \<lparr>tm_id = env_uuid env 0, tm_team_id = tcc_teamId command,
                 tm_user_id = tcc_targetUserId command, tm_role = Member, tm_joined_at = env_now env\<rparr> db)
      | RemoveMember \<Rightarrow>
          (case memberOf db (tcc_teamId command) (tcc_targetUserId command) of
             None \<Rightarrow> Inl TeamNotFound
           | Some m \<Rightarrow> if tm_role m = Captain then Inl TeamForbidden
                       else Inr (deleteMember (tcc_teamId command) (tcc_targetUserId command) db))
      | TransferCaptain \<Rightarrow>
          (case memberOf db (tcc_teamId command) (tcc_targetUserId command) of
             None \<Rightarrow> Inl TeamNotFound
           | Some m \<Rightarrow> if tm_role m = Captain then Inl TeamForbidden
                       else Inr (assignCaptain (tcc_teamId command) (tcc_targetUserId command) db)))"

definition correctMembership ::
  "tx_env \<Rightarrow> team_correction_command \<Rightarrow> database \<Rightarrow> team_error + (team_record \<times> database)" where
  "correctMembership env command db =
     team_transaction True (
       ebind (lockTeam env db (tcc_teamId command)) (\<lambda>locks.
       ebind (correction_change env command db) (\<lambda>db1.
       let db2 = incrementVersion env (tcc_teamId command) db1 in
       ebind (tpg (insert_audit_event \<lparr>au_id = env_uuid env 1,
          au_actor_user_id = Some (tcc_actorId command), au_action = ''team.membership.corrected'',
          au_target_type = ''team'', au_target_id = Some (tcc_teamId command),
          au_reason = Some (tcc_reason command), au_request_id = tcc_requestId command,
          au_changes = [(''operation'', JStr (operation_text (tcc_operation command))),
            (''user_id'', JStr (tcc_targetUserId command))],
          au_metadata = [(''locked_contests'', JArr (map (\<lambda>l. JObj [(''id'', JStr (tl_id l)),
            (''title'', JStr (tl_title l))]) locks))],
          au_occurred_at = env_now env\<rparr> db2)) (\<lambda>db3.
       ebind (readTeam env db3 (tcc_teamId command)) (\<lambda>team.
       ebind (tpg (commit_team (tcc_teamId command) db3)) (\<lambda>db4.
       Inr (team, db4)))))))"

end
