(* ===== verification/Team_Invariant.thy ===== *)
theory Team_Invariant
  imports Team_Repository
begin

text \<open>
  What every operation of the team repository keeps: one team per user, one captain per team, one
  current invitation per team; and what a lock on a team protects.
\<close>

section \<open>The invariant\<close>

definition captain_inv :: "database \<Rightarrow> bool" where
  "captain_inv db \<longleftrightarrow> (\<forall>t\<in>te_id ` set (db_teams db). length (captains db t) = 1)"

definition members_inv :: "database \<Rightarrow> bool" where
  "members_inv db \<longleftrightarrow> distinct (map te_id (db_teams db))
     \<and> distinct (map tm_user_id (db_team_members db))
     \<and> tm_team_id ` set (db_team_members db) \<subseteq> te_id ` set (db_teams db)"

definition current_invites :: "database \<Rightarrow> uuid \<Rightarrow> team_invite_row list" where
  "current_invites db teamId =
     filter (\<lambda>i. ti_team_id i = teamId \<and> ti_revoked_at i = None) (db_team_invites db)"

definition invites_inv :: "database \<Rightarrow> bool" where
  "invites_inv db \<longleftrightarrow> distinct (map ti_token_digest (db_team_invites db))
     \<and> (\<forall>t. length (current_invites db t) \<le> 1)"

definition team_inv :: "database \<Rightarrow> bool" where
  "team_inv db \<longleftrightarrow> members_inv db \<and> captain_inv db \<and> invites_inv db"

lemmas team_inv_defs = team_inv_def members_inv_def captain_inv_def invites_inv_def

section \<open>What an operation on one team does\<close>

definition others :: "uuid \<Rightarrow> team_member_row list \<Rightarrow> team_member_row list" where
  "others teamId ms = filter (\<lambda>m. tm_team_id m \<noteq> teamId) ms"

definition members_of :: "uuid \<Rightarrow> team_member_row list \<Rightarrow> team_member_row list" where
  "members_of teamId ms = filter (\<lambda>m. tm_team_id m = teamId) ms"

definition team_effect :: "uuid \<Rightarrow> database \<Rightarrow> database \<Rightarrow> bool" where
  "team_effect teamId db db' \<longleftrightarrow>
     db' = db\<lparr>db_teams := db_teams db', db_team_members := db_team_members db',
       db_team_invites := db_team_invites db', db_audit_events := db_audit_events db'\<rparr>
     \<and> others teamId (db_team_members db') = others teamId (db_team_members db)
     \<and> (map te_id (db_teams db') = map te_id (db_teams db)
        \<or> (map te_id (db_teams db') = map te_id (db_teams db) @ [teamId]
            \<and> teamId \<notin> te_id ` set (db_teams db)))
     \<and> teamId \<in> te_id ` set (db_teams db')
     \<and> length (captains db' teamId) = 1
     \<and> (members_inv db \<longrightarrow> members_inv db')"

lemma captains_others:
  "others t (db_team_members db') = others t (db_team_members db) \<Longrightarrow> x \<noteq> t \<Longrightarrow>
     captains db' x = captains db x"
proof -
  assume o: "others t (db_team_members db') = others t (db_team_members db)" and x: "x \<noteq> t"
  have "captains d x = filter (\<lambda>m. tm_team_id m = x \<and> tm_role m = Captain) (others t (db_team_members d))" for d
    using x by (auto simp: captains_def others_def intro!: filter_cong)
  with o show ?thesis by simp
qed

lemma members_of_others:
  "others t ms' = others t ms \<Longrightarrow> x \<noteq> t \<Longrightarrow> members_of x ms' = members_of x ms"
proof -
  assume o: "others t ms' = others t ms" and x: "x \<noteq> t"
  have "members_of x ns = members_of x (others t ns)" for ns
    using x by (auto simp: members_of_def others_def intro!: filter_cong)
  with o show ?thesis by metis
qed

lemma team_effect_captain_inv:
  assumes "team_effect t db db'" and "captain_inv db"
  shows "captain_inv db'"
  unfolding captain_inv_def
proof
  fix x
  assume x: "x \<in> te_id ` set (db_teams db')"
  from assms(1) have "set (map te_id (db_teams db')) = set (map te_id (db_teams db))
      \<or> set (map te_id (db_teams db')) = set (map te_id (db_teams db) @ [t])"
    unfolding team_effect_def by (elim conjE disjE) (simp_all only: simp_thms)
  then have ids: "te_id ` set (db_teams db') \<subseteq> insert t (te_id ` set (db_teams db))" by auto
  show "length (captains db' x) = 1"
  proof (cases "x = t")
    case True
    then show ?thesis using assms(1) by (simp add: team_effect_def)
  next
    case False
    then have "captains db' x = captains db x"
      using assms(1) by (intro captains_others [of t]) (auto simp: team_effect_def)
    with False ids x assms(2) show ?thesis by (auto simp: captain_inv_def)
  qed
qed

section \<open>Effects of the steps\<close>

lemma tpg_Inr [simp]: "tpg x = Inr y \<longleftrightarrow> x = Inr y"
  by (simp add: tpg_def)

lemma team_transaction_Inr [simp]: "team_transaction b x = Inr y \<longleftrightarrow> x = Inr y"
  by (auto simp: team_transaction_def split: sum.split team_error.split pg_error.split)

lemma commit_team_Inr: "commit_team t db = Inr db' \<Longrightarrow> db' = db \<and>
    (t \<in> te_id ` set (db_teams db) \<longrightarrow> length (captains db t) = 1)"
  by (auto simp: commit_team_def known_def split: if_splits)

lemma insert_team_Inr: "insert_team r db = Inr db' \<Longrightarrow>
    te_id r \<notin> te_id ` set (db_teams db) \<and> db' = db\<lparr>db_teams := db_teams db @ [r]\<rparr>"
  by (simp add: insert_team_def ebind_Inr_iff known_def del: constraints.simps)

lemma insert_team_member_Inr: "insert_team_member r db = Inr db' \<Longrightarrow>
    tm_user_id r \<notin> tm_user_id ` set (db_team_members db) \<and> tm_team_id r \<in> te_id ` set (db_teams db)
    \<and> (tm_role r = Captain \<longrightarrow> captains db (tm_team_id r) = [])
    \<and> db' = db\<lparr>db_team_members := db_team_members db @ [r]\<rparr>"
  by (simp add: insert_team_member_def ebind_Inr_iff known_def del: constraints.simps)

lemma insert_team_invite_Inr: "insert_team_invite r db = Inr db' \<Longrightarrow>
    ti_token_digest r \<notin> ti_token_digest ` set (db_team_invites db)
    \<and> (ti_revoked_at r = None \<longrightarrow> current_invites db (ti_team_id r) = [])
    \<and> db' = db\<lparr>db_team_invites := db_team_invites db @ [r]\<rparr>"
  by (simp add: insert_team_invite_def ebind_Inr_iff known_def current_invites_def del: constraints.simps)

lemma increment_fields [simp]:
  "map te_id (db_teams (incrementVersion env t db)) = map te_id (db_teams db)"
  "db_team_members (incrementVersion env t db) = db_team_members db"
  "db_team_invites (incrementVersion env t db) = db_team_invites db"
  "db_audit_events (incrementVersion env t db) = db_audit_events db"
  "db_users (incrementVersion env t db) = db_users db"
  "captains (incrementVersion env t db) x = captains db x"
  by (simp_all add: incrementVersion_def captains_def)

lemma increment_ids [simp]:
  "te_id ` set (db_teams (incrementVersion env t db)) = te_id ` set (db_teams db)"
  by (metis increment_fields(1) list.set_map)

lemma delete_fields [simp]:
  "db_teams (deleteMember t u db) = db_teams db" "db_team_invites (deleteMember t u db) = db_team_invites db"
  "db_team_members (deleteMember t u db) =
     filter (\<lambda>m. \<not> (tm_team_id m = t \<and> tm_user_id m = u)) (db_team_members db)"
  by (simp_all add: deleteMember_def)

lemma assign_fields [simp]:
  "db_teams (assignCaptain t u db) = db_teams db" "db_team_invites (assignCaptain t u db) = db_team_invites db"
  by (simp_all add: assignCaptain_def Let_def)

lemma others_map:
  assumes "\<And>m. tm_team_id (f m) = tm_team_id m" and "\<And>m. tm_team_id m \<noteq> t \<Longrightarrow> f m = m"
  shows "others t (map f ms) = others t ms"
  by (induction ms) (simp_all add: others_def assms)

lemma assign_keys:
  "map tm_user_id (db_team_members (assignCaptain t u db)) = map tm_user_id (db_team_members db)"
  "map tm_team_id (db_team_members (assignCaptain t u db)) = map tm_team_id (db_team_members db)"
  "others t (db_team_members (assignCaptain t u db)) = others t (db_team_members db)"
  by (simp_all add: assignCaptain_def Let_def comp_def others_map if_distrib cong: if_cong)

text \<open>The generic step: the members of other teams stay, keys and references are kept.\<close>

lemma team_effectI:
  assumes "commit_team t db1 = Inr db'"
    and "db1 = db\<lparr>db_teams := db_teams db1, db_team_members := db_team_members db1,
       db_team_invites := db_team_invites db1, db_audit_events := db_audit_events db1\<rparr>"
    and "others t (db_team_members db1) = others t (db_team_members db)"
    and "map te_id (db_teams db1) = map te_id (db_teams db)
        \<or> (map te_id (db_teams db1) = map te_id (db_teams db) @ [t] \<and> t \<notin> te_id ` set (db_teams db))"
    and "t \<in> te_id ` set (db_teams db1)"
    and "members_inv db \<Longrightarrow> members_inv db1"
  shows "team_effect t db db'"
proof -
  from assms(1) have "db' = db1" "length (captains db1 t) = 1"
    using commit_team_Inr assms(5) by blast+
  then show ?thesis using assms(2-6) unfolding team_effect_def by blast
qed

lemma increment_frame:
  assumes "db1 = db\<lparr>db_teams := db_teams db1, db_team_members := db_team_members db1,
       db_team_invites := db_team_invites db1, db_audit_events := db_audit_events db1\<rparr>"
  shows "incrementVersion env t db1 = db\<lparr>db_teams := db_teams (incrementVersion env t db1),
       db_team_members := db_team_members (incrementVersion env t db1),
       db_team_invites := db_team_invites (incrementVersion env t db1),
       db_audit_events := db_audit_events (incrementVersion env t db1)\<rparr>"
  using assms by (cases db; cases db1) (simp add: incrementVersion_def)

lemma members_inv_insert:
  assumes "members_inv db" and "insert_team_member r db = Inr db'"
  shows "members_inv db'"
  using assms(1) insert_team_member_Inr [OF assms(2)] by (auto simp: members_inv_def)

lemma members_inv_delete: "members_inv db \<Longrightarrow> members_inv (deleteMember t u db)"
  by (auto simp: members_inv_def distinct_map_filter)

lemma members_inv_assign:
  assumes "members_inv db" shows "members_inv (assignCaptain t u db)"
proof -
  have "tm_team_id ` set (db_team_members (assignCaptain t u db)) = tm_team_id ` set (db_team_members db)"
    using arg_cong [OF assign_keys(2), of set] by simp
  then show ?thesis using assms by (simp add: members_inv_def assign_keys(1))
qed

lemma members_inv_increment [simp]: "members_inv (incrementVersion env t db) = members_inv db"
  by (simp add: members_inv_def)

lemma lock_Inr: "lockTeam env db t = Inr l \<Longrightarrow> known te_id (db_teams db) t \<and> l = readLocks env db t"
  by (auto simp: lockTeam_def split: if_splits)

lemma unlocked_Inr: "requireUnlockedTeam env db t = Inr u \<Longrightarrow>
    known te_id (db_teams db) t \<and> readLocks env db t = []"
  by (auto simp: requireUnlockedTeam_def ebind_Inr_iff dest: lock_Inr split: if_splits)

lemma requireCaptain_Inr: "requireCaptain env db u b = Inr t \<Longrightarrow>
    known te_id (db_teams db) t \<and> (b \<longrightarrow> readLocks env db t = [])
    \<and> (\<exists>m. memberOf db t u = Some m \<and> tm_role m = Captain)"
  by (auto simp: requireCaptain_def ebind_Inr_iff dest!: lock_Inr split: if_splits option.splits)

lemma create_team_effect:
  assumes "create_team env name nname captain digest code db = Inr (r, db')"
  shows "team_effect (env_uuid env 0) db db' \<and> env_uuid env 0 \<notin> te_id ` set (db_teams db)"
proof -
  let ?t = "env_uuid env 0"
  from assms obtain row m i db1 db2 db3 where
    1: "insert_team row db = Inr db1" "te_id row = ?t"
    and 2: "insert_team_member m db1 = Inr db2" "tm_team_id m = ?t"
    and 3: "insert_team_invite i db2 = Inr db3"
    and c: "commit_team ?t db3 = Inr db'"
    by (auto simp: create_team_def Let_def ebind_Inr_iff)
  note eqs = insert_team_Inr [OF 1(1)] insert_team_member_Inr [OF 2(1)] insert_team_invite_Inr [OF 3]
  have "team_effect ?t db db'"
  proof (rule team_effectI [OF c])
    show "members_inv db3" if "members_inv db"
    proof -
      have "members_inv db1" using that eqs(1) by (auto simp: members_inv_def)
      then have "members_inv db2" using 2(1) by (rule members_inv_insert)
      then show ?thesis using eqs(3) by (simp add: members_inv_def)
    qed
  qed (use eqs 1(2) 2(2) in \<open>simp_all add: others_def\<close>)
  with eqs(1) 1(2) show ?thesis by simp
qed

lemma join_team_effect:
  assumes "join_team env user digest db = Inr (r, db')"
  shows "\<exists>t. team_effect t db db' \<and> readLocks env db t = []"
proof -
  from assms obtain t m db1 where
    u: "known te_id (db_teams db) t" "readLocks env db t = []"
    and i: "insert_team_member m db = Inr db1" "tm_team_id m = t"
    and c: "commit_team t (incrementVersion env t db1) = Inr db'"
    by (auto simp: join_team_def Let_def ebind_Inr_iff dest!: unlocked_Inr split: option.splits if_splits)
  note eq = insert_team_member_Inr [OF i(1)]
  have "team_effect t db db'"
  proof (rule team_effectI [OF c])
    show "members_inv (incrementVersion env t db1)" if "members_inv db"
      using members_inv_insert [OF that i(1)] by simp
  qed (rule increment_frame, use eq i(2) u(1) in \<open>simp_all add: others_def known_def\<close>)
  with u(2) show ?thesis by blast
qed

lemma delete_effect:
  assumes "commit_team t (incrementVersion env t (deleteMember t u db)) = Inr db'"
    and "known te_id (db_teams db) t"
  shows "team_effect t db db'"
proof (rule team_effectI [OF assms(1)])
  show "others t (db_team_members (incrementVersion env t (deleteMember t u db))) = others t (db_team_members db)"
    by (auto simp: others_def intro!: filter_cong)
  show "incrementVersion env t (deleteMember t u db) =
    db\<lparr>db_teams := db_teams (incrementVersion env t (deleteMember t u db)),
       db_team_members := db_team_members (incrementVersion env t (deleteMember t u db)),
       db_team_invites := db_team_invites (incrementVersion env t (deleteMember t u db)),
       db_audit_events := db_audit_events (incrementVersion env t (deleteMember t u db))\<rparr>"
    by (simp add: incrementVersion_def deleteMember_def)
qed (use assms(2) members_inv_delete in \<open>simp_all add: known_def\<close>)

lemma assign_effect:
  assumes "commit_team t (incrementVersion env t (assignCaptain t u db)) = Inr db'"
    and "known te_id (db_teams db) t"
  shows "team_effect t db db'"
proof (rule team_effectI [OF assms(1)])
  show "incrementVersion env t (assignCaptain t u db) =
    db\<lparr>db_teams := db_teams (incrementVersion env t (assignCaptain t u db)),
       db_team_members := db_team_members (incrementVersion env t (assignCaptain t u db)),
       db_team_invites := db_team_invites (incrementVersion env t (assignCaptain t u db)),
       db_audit_events := db_audit_events (incrementVersion env t (assignCaptain t u db))\<rparr>"
    by (simp add: incrementVersion_def assignCaptain_def Let_def)
qed (use assms(2) members_inv_assign assign_keys(3) in \<open>simp_all add: known_def\<close>)

lemma leave_team_effect:
  assumes "leave_team env user db = Inr (r, db')"
  shows "\<exists>t. team_effect t db db' \<and> readLocks env db t = []"
  using assms by (auto simp: leave_team_def ebind_Inr_iff dest!: unlocked_Inr delete_effect
      split: option.splits if_splits)

lemma removeMember_effect:
  assumes "removeMember env actor member db = Inr (r, db')"
  shows "\<exists>t. team_effect t db db' \<and> readLocks env db t = []"
  using assms by (auto simp: removeMember_def ebind_Inr_iff dest!: requireCaptain_Inr delete_effect
      split: option.splits if_splits)

lemma transferCaptain_effect:
  assumes "transferCaptain env actor member db = Inr (r, db')"
  shows "\<exists>t. team_effect t db db' \<and> readLocks env db t = []"
  using assms by (auto simp: transferCaptain_def ebind_Inr_iff dest!: requireCaptain_Inr assign_effect
      split: option.splits if_splits)

lemma rotateInvite_effect:
  assumes "rotateInvite env actor digest code db = Inr (r, db')"
  shows "\<exists>t. team_effect t db db' \<and> db_team_members db' = db_team_members db"
proof -
  from assms obtain t i db1 db2 where
    t: "known te_id (db_teams db) t"
    and rev: "revoke_invites env t db = Inr db1"
    and ins: "insert_team_invite i db1 = Inr db2"
    and c: "commit_team t (incrementVersion env t db2) = Inr db'"
    by (auto simp: rotateInvite_def Let_def ebind_Inr_iff dest!: requireCaptain_Inr)
  from rev obtain rows where db1: "db1 = db\<lparr>db_team_invites := rows\<rparr>"
    by (auto simp: revoke_invites_def Let_def split: if_splits)
  note eq = insert_team_invite_Inr [OF ins]
  have "team_effect t db db'"
  proof (rule team_effectI [OF c])
    show "members_inv (incrementVersion env t db2)" if "members_inv db"
      using that eq db1 by (simp add: members_inv_def)
  qed (rule increment_frame, use eq db1 t in \<open>simp_all add: known_def\<close>)
  moreover have "db_team_members db' = db_team_members db"
    using commit_team_Inr [OF c] eq db1 by simp
  ultimately show ?thesis by blast
qed

lemma correction_change_Inr:
  assumes "correction_change env command db = Inr db1" and "t = tcc_teamId command"
  shows "(\<exists>m. insert_team_member m db = Inr db1 \<and> tm_team_id m = t)
    \<or> db1 = deleteMember t (tcc_targetUserId command) db
    \<or> db1 = assignCaptain t (tcc_targetUserId command) db"
  using assms by (auto simp: correction_change_def split: correction_operation.splits option.splits if_splits)

definition roster_frame :: "uuid \<Rightarrow> database \<Rightarrow> database \<Rightarrow> bool" where
  "roster_frame t db db1 \<longleftrightarrow> db1 = db\<lparr>db_team_members := db_team_members db1\<rparr>
     \<and> others t (db_team_members db1) = others t (db_team_members db)
     \<and> (members_inv db \<longrightarrow> members_inv db1)"

lemma insert_frame:
  assumes "insert_team_member m db = Inr db1" and "tm_team_id m = t"
  shows "roster_frame t db db1"
  using insert_team_member_Inr [OF assms(1)] members_inv_insert [OF _ assms(1)] assms(2)
  by (simp add: roster_frame_def others_def)

lemma delete_frame: "roster_frame t db (deleteMember t u db)"
  using members_inv_delete [of db t u]
  by (auto simp: roster_frame_def others_def deleteMember_def intro!: filter_cong)

lemma assign_frame: "roster_frame t db (assignCaptain t u db)"
  using members_inv_assign [of db t u] assign_keys(3) [of t u db]
  by (simp add: roster_frame_def assignCaptain_def Let_def)

lemma correctMembership_effect:
  assumes "correctMembership env command db = Inr (r, db')"
  shows "team_effect (tcc_teamId command) db db' \<and> db_team_invites db' = db_team_invites db"
proof -
  let ?t = "tcc_teamId command" and ?u = "tcc_targetUserId command"
  from assms obtain db1 e db3 where
    t: "known te_id (db_teams db) ?t"
    and ch: "correction_change env command db = Inr db1"
    and au: "insert_audit_event e (incrementVersion env ?t db1) = Inr db3"
    and c: "commit_team ?t db3 = Inr db'"
    by (auto simp: correctMembership_def Let_def ebind_Inr_iff dest!: lock_Inr)
  have db3: "db3 = (incrementVersion env ?t db1)\<lparr>db_audit_events := db_audit_events db3\<rparr>"
    using insert_audit_event_Inr [OF au] by simp
  have fields: "db_team_members db3 = db_team_members db1" "db_team_invites db3 = db_team_invites db1"
    "map te_id (db_teams db3) = map te_id (db_teams db1)"
    by (subst db3; simp)+
  have "roster_frame ?t db db1"
    using correction_change_Inr [OF ch refl] insert_frame delete_frame assign_frame by blast
  then have 1: "db1 = db\<lparr>db_team_members := db_team_members db1\<rparr>"
    and 2: "others ?t (db_team_members db1) = others ?t (db_team_members db)"
    and 3: "members_inv db \<Longrightarrow> members_inv db1"
    by (simp_all add: roster_frame_def)
  have teams: "db_teams db1 = db_teams db" "db_team_invites db1 = db_team_invites db"
    by (subst 1; simp)+
  have "team_effect ?t db db'"
  proof (rule team_effectI [OF c])
    show "db3 = db\<lparr>db_teams := db_teams db3, db_team_members := db_team_members db3,
       db_team_invites := db_team_invites db3, db_audit_events := db_audit_events db3\<rparr>"
      using db3 1 by (cases db; cases db1; cases db3) (simp add: incrementVersion_def)
    show "members_inv db3" if "members_inv db"
      using 3 [OF that] fields by (simp add: members_inv_def) (metis list.set_map)
    show "?t \<in> te_id ` set (db_teams db3)"
      using t fields(3) teams unfolding known_def by (metis list.set_map)
  qed (simp_all add: fields teams 2)
  moreover have "db_team_invites db' = db_team_invites db"
    using commit_team_Inr [OF c] fields teams by simp
  ultimately show ?thesis by blast
qed

section \<open>The operations as steps\<close>

text \<open>What users do to their own team, and what an administrator may do to any team.\<close>

inductive member_step :: "tx_env \<Rightarrow> database \<Rightarrow> database \<Rightarrow> bool" for env :: tx_env where
  create: "create_team env name nname captain digest code db = Inr (r, db') \<Longrightarrow> member_step env db db'"
| join: "join_team env user digest db = Inr (r', db') \<Longrightarrow> member_step env db db'"
| leave: "leave_team env user db = Inr (u, db') \<Longrightarrow> member_step env db db'"
| remove: "removeMember env actor member db = Inr (u, db') \<Longrightarrow> member_step env db db'"
| rotate: "rotateInvite env actor digest code db = Inr (s, db') \<Longrightarrow> member_step env db db'"
| transfer: "transferCaptain env actor member db = Inr (u, db') \<Longrightarrow> member_step env db db'"

inductive team_step :: "tx_env \<Rightarrow> database \<Rightarrow> database \<Rightarrow> bool" for env :: tx_env where
  member: "member_step env db db' \<Longrightarrow> team_step env db db'"
| correct: "correctMembership env command db = Inr (r, db') \<Longrightarrow> team_step env db db'"

lemma member_step_effect:
  assumes "member_step env db db'"
  shows "\<exists>t. team_effect t db db' \<and> (t \<notin> te_id ` set (db_teams db) \<or> readLocks env db t = []
    \<or> db_team_members db' = db_team_members db)"
  using assms
  by cases (blast dest: create_team_effect join_team_effect leave_team_effect removeMember_effect
      rotateInvite_effect transferCaptain_effect)+

lemma team_step_effect: "team_step env db db' \<Longrightarrow> \<exists>t. team_effect t db db'"
  by (erule team_step.cases) (blast dest: member_step_effect correctMembership_effect)+

section \<open>Invitations\<close>

definition revoke_row :: "tx_env \<Rightarrow> uuid \<Rightarrow> team_invite_row \<Rightarrow> team_invite_row" where
  "revoke_row env t i = (if ti_team_id i = t \<and> ti_revoked_at i = None
     then i\<lparr>ti_revoked_at := Some (env_now env)\<rparr> else i)"

lemma revoke_row_keys [simp]: "ti_token_digest (revoke_row env t i) = ti_token_digest i"
  "ti_team_id (revoke_row env t i) = ti_team_id i"
  by (simp_all add: revoke_row_def)

lemma revoke_invites_Inr:
  "revoke_invites env t db = Inr db' \<Longrightarrow> db' = db\<lparr>db_team_invites := map (revoke_row env t) (db_team_invites db)\<rparr>"
  by (auto simp: revoke_invites_def revoke_row_def Let_def split: if_splits)

lemma current_revoked:
  "current_invites (db\<lparr>db_team_invites := map (revoke_row env t) rows\<rparr>) x =
     (if x = t then [] else current_invites (db\<lparr>db_team_invites := rows\<rparr>) x)"
  by (induction rows) (auto simp: current_invites_def revoke_row_def)

lemma rotateInvite_rows:
  assumes "rotateInvite env actor digest code db = Inr (r, db')"
  shows "\<exists>t i. ti_team_id i = t \<and> ti_token_digest i = digest \<and> ti_revoked_at i = None
    \<and> digest \<notin> ti_token_digest ` set (db_team_invites db)
    \<and> (\<exists>m. memberOf db t actor = Some m \<and> tm_role m = Captain)
    \<and> db_team_invites db' = map (revoke_row env t) (db_team_invites db) @ [i]"
proof -
  from assms obtain t g db1 db2 where
    cap: "requireCaptain env db actor False = Inr t"
    and rev: "revoke_invites env t db = Inr db1"
    and ins: "insert_team_invite \<lparr>ti_id = env_uuid env 0, ti_team_id = t, ti_token_digest = digest,
          ti_generation = g, ti_created_by = actor, ti_expires_at = None, ti_revoked_at = None,
          ti_created_at = env_now env\<rparr> db1 = Inr db2" (is "insert_team_invite ?i db1 = _")
    and c: "commit_team t (incrementVersion env t db2) = Inr db'"
    by (auto simp: rotateInvite_def Let_def ebind_Inr_iff)
  have t: "\<exists>m. memberOf db t actor = Some m \<and> tm_role m = Captain"
    using requireCaptain_Inr [OF cap] by simp
  have "db_team_invites db' = map (revoke_row env t) (db_team_invites db) @ [?i]"
    using commit_team_Inr [OF c] insert_team_invite_Inr [OF ins] revoke_invites_Inr [OF rev] by simp
  moreover have "digest \<notin> ti_token_digest ` set (db_team_invites db)"
    using insert_team_invite_Inr [OF ins] revoke_invites_Inr [OF rev] by (simp add: image_image)
  ultimately show ?thesis using t by (intro exI [of _ t] exI [of _ ?i]) simp
qed

lemma add_invite_inv:
  assumes "invites_inv db" and "insert_team_invite i db = Inr db'"
  shows "invites_inv db'"
proof -
  note eq = insert_team_invite_Inr [OF assms(2)]
  have "length (current_invites db' t) \<le> 1" for t
    using assms(1) eq by (auto simp: invites_inv_def current_invites_def)
  then show ?thesis using assms(1) eq by (simp add: invites_inv_def)
qed

lemma member_step_invites:
  assumes "member_step env db db'" and "invites_inv db"
  shows "invites_inv db'"
  using assms(1)
proof cases
  case (create name nname captain digest code r)
  then obtain row m i db1 db2 db3 where
    "insert_team row db = Inr db1" "insert_team_member m db1 = Inr db2"
    and 3: "insert_team_invite i db2 = Inr db3" and c: "commit_team (env_uuid env 0) db3 = Inr db'"
    by (auto simp: create_team_def Let_def ebind_Inr_iff)
  then have "db_team_invites db2 = db_team_invites db"
    using insert_team_Inr insert_team_member_Inr by fastforce
  then have "invites_inv db2" using assms(2) by (simp add: invites_inv_def current_invites_def)
  then show ?thesis using add_invite_inv [OF _ 3] commit_team_Inr [OF c] by simp
next
  case (rotate actor digest code s)
  then obtain t i db1 db2 where rev: "revoke_invites env t db = Inr db1"
    and ins: "insert_team_invite i db1 = Inr db2"
    and c: "commit_team t (incrementVersion env t db2) = Inr db'"
    by (auto simp: rotateInvite_def Let_def ebind_Inr_iff)
  have "invites_inv db1" unfolding revoke_invites_Inr [OF rev]
    using assms(2) by (auto simp: invites_inv_def current_revoked comp_def)
  then have "invites_inv db2" using ins by (rule add_invite_inv)
  then show ?thesis using commit_team_Inr [OF c] by (simp add: invites_inv_def current_invites_def)
next
  case (join user digest r')
  then show ?thesis using assms(2)
    by (auto simp: join_team_def Let_def ebind_Inr_iff invites_inv_def current_invites_def
        dest!: commit_team_Inr insert_team_member_Inr split: option.splits if_splits)
next
  case (leave user u)
  then show ?thesis using assms(2)
    by (auto simp: leave_team_def ebind_Inr_iff invites_inv_def current_invites_def
        dest!: commit_team_Inr split: option.splits if_splits)
next
  case (remove actor member u)
  then show ?thesis using assms(2)
    by (auto simp: removeMember_def ebind_Inr_iff invites_inv_def current_invites_def
        dest!: commit_team_Inr split: option.splits if_splits)
next
  case (transfer actor member u)
  then show ?thesis using assms(2)
    by (auto simp: transferCaptain_def ebind_Inr_iff invites_inv_def current_invites_def
        dest!: commit_team_Inr split: option.splits if_splits)
qed

section \<open>The captain trigger never fires\<close>

definition captain_trigger :: pg_error where
  "captain_trigger = CheckViolation ''assert_team_has_one_captain''"

lemma commit_team_Inl: "commit_team t db = Inl e \<Longrightarrow> t \<in> te_id ` set (db_teams db) \<and> length (captains db t) \<noteq> 1"
  by (auto simp: commit_team_def known_def split: if_splits)

lemma ebind_Inl_iff: "ebind x f = Inl e \<longleftrightarrow> x = Inl e \<or> (\<exists>a. x = Inr a \<and> f a = Inl e)"
  by (cases x) auto

lemma inserts_not_trigger [simp]:
  "insert_team r db \<noteq> Inl captain_trigger" "insert_team_member m db \<noteq> Inl captain_trigger"
  "insert_team_invite i db \<noteq> Inl captain_trigger" "insert_audit_event a db \<noteq> Inl captain_trigger"
  "revoke_invites env t db \<noteq> Inl captain_trigger"
  by (auto simp: insert_team_def insert_team_member_def insert_team_invite_def insert_audit_event_def
      revoke_invites_def ebind_Inl_iff captain_trigger_def Let_def dest!: constraints_Inl)

lemma tpg_trigger [simp]:
  "tpg x = Inl (TeamDatabaseError captain_trigger) \<longleftrightarrow> x = Inl captain_trigger"
  by (cases x) (simp_all add: tpg_def)

lemma transaction_trigger [simp]:
  "team_transaction b x = Inl (TeamDatabaseError captain_trigger) \<longleftrightarrow> x = Inl (TeamDatabaseError captain_trigger)"
  by (auto simp: team_transaction_def captain_trigger_def split: sum.split team_error.split pg_error.split)

lemma readings_not_trigger [simp]:
  "readTeam env db t \<noteq> Inl (TeamDatabaseError e)" "findTeamForUser db u \<noteq> Inl (TeamDatabaseError e)"
  "lockTeam env db t \<noteq> Inl (TeamDatabaseError e)" "requireUnlockedTeam env db t \<noteq> Inl (TeamDatabaseError e)"
  "requireCaptain env db u b \<noteq> Inl (TeamDatabaseError e)"
  by (auto simp: readTeam_def findTeamForUser_def lockTeam_def requireUnlockedTeam_def requireCaptain_def
      ebind_Inl_iff split: option.splits)

lemma correction_not_trigger [simp]:
  "correction_change env command db \<noteq> Inl (TeamDatabaseError captain_trigger)"
  by (auto simp: correction_change_def split: correction_operation.splits option.splits)

text \<open>What the changes do to the captains of the team.\<close>

lemma captains_insert:
  assumes "insert_team_member m db = Inr db'"
  shows "captains db' t = captains db t @ (if tm_team_id m = t \<and> tm_role m = Captain then [m] else [])"
  using insert_team_member_Inr [OF assms] by (simp add: captains_def)

lemma captains_teams [simp]: "captains (db\<lparr>db_teams := ts\<rparr>) t = captains db t"
  "captains (db\<lparr>db_team_invites := is\<rparr>) t = captains db t"
  "captains (db\<lparr>db_audit_events := as\<rparr>) t = captains db t"
  by (simp_all add: captains_def)

lemma memberOf_Some: "memberOf db t u = Some m \<Longrightarrow>
    m \<in> set (db_team_members db) \<and> tm_team_id m = t \<and> tm_user_id m = u"
  by (auto simp: memberOf_def find_Some_iff in_set_conv_nth)

lemma one_row_per_user:
  "members_inv db \<Longrightarrow> m \<in> set (db_team_members db) \<Longrightarrow> n \<in> set (db_team_members db) \<Longrightarrow>
     tm_user_id m = tm_user_id n \<Longrightarrow> m = n"
  by (auto simp: members_inv_def distinct_map dest: inj_onD)

lemma captains_delete:
  assumes "members_inv db" and "memberOf db t u = Some m" and "tm_role m \<noteq> Captain"
  shows "captains (deleteMember t u db) t = captains db t"
proof -
  have "\<not> (tm_user_id n = u \<and> tm_role n = Captain)" if "n \<in> set (db_team_members db)" for n
  proof
    assume n: "tm_user_id n = u \<and> tm_role n = Captain"
    with memberOf_Some [OF assms(2)] have "n = m" by (intro one_row_per_user [OF assms(1) that]) simp_all
    with n assms(3) show False by simp
  qed
  then show ?thesis unfolding captains_def delete_fields filter_filter by (intro filter_cong) auto
qed

lemma filter_single:
  "distinct (map f xs) \<Longrightarrow> x \<in> set xs \<Longrightarrow> filter (\<lambda>y. f y = f x) xs = [x]"
  by (induction xs) (auto simp: filter_empty_conv image_iff)

lemma captains_assign:
  assumes "members_inv db" and "memberOf db t u = Some m"
  shows "length (captains (assignCaptain t u db) t) = 1"
proof -
  let ?promote = "\<lambda>m. if tm_team_id m = t \<and> tm_user_id m = u then m\<lparr>tm_role := Captain\<rparr> else m"
  let ?demote = "\<lambda>m. if tm_team_id m = t \<and> tm_role m = Captain then m\<lparr>tm_role := Member\<rparr> else m"
  have count: "length (filter (\<lambda>m. tm_team_id m = t \<and> tm_role m = Captain) (map ?promote (map ?demote ms))) =
      length (filter (\<lambda>m. tm_team_id m = t \<and> tm_user_id m = u) ms)" for ms
    by (induction ms) auto
  have "length (captains (assignCaptain t u db) t) =
      length (filter (\<lambda>m. tm_team_id m = t \<and> tm_user_id m = u) (db_team_members db))"
    using count [of "db_team_members db"]
    by (simp add: captains_def assignCaptain_def Let_def del: map_map length_filter_map)
  also have "filter (\<lambda>m. tm_team_id m = t \<and> tm_user_id m = u) (db_team_members db) =
      filter (\<lambda>n. tm_user_id n = tm_user_id m) (db_team_members db)"
  proof (rule filter_cong [OF refl])
    fix n
    assume n: "n \<in> set (db_team_members db)"
    have "n = m" if "tm_user_id n = u"
      using memberOf_Some [OF assms(2)] that by (intro one_row_per_user [OF assms(1) n]) simp_all
    then show "(tm_team_id n = t \<and> tm_user_id n = u) = (tm_user_id n = tm_user_id m)"
      using memberOf_Some [OF assms(2)] by auto
  qed
  also have "\<dots> = [m]"
    using assms(1) memberOf_Some [OF assms(2)] by (intro filter_single) (auto simp: members_inv_def)
  finally show ?thesis by simp
qed

lemma team_captain: "captain_inv db \<Longrightarrow> known te_id (db_teams db) t \<Longrightarrow> length (captains db t) = 1"
  by (auto simp: captain_inv_def known_def)

lemma create_no_trigger:
  "create_team env name nname captain digest code db \<noteq> Inl (TeamDatabaseError captain_trigger)"
  by (auto simp: create_team_def Let_def ebind_Inl_iff captains_insert
      dest!: commit_team_Inl insert_team_member_Inr insert_team_invite_Inr split: if_splits)
    (auto simp: captains_def)

lemma join_no_trigger:
  "captain_inv db \<Longrightarrow> join_team env user digest db \<noteq> Inl (TeamDatabaseError captain_trigger)"
  by (auto simp: join_team_def Let_def ebind_Inl_iff captains_insert
      dest!: commit_team_Inl unlocked_Inr team_captain split: if_splits option.splits)

lemma delete_no_trigger:
  assumes "members_inv db" and "captain_inv db" and "known te_id (db_teams db) t"
    and "memberOf db t u = Some m" and "tm_role m \<noteq> Captain"
  shows "commit_team t (incrementVersion env t (deleteMember t u db)) \<noteq> Inl e"
  using captains_delete [OF assms(1,4,5)] team_captain [OF assms(2,3)] by (auto dest!: commit_team_Inl)

lemma assign_no_trigger:
  assumes "members_inv db" and "memberOf db t u = Some m"
  shows "commit_team t (incrementVersion env t (assignCaptain t u db)) \<noteq> Inl e"
  using captains_assign [OF assms] by (auto dest!: commit_team_Inl)

lemma leave_no_trigger:
  assumes "members_inv db" and "captain_inv db"
  shows "leave_team env user db \<noteq> Inl (TeamDatabaseError captain_trigger)"
  using assms by (auto simp: leave_team_def ebind_Inl_iff delete_no_trigger dest!: unlocked_Inr split: option.splits)

lemma remove_no_trigger:
  assumes "members_inv db" and "captain_inv db"
  shows "removeMember env actor member db \<noteq> Inl (TeamDatabaseError captain_trigger)"
  using assms by (auto simp: removeMember_def ebind_Inl_iff delete_no_trigger dest!: requireCaptain_Inr split: option.splits)

lemma transfer_no_trigger:
  assumes "members_inv db"
  shows "transferCaptain env actor member db \<noteq> Inl (TeamDatabaseError captain_trigger)"
  using assms by (auto simp: transferCaptain_def ebind_Inl_iff assign_no_trigger)

lemma rotate_no_trigger:
  assumes "captain_inv db"
  shows "rotateInvite env actor digest code db \<noteq> Inl (TeamDatabaseError captain_trigger)"
  using assms by (auto simp: rotateInvite_def Let_def ebind_Inl_iff
      dest!: commit_team_Inl requireCaptain_Inr insert_team_invite_Inr revoke_invites_Inr team_captain)

lemma correct_no_trigger:
  assumes "members_inv db" and "captain_inv db"
  shows "correctMembership env command db \<noteq> Inl (TeamDatabaseError captain_trigger)"
proof -
  let ?t = "tcc_teamId command" and ?u = "tcc_targetUserId command"
  have one: "length (captains db1 ?t) = 1"
    if "correction_change env command db = Inr db1" and k: "known te_id (db_teams db) ?t" for db1
    using that(1) captains_assign [OF assms(1)] captains_delete [OF assms(1), of ?t ?u] team_captain [OF assms(2) k]
    by (auto simp: correction_change_def captains_insert split: correction_operation.splits option.splits if_splits)
  have "commit_team ?t db3 \<noteq> Inl e"
    if "correction_change env command db = Inr db1" "known te_id (db_teams db) ?t"
      "insert_audit_event a (incrementVersion env ?t db1) = Inr db3" for a db1 db3 e
    using one [OF that(1,2)] insert_audit_event_Inr [OF that(3)] by (auto dest!: commit_team_Inl)
  then show ?thesis by (auto simp: correctMembership_def Let_def ebind_Inl_iff dest!: lock_Inr)
qed

section \<open>Properties\<close>

text \<open>
  Every team operation keeps the team invariant: a user is in at most one team, every team has
  exactly one captain, and at most one invitation of a team is current.
\<close>

lemma team_step_inv:
  assumes "team_step env db db'" and "team_inv db"
  shows "team_inv db'"
proof -
  obtain t where "team_effect t db db'" using team_step_effect [OF assms(1)] by blast
  then have "members_inv db'" "captain_inv db'"
    using assms(2) team_effect_captain_inv by (auto simp: team_effect_def team_inv_def)
  moreover have "invites_inv db'"
    using assms by (auto simp: team_inv_def invites_inv_def current_invites_def elim!: team_step.cases
        dest: member_step_invites correctMembership_effect)
  ultimately show ?thesis by (simp add: team_inv_def)
qed

text \<open>
  C26: While a team has an accepted participation in a contest that has not ended, no operation of
  its members changes who is in it or who is captain; only an administrator's correction can.
\<close>

theorem locked_roster_fixed:
  assumes "member_step env db db'" and "known te_id (db_teams db) t" and "readLocks env db t \<noteq> []"
  shows "members_of t (db_team_members db') = members_of t (db_team_members db)"
proof -
  obtain x where "team_effect x db db'" and "x \<notin> te_id ` set (db_teams db) \<or> readLocks env db x = []
      \<or> db_team_members db' = db_team_members db"
    using member_step_effect [OF assms(1)] by blast
  moreover from this have "members_of t (db_team_members db') = members_of t (db_team_members db)"
    if "x \<noteq> t"
    using that by (intro members_of_others [of x]) (auto simp: team_effect_def)
  ultimately show ?thesis using assms(2,3) by (cases "x = t") (auto simp: known_def)
qed

text \<open>
  The deferred trigger that rejects a team without exactly one captain never ends a
  transaction: the checks of the operations already guarantee it.
\<close>

theorem captain_trigger_unreachable:
  assumes "team_inv db"
  shows "create_team env name nname captain digest code db \<noteq> Inl (TeamDatabaseError captain_trigger)
    \<and> join_team env user digest db \<noteq> Inl (TeamDatabaseError captain_trigger)
    \<and> leave_team env user db \<noteq> Inl (TeamDatabaseError captain_trigger)
    \<and> removeMember env actor member db \<noteq> Inl (TeamDatabaseError captain_trigger)
    \<and> rotateInvite env actor digest code db \<noteq> Inl (TeamDatabaseError captain_trigger)
    \<and> transferCaptain env actor member db \<noteq> Inl (TeamDatabaseError captain_trigger)
    \<and> correctMembership env command db \<noteq> Inl (TeamDatabaseError captain_trigger)"
  using assms create_no_trigger join_no_trigger leave_no_trigger remove_no_trigger rotate_no_trigger
    transfer_no_trigger correct_no_trigger by (auto simp: team_inv_def)

text \<open>
  C27: Rotating the invitation of a team revokes every earlier one: afterwards no earlier code of
  that team admits anybody, whenever it is used.
\<close>

theorem rotation_revokes_codes:
  assumes "rotateInvite env actor digest code db = Inr (r, db')" and "invites_inv db"
    and "i \<in> set (db_team_invites db)" and "memberOf db (ti_team_id i) actor \<noteq> None"
    and "members_inv db"
  shows "join_team env' user (ti_token_digest i) db' = Inl TeamInviteInvalid"
proof -
  obtain t j m where j: "ti_token_digest j = digest" "digest \<notin> ti_token_digest ` set (db_team_invites db)"
    and m: "memberOf db t actor = Some m"
    and rows: "db_team_invites db' = map (revoke_row env t) (db_team_invites db) @ [j]"
    using rotateInvite_rows [OF assms(1)] by blast
  from assms(4) obtain n where "memberOf db (ti_team_id i) actor = Some n" by blast
  then have t: "ti_team_id i = t"
    using m one_row_per_user [OF assms(5)] by (metis memberOf_Some)
  have "\<not> usable_invite env' (ti_token_digest i) k" if k: "k \<in> set (db_team_invites db')" for k
  proof
    assume u: "usable_invite env' (ti_token_digest i) k"
    with k rows j assms(3) obtain l where l: "l \<in> set (db_team_invites db)" "k = revoke_row env t l"
      by (auto simp: usable_invite_def)
    with u have "ti_token_digest l = ti_token_digest i" by (simp add: usable_invite_def)
    then have "l = i" using l(1) assms(2,3) by (auto simp: invites_inv_def distinct_map dest: inj_onD)
    with u l(2) t show False by (auto simp: usable_invite_def revoke_row_def split: if_splits)
  qed
  then have "find (usable_invite env' (ti_token_digest i)) (db_team_invites db') = None"
    by (simp add: find_None_iff)
  then show ?thesis by (simp add: join_team_def team_transaction_def)
qed

end
