(* ===== verification/Participation_Repository.thy ===== *)
theory Participation_Repository
  imports Database
begin

text \<open>
  \<open>server/infrastructure/db/participation-repository.ts\<close> with the records and errors of
  \<open>server/domains/participations/repository.ts\<close>: registration of a team for a contest, withdrawal,
  review by a judge, divisions, and the eligibility rules.
\<close>

section \<open>Records, commands and errors\<close>

record participation_record =
  pr_id :: uuid
  pr_contestId :: uuid
  pr_teamId :: uuid
  pr_teamName :: string
  pr_divisionId :: "uuid option"
  pr_divisionName :: "string option"
  pr_status :: participation_status
  pr_registeredAt :: millis
  pr_reviewedAt :: "millis option"
  pr_reviewReason :: "string option"
  pr_withdrawnAt :: "millis option"
  pr_version :: int

record current_team =
  ct_id :: uuid
  ct_name :: string
  ct_role :: team_member_role

record current_participation_record =
  cp_team :: "current_team option"
  cp_participation :: "participation_record option"

datatype review_decision = DecideAccepted | DecideRejected

record participation_review_command =
  prc_actorId :: uuid
  prc_requestId :: string
  prc_contestId :: uuid
  prc_participationId :: uuid
  prc_decision :: review_decision
  prc_reason :: string

record participation_division_command =
  pdc_actorId :: uuid
  pdc_requestId :: string
  pdc_contestId :: uuid
  pdc_participationId :: uuid
  pdc_divisionId :: "uuid option"
  pdc_reason :: "string option"

datatype participation_error =
    ParticipationConflict
  | ParticipationContestNotFound
  | ParticipationRegistrationClosed
  | ParticipationTeamRequired
  | ParticipationInviteInvalid
  | ParticipationTeamSize int int int      \<comment> \<open>minimum, maximum, actual\<close>
  | ParticipationMemberIneligible
  | ParticipationEmailDomainForbidden
  | ParticipationConfigurationInvalid
  | ParticipationNotFound
  | ParticipationTransitionInvalid
  | ParticipationDivisionInvalid
  | ParticipationEmptyPageCursor
  | ParticipationDatabaseError pg_error

definition ppg :: "pg_error + 'a \<Rightarrow> participation_error + 'a" where
  "ppg x = map_error ParticipationDatabaseError x"

record locked_contest =
  lc_id :: uuid
  lc_publicationStatus :: contest_publication_status
  lc_registrationStrategy :: registration_strategy
  lc_visibility :: contest_visibility
  lc_inviteRequired :: bool
  lc_inviteDigest :: "bytes option"
  lc_phase :: contest_time_phase
  lc_minTeamSize :: int
  lc_maxTeamSize :: int
  lc_registrationConstraints :: json

section \<open>Reading\<close>

text \<open>The row with its team and, when it has one, its division.\<close>

definition participation_select :: "database \<Rightarrow> participation_row \<Rightarrow> participation_record list" where
  "participation_select db p = map (\<lambda>t. \<lparr>pr_id = pa_id p, pr_contestId = pa_contest_id p,
      pr_teamId = pa_team_id p, pr_teamName = te_name t, pr_divisionId = pa_division_id p,
      pr_divisionName = (case pa_division_id p of None \<Rightarrow> None
        | Some d \<Rightarrow> map_option di_name (find (\<lambda>r. di_id r = d) (db_divisions db))),
      pr_status = pa_status p, pr_registeredAt = pa_registered_at p, pr_reviewedAt = pa_reviewed_at p,
      pr_reviewReason = pa_review_reason p, pr_withdrawnAt = pa_withdrawn_at p,
      pr_version = pa_version p\<rparr>) (filter (\<lambda>t. te_id t = pa_team_id p) (db_teams db))"

definition first_row :: "'a list \<Rightarrow> 'a option" where
  "first_row rows = (case rows of [] \<Rightarrow> None | r # _ \<Rightarrow> Some r)"

definition readByTeam :: "database \<Rightarrow> uuid \<Rightarrow> uuid \<Rightarrow> participation_record option" where
  "readByTeam db contestId teamId = first_row (concat (map (participation_select db)
     (filter (\<lambda>p. pa_contest_id p = contestId \<and> pa_team_id p = teamId) (db_participations db))))"

definition readById :: "database \<Rightarrow> uuid \<Rightarrow> uuid \<Rightarrow> participation_error + participation_record" where
  "readById db contestId participationId =
     (case first_row (concat (map (participation_select db)
        (filter (\<lambda>p. pa_contest_id p = contestId \<and> pa_id p = participationId) (db_participations db)))) of
        None \<Rightarrow> Inl ParticipationNotFound | Some r \<Rightarrow> Inr r)"

definition member_with_team :: "database \<Rightarrow> team_member_row \<Rightarrow> current_team list" where
  "member_with_team db m = map (\<lambda>t. \<lparr>ct_id = te_id t, ct_name = te_name t, ct_role = tm_role m\<rparr>)
     (filter (\<lambda>t. te_id t = tm_team_id m) (db_teams db))"

definition current_participation ::
  "database \<Rightarrow> uuid \<Rightarrow> uuid \<Rightarrow> participation_error + current_participation_record" where
  "current_participation db userId contestId =
     (if \<not> known co_id (db_contests db) contestId then Inl ParticipationContestNotFound
      else case first_row (concat (map (member_with_team db)
          (filter (\<lambda>m. tm_user_id m = userId) (db_team_members db)))) of
        None \<Rightarrow> Inr \<lparr>cp_team = None, cp_participation = None\<rparr>
      | Some team \<Rightarrow> Inr \<lparr>cp_team = Some team, cp_participation = readByTeam db contestId (ct_id team)\<rparr>)"

definition list_participations ::
  "database \<Rightarrow> uuid \<Rightarrow> string option \<Rightarrow> nat \<Rightarrow> participation_status option
    \<Rightarrow> participation_error + participation_record page" where
  "list_participations db contestId cursor limit status =
     (if \<not> known co_id (db_contests db) contestId then Inl ParticipationContestNotFound
      else case page_of limit pr_id (\<lambda>r. r) (take (limit + 1) (concat (map (participation_select db)
          (sort_key pa_id (filter (\<lambda>p. pa_contest_id p = contestId
             \<and> (given cursor \<longrightarrow> the cursor < pa_id p)
             \<and> (status = None \<or> status = Some (pa_status p))) (db_participations db)))))) of
        None \<Rightarrow> Inl ParticipationEmptyPageCursor | Some p \<Rightarrow> Inr p)"

section \<open>Locks\<close>

definition lock_team :: "database \<Rightarrow> uuid \<Rightarrow> participation_error + unit" where
  "lock_team db teamId = ensure (known te_id (db_teams db) teamId) ParticipationTeamRequired"

definition lockActorTeam :: "database \<Rightarrow> uuid \<Rightarrow> participation_error + current_team" where
  "lockActorTeam db userId =
     (case find (\<lambda>m. tm_user_id m = userId) (db_team_members db) of
        None \<Rightarrow> Inl ParticipationTeamRequired
      | Some located \<Rightarrow>
          ebind (lock_team db (tm_team_id located)) (\<lambda>_.
          case first_row (concat (map (member_with_team db) (filter (\<lambda>m. tm_user_id m = userId
              \<and> tm_team_id m = tm_team_id located) (db_team_members db)))) of
            None \<Rightarrow> Inl ParticipationTeamRequired | Some team \<Rightarrow> Inr team))"

definition lockContest :: "tx_env \<Rightarrow> database \<Rightarrow> uuid \<Rightarrow> participation_error + locked_contest" where
  "lockContest env db contestId =
     (case find (\<lambda>c. co_id c = contestId) (db_contests db) of
        None \<Rightarrow> Inl ParticipationContestNotFound
      | Some c \<Rightarrow> Inr \<lparr>lc_id = co_id c, lc_publicationStatus = co_publication_status c,
          lc_registrationStrategy = co_registration_strategy c, lc_visibility = co_visibility c,
          lc_inviteRequired = co_invite_required c, lc_inviteDigest = co_invite_digest c,
          lc_phase = derive_contest_time_phase (co_start_at c) (co_end_at c) (env_now env),
          lc_minTeamSize = co_min_team_size c, lc_maxTeamSize = co_max_team_size c,
          lc_registrationConstraints = co_registration_constraints c\<rparr>)"

definition locateParticipationTeam :: "database \<Rightarrow> uuid \<Rightarrow> uuid \<Rightarrow> participation_error + uuid" where
  "locateParticipationTeam db contestId participationId =
     (case find (\<lambda>p. pa_id p = participationId \<and> pa_contest_id p = contestId) (db_participations db) of
        None \<Rightarrow> Inl ParticipationNotFound | Some p \<Rightarrow> Inr (pa_team_id p))"

section \<open>Eligibility\<close>

definition requireRegistrationOpen :: "locked_contest \<Rightarrow> participation_error + unit" where
  "requireRegistrationOpen contest =
     (if lc_publicationStatus contest \<noteq> Published \<or> lc_phase contest = Ended
      then Inl ParticipationRegistrationClosed
      else if lc_visibility contest = PrivateContest \<and> \<not> lc_inviteRequired contest
      then Inl ParticipationRegistrationClosed
      else if lc_inviteRequired contest \<and> lc_inviteDigest contest = None
      then Inl ParticipationConfigurationInvalid
      else Inr ())"

definition safeDigestEqual :: "bytes \<Rightarrow> bytes \<Rightarrow> bool" where
  "safeDigestEqual expected actual \<longleftrightarrow> length expected = length actual \<and> expected = actual"

definition verifySubmittedInvite ::
  "locked_contest \<Rightarrow> bytes option \<Rightarrow> participation_error + bytes option" where
  "verifySubmittedInvite contest submitted =
     (if \<not> lc_inviteRequired contest then Inr None
      else case lc_inviteDigest contest of
        None \<Rightarrow> Inl ParticipationConfigurationInvalid
      | Some digest \<Rightarrow>
          (case submitted of
             None \<Rightarrow> Inl ParticipationInviteInvalid
           | Some s \<Rightarrow> if safeDigestEqual digest s then Inr (Some digest)
                       else Inl ParticipationInviteInvalid))"

definition verifyInviteEvidence :: "locked_contest \<Rightarrow> bytes option \<Rightarrow> participation_error + unit" where
  "verifyInviteEvidence contest evidence =
     (if \<not> lc_inviteRequired contest then Inr ()
      else case lc_inviteDigest contest of
        None \<Rightarrow> Inl ParticipationConfigurationInvalid
      | Some digest \<Rightarrow>
          (case evidence of
             None \<Rightarrow> Inl ParticipationInviteInvalid
           | Some s \<Rightarrow> if safeDigestEqual digest s then Inr () else Inl ParticipationInviteInvalid))"

text \<open>The regular expression \<open>^[a-z0-9](?:[a-z0-9.-]*[a-z0-9])?$\<close>.\<close>

definition domain_pattern :: "string \<Rightarrow> bool" where
  "domain_pattern s \<longleftrightarrow> s \<noteq> [] \<and> lower_alnum (hd s) \<and> lower_alnum (last s)
     \<and> list_all (\<lambda>c. lower_alnum c \<or> c = CHR ''.'' \<or> c = CHR ''-'') s"

text \<open>\<open>toLowerCase\<close> on the ASCII texts the pattern lets through.\<close>

definition ascii_lower :: "string \<Rightarrow> string" where
  "ascii_lower s = map (\<lambda>c. if CHR ''A'' \<le> c \<and> c \<le> CHR ''Z''
     then char_of (of_char c + 32 :: nat) else c) s"

text \<open>\<open>[...new Set(xs)]\<close>: the first occurrence of each element.\<close>

definition js_unique :: "'a list \<Rightarrow> 'a list" where
  "js_unique xs = rev (remdups (rev xs))"

fun json_domain :: "json \<Rightarrow> string option" where
  "json_domain (JStr s) = (if domain_pattern s then Some s else None)"
| "json_domain _ = None"

definition allowedEmailDomains :: "json \<Rightarrow> participation_error + string list" where
  "allowedEmailDomains v =
     (case v of
        JObj obj \<Rightarrow>
          if \<exists>(k, _)\<in>set obj. k \<noteq> ''allowed_email_domains'' then Inl ParticipationConfigurationInvalid
          else (case map_of obj ''allowed_email_domains'' of
            None \<Rightarrow> Inr []
          | Some (JArr ds) \<Rightarrow>
              if \<exists>d\<in>set ds. json_domain d = None then Inl ParticipationConfigurationInvalid
              else Inr (js_unique (map (\<lambda>d. ascii_lower (the (json_domain d))) ds))
          | Some _ \<Rightarrow> Inl ParticipationConfigurationInvalid)
      | _ \<Rightarrow> Inl ParticipationConfigurationInvalid)"

text \<open>\<open>split('@').at(-1)\<close>: what follows the last at sign, the whole text without one.\<close>

definition email_domain :: "string \<Rightarrow> string" where
  "email_domain email = rev (takeWhile (\<lambda>c. c \<noteq> CHR ''@'') (rev email))"

definition roster :: "database \<Rightarrow> uuid \<Rightarrow> user_row list" where
  "roster db teamId = concat (map (\<lambda>m. filter (\<lambda>u. us_id u = tm_user_id m) (db_users db))
     (sort_key tm_user_id (filter (\<lambda>m. tm_team_id m = teamId) (db_team_members db))))"

definition ineligible_member :: "user_row \<Rightarrow> bool" where
  "ineligible_member u \<longleftrightarrow>
     us_status u \<noteq> Active \<or> us_email_verified_at u = None \<or> us_must_change_password u"

definition validateTeamEligibility :: "database \<Rightarrow> uuid \<Rightarrow> locked_contest \<Rightarrow> participation_error + unit" where
  "validateTeamEligibility db teamId contest =
     (let members = roster db teamId; actual = int (length members) in
      if actual < lc_minTeamSize contest \<or> lc_maxTeamSize contest < actual
      then Inl (ParticipationTeamSize (lc_minTeamSize contest) (lc_maxTeamSize contest) actual)
      else if \<exists>u\<in>set members. ineligible_member u then Inl ParticipationMemberIneligible
      else ebind (allowedEmailDomains (lc_registrationConstraints contest)) (\<lambda>allowedDomains.
        if allowedDomains \<noteq> [] \<and> (\<exists>u\<in>set members.
             email_domain (us_email_normalized u) = ''''
             \<or> email_domain (us_email_normalized u) \<notin> set allowedDomains)
        then Inl ParticipationEmailDomainForbidden else Inr ()))"

definition defaultDivision :: "database \<Rightarrow> uuid \<Rightarrow> uuid option" where
  "defaultDivision db contestId =
     (case take 2 (sort_key (\<lambda>d. (di_sort_order d, di_id d))
        (filter (\<lambda>d. di_contest_id d = contestId) (db_divisions db))) of
        [d] \<Rightarrow> Some (di_id d) | _ \<Rightarrow> None)"

section \<open>Writing\<close>

definition participation_audit ::
  "tx_env \<Rightarrow> nat \<Rightarrow> uuid \<Rightarrow> string \<Rightarrow> uuid \<Rightarrow> uuid \<Rightarrow> string \<Rightarrow> string option \<Rightarrow> (string \<times> json) list
    \<Rightarrow> audit_event_row" where
  "participation_audit env k actorId requestId contestId participationId action reason changes =
     \<lparr>au_id = env_uuid env k, au_actor_user_id = Some actorId, au_action = action,
      au_target_type = ''participation'', au_target_id = Some participationId, au_reason = reason,
      au_request_id = requestId, au_changes = changes,
      au_metadata = [(''contest_id'', JStr contestId)], au_occurred_at = env_now env\<rparr>"

text \<open>The columns both the insertion and the renewed registration set.\<close>

definition registered_columns ::
  "tx_env \<Rightarrow> uuid \<Rightarrow> bool \<Rightarrow> uuid option \<Rightarrow> bytes option \<Rightarrow> participation_row \<Rightarrow> participation_row" where
  "registered_columns env userId accepted divisionId digest p =
     p\<lparr>pa_status := (if accepted then Accepted else Pending), pa_division_id := divisionId,
       pa_registered_by := userId, pa_registered_at := env_now env,
       pa_reviewed_by := (if accepted then Some userId else None),
       pa_reviewed_at := (if accepted then Some (env_now env) else None),
       pa_review_reason := (if accepted then Some ''auto_accept'' else None),
       pa_withdrawn_at := None, pa_invite_digest_verified := digest, pa_updated_at := env_now env\<rparr>"

definition new_participation :: "tx_env \<Rightarrow> uuid \<Rightarrow> uuid \<Rightarrow> uuid \<Rightarrow> participation_row" where
  "new_participation env contestId teamId userId = \<lparr>pa_id = env_uuid env 0, pa_contest_id = contestId,
     pa_team_id = teamId, pa_division_id = None, pa_status = Pending, pa_registered_by = userId,
     pa_reviewed_by = None, pa_review_reason = None, pa_invite_digest_verified = None,
     pa_registered_at = env_now env, pa_reviewed_at = None, pa_withdrawn_at = None, pa_version = 1,
     pa_updated_at = env_now env\<rparr>"

definition register_tx ::
  "tx_env \<Rightarrow> uuid \<Rightarrow> uuid \<Rightarrow> bytes option \<Rightarrow> database
    \<Rightarrow> participation_error + (participation_record \<times> database)" where
  "register_tx env userId contestId inviteDigest db =
     ebind (lockActorTeam db userId) (\<lambda>team.
     ebind (lockContest env db contestId) (\<lambda>contest.
     ebind (requireRegistrationOpen contest) (\<lambda>_.
     ebind (verifySubmittedInvite contest inviteDigest) (\<lambda>verifiedInviteDigest.
     ebind (validateTeamEligibility db (ct_id team) contest) (\<lambda>_.
     let existing = find (\<lambda>p. pa_contest_id p = contestId \<and> pa_team_id p = ct_id team)
           (db_participations db) in
     if (case existing of None \<Rightarrow> False | Some p \<Rightarrow> pa_status p \<noteq> Withdrawn)
     then Inl ParticipationConflict
     else let divisionId = defaultDivision db contestId;
              accepted = (lc_registrationStrategy contest = AutoAccept);
              columns = registered_columns env userId accepted divisionId verifiedInviteDigest
     in (case existing of
           Some p \<Rightarrow>
             ebind (ppg (update_participation (pa_id p)
               (\<lambda>q. (columns q)\<lparr>pa_version := pa_version q + 1\<rparr>) db)) (\<lambda>db1.
             ebind (readById db1 contestId (pa_id p)) (\<lambda>r. Inr (r, db1)))
         | None \<Rightarrow>
             ebind (ppg (insert_participation (columns (new_participation env contestId (ct_id team) userId))
               db)) (\<lambda>db1.
             ebind (readById db1 contestId (env_uuid env 0)) (\<lambda>r. Inr (r, db1)))))))))"

definition register_team ::
  "tx_env \<Rightarrow> uuid \<Rightarrow> uuid \<Rightarrow> bytes option \<Rightarrow> database
    \<Rightarrow> participation_error + (participation_record \<times> database)" where
  "register_team env userId contestId inviteDigest db =
     (case register_tx env userId contestId inviteDigest db of
        Inl (ParticipationDatabaseError (UniqueViolation c)) \<Rightarrow> Inl ParticipationConflict
      | result \<Rightarrow> result)"

text \<open>The part of \<open>withdraw\<close> that follows the lookup of the participation.\<close>

definition withdraw_checked ::
  "tx_env \<Rightarrow> uuid \<Rightarrow> participation_row \<Rightarrow> database \<Rightarrow> participation_error + (participation_record \<times> database)" where
  "withdraw_checked env contestId p db =
     (if pa_status p \<notin> {Pending, Rejected} then Inl ParticipationTransitionInvalid
      else ebind (ppg (update_participation (pa_id p) (\<lambda>q. q\<lparr>pa_status := Withdrawn,
             pa_withdrawn_at := Some (env_now env), pa_version := pa_version q + 1,
             pa_updated_at := env_now env\<rparr>) db)) (\<lambda>db1.
           ebind (readById db1 contestId (pa_id p)) (\<lambda>r. Inr (r, db1))))"

definition withdraw_team ::
  "tx_env \<Rightarrow> uuid \<Rightarrow> uuid \<Rightarrow> database \<Rightarrow> participation_error + (participation_record \<times> database)" where
  "withdraw_team env userId contestId db =
     ebind (lockActorTeam db userId) (\<lambda>team.
     ebind (lockContest env db contestId) (\<lambda>_.
     case find (\<lambda>p. pa_contest_id p = contestId \<and> pa_team_id p = ct_id team) (db_participations db) of
       None \<Rightarrow> Inl ParticipationNotFound
     | Some p \<Rightarrow> withdraw_checked env contestId p db))"

fun decided :: "review_decision \<Rightarrow> participation_status" where
  "decided DecideAccepted = Accepted"
| "decided DecideRejected = Rejected"

fun decision_text :: "review_decision \<Rightarrow> string" where
  "decision_text DecideAccepted = ''accepted''"
| "decision_text DecideRejected = ''rejected''"

definition review_participation ::
  "tx_env \<Rightarrow> participation_review_command \<Rightarrow> database
    \<Rightarrow> participation_error + (participation_record \<times> database)" where
  "review_participation env command db =
     ebind (locateParticipationTeam db (prc_contestId command) (prc_participationId command)) (\<lambda>teamId.
     ebind (lock_team db teamId) (\<lambda>_.
     ebind (lockContest env db (prc_contestId command)) (\<lambda>contest.
     case find (\<lambda>p. pa_id p = prc_participationId command \<and> pa_contest_id p = prc_contestId command
         \<and> pa_team_id p = teamId) (db_participations db) of
       None \<Rightarrow> Inl ParticipationNotFound
     | Some p \<Rightarrow>
         if pa_status p \<noteq> Pending then Inl ParticipationTransitionInvalid
         else ebind (if prc_decision command = DecideAccepted
                then ebind (requireRegistrationOpen contest) (\<lambda>_.
                     ebind (verifyInviteEvidence contest (pa_invite_digest_verified p)) (\<lambda>_.
                     validateTeamEligibility db teamId contest))
                else Inr ()) (\<lambda>_.
         ebind (ppg (update_participation (prc_participationId command) (\<lambda>q. q\<lparr>
            pa_status := decided (prc_decision command), pa_reviewed_by := Some (prc_actorId command),
            pa_reviewed_at := Some (env_now env), pa_review_reason := Some (prc_reason command),
            pa_version := pa_version q + 1, pa_updated_at := env_now env\<rparr>) db)) (\<lambda>db1.
         ebind (ppg (insert_audit_event (participation_audit env 0 (prc_actorId command)
            (prc_requestId command) (prc_contestId command) (prc_participationId command)
            ''contest.participation.reviewed'' (Some (prc_reason command))
            [(''status'', JStr (decision_text (prc_decision command)))]) db1)) (\<lambda>db2.
         ebind (readById db2 (prc_contestId command) (prc_participationId command)) (\<lambda>r.
         Inr (r, db2))))))))"

definition assignDivision ::
  "tx_env \<Rightarrow> participation_division_command \<Rightarrow> database
    \<Rightarrow> participation_error + (participation_record \<times> database)" where
  "assignDivision env command db =
     ebind (locateParticipationTeam db (pdc_contestId command) (pdc_participationId command)) (\<lambda>teamId.
     ebind (lock_team db teamId) (\<lambda>_.
     ebind (lockContest env db (pdc_contestId command)) (\<lambda>_.
     case find (\<lambda>p. pa_id p = pdc_participationId command \<and> pa_contest_id p = pdc_contestId command)
         (db_participations db) of
       None \<Rightarrow> Inl ParticipationNotFound
     | Some p \<Rightarrow>
         if pa_status p = Withdrawn then Inl ParticipationTransitionInvalid
         else if given (pdc_divisionId command)
              \<and> \<not> known (\<lambda>d. (di_contest_id d, di_id d)) (db_divisions db)
                    (pdc_contestId command, the (pdc_divisionId command))
         then Inl ParticipationDivisionInvalid
         else ebind (ppg (update_participation (pdc_participationId command) (\<lambda>q. q\<lparr>
            pa_division_id := pdc_divisionId command, pa_version := pa_version q + 1,
            pa_updated_at := env_now env\<rparr>) db)) (\<lambda>db1.
         ebind (ppg (insert_audit_event (participation_audit env 0 (pdc_actorId command)
            (pdc_requestId command) (pdc_contestId command) (pdc_participationId command)
            ''contest.participation.division_assigned'' (pdc_reason command)
            [(''division_id'', (case pdc_divisionId command of None \<Rightarrow> JNull | Some d \<Rightarrow> JStr d))])
            db1)) (\<lambda>db2.
         ebind (readById db2 (pdc_contestId command) (pdc_participationId command)) (\<lambda>r.
         Inr (r, db2)))))))"

end
