(* ===== verification/Participation_Invariant.thy ===== *)
theory Participation_Invariant
  imports Participation_Repository
begin

text \<open>
  The life cycle of a participation as an abstract state machine, the refinement of the repository's
  operations to it, the invariant of the rows and what an accepted team had to satisfy.
\<close>

section \<open>The invariant and the abstract state\<close>

definition participation_key :: "participation_row \<Rightarrow> uuid \<times> uuid" where
  "participation_key p = (pa_contest_id p, pa_team_id p)"

definition participation_inv :: "database \<Rightarrow> bool" where
  "participation_inv db \<longleftrightarrow> distinct (map pa_id (db_participations db))
     \<and> distinct (map participation_key (db_participations db))
     \<and> (\<forall>p\<in>set (db_participations db). list_all snd (participation_checks p db))"

text \<open>The status of each team in each contest.\<close>

definition statuses :: "database \<Rightarrow> uuid \<times> uuid \<Rightarrow> participation_status option" where
  "statuses db = map_of (map (\<lambda>p. (participation_key p, pa_status p)) (db_participations db))"

text \<open>The life cycle: \<open>None\<close> is a team that never registered.\<close>

inductive status_step :: "participation_status option \<Rightarrow> participation_status \<Rightarrow> bool" where
  registered: "s = None \<or> s = Some Withdrawn \<Longrightarrow> status_step s Pending"
| auto_accepted: "s = None \<or> s = Some Withdrawn \<Longrightarrow> status_step s Accepted"
| accepted: "status_step (Some Pending) Accepted"
| rejected: "status_step (Some Pending) Rejected"
| withdrawn: "s = Some Pending \<or> s = Some Rejected \<Longrightarrow> status_step s Withdrawn"

inductive_simps status_step_simps:
  "status_step s Pending" "status_step s Accepted" "status_step s Rejected" "status_step s Withdrawn"

inductive_cases status_step_accepted: "status_step (Some Accepted) s"

section \<open>The operations as steps\<close>

inductive participation_step :: "tx_env \<Rightarrow> database \<Rightarrow> database \<Rightarrow> bool" for env :: tx_env where
  register: "register_team env user contest digest db = Inr (r, db') \<Longrightarrow> participation_step env db db'"
| withdraw: "withdraw_team env user contest db = Inr (r, db') \<Longrightarrow> participation_step env db db'"
| review: "review_participation env command db = Inr (r, db') \<Longrightarrow> participation_step env db db'"
| assign: "assignDivision env dcommand db = Inr (r, db') \<Longrightarrow> participation_step env db db'"

lemma ppg_Inr [simp]: "ppg x = Inr y \<longleftrightarrow> x = Inr y"
  by (simp add: ppg_def)

lemma register_team_Inr: "register_team env u c d db = Inr x \<Longrightarrow> register_tx env u c d db = Inr x"
  by (auto simp: register_team_def split: sum.splits participation_error.splits pg_error.splits)

text \<open>A row an operation changed in place, keeping its key columns.\<close>

definition updates_row ::
  "uuid \<Rightarrow> (participation_row \<Rightarrow> participation_row) \<Rightarrow> database \<Rightarrow> database \<Rightarrow> bool" where
  "updates_row ident f db db' \<longleftrightarrow>
     (\<forall>p. pa_id (f p) = pa_id p \<and> participation_key (f p) = participation_key p)
     \<and> (\<exists>db1. update_participation ident f db = Inr db1 \<and>
          db' = db1\<lparr>db_audit_events := db_audit_events db'\<rparr>)"

lemma find_row:
  "find P (db_participations db) = Some p \<Longrightarrow> p \<in> set (db_participations db) \<and> P p"
  by (auto simp: find_Some_iff)

text \<open>Registration: the conditions it checked, then a renewed or a new row.\<close>

lemma register_tx_elim:
  assumes "register_tx env user contest digest db = Inr (r, db')"
  obtains team :: current_team and lc :: locked_contest and vd where
    "lockActorTeam db user = Inr team" "lockContest env db contest = Inr lc"
    "requireRegistrationOpen lc = Inr ()" "verifySubmittedInvite lc digest = Inr vd"
    "validateTeamEligibility db (ct_id team) lc = Inr ()"
    "(\<exists>p\<in>set (db_participations db). participation_key p = (contest, ct_id team) \<and> pa_status p = Withdrawn
        \<and> updates_row (pa_id p) (\<lambda>q. (registered_columns env user (lc_registrationStrategy lc = AutoAccept)
             (defaultDivision db contest) vd q)\<lparr>pa_version := pa_version q + 1\<rparr>) db db')
     \<or> ((contest, ct_id team) \<notin> participation_key ` set (db_participations db)
        \<and> insert_participation (registered_columns env user (lc_registrationStrategy lc = AutoAccept)
             (defaultDivision db contest) vd (new_participation env contest (ct_id team) user)) db = Inr db')"
proof -
  let ?find = "\<lambda>t. find (\<lambda>p. pa_contest_id p = contest \<and> pa_team_id p = t) (db_participations db)"
  from assms obtain team :: current_team and lc :: locked_contest and vd where
    steps: "lockActorTeam db user = Inr team" "lockContest env db contest = Inr lc"
      "requireRegistrationOpen lc = Inr ()" "verifySubmittedInvite lc digest = Inr vd"
      "validateTeamEligibility db (ct_id team) lc = Inr ()"
    and free: "case ?find (ct_id team) of None \<Rightarrow> True | Some p \<Rightarrow> pa_status p = Withdrawn"
    and upd: "case ?find (ct_id team) of
        Some p \<Rightarrow> update_participation (pa_id p) (\<lambda>q. (registered_columns env user
            (lc_registrationStrategy lc = AutoAccept) (defaultDivision db contest) vd q)
            \<lparr>pa_version := pa_version q + 1\<rparr>) db = Inr db'
      | None \<Rightarrow> insert_participation (registered_columns env user (lc_registrationStrategy lc = AutoAccept)
             (defaultDivision db contest) vd (new_participation env contest (ct_id team) user)) db = Inr db'"
    by (auto simp: register_tx_def ebind_Inr_iff Let_def split: option.splits if_splits)
  show ?thesis
  proof (cases "?find (ct_id team)")
    case None
    then have "(contest, ct_id team) \<notin> participation_key ` set (db_participations db)"
      by (auto simp: find_None_iff participation_key_def)
    with None upd show ?thesis by (intro that [OF steps]) simp
  next
    case (Some p)
    with free upd have "updates_row (pa_id p) (\<lambda>q. (registered_columns env user
        (lc_registrationStrategy lc = AutoAccept) (defaultDivision db contest) vd q)
        \<lparr>pa_version := pa_version q + 1\<rparr>) db db'" "pa_status p = Withdrawn"
      by (auto simp: updates_row_def registered_columns_def participation_key_def)
    with find_row [OF Some] show ?thesis
      by (intro that [OF steps]) (auto simp: participation_key_def)
  qed
qed

lemma withdraw_elim:
  assumes "withdraw_team env user contest db = Inr (r, db')"
  obtains p f where "p \<in> set (db_participations db)" "pa_status p \<in> {Pending, Rejected}"
    "updates_row (pa_id p) f db db'" "\<forall>q. pa_status (f q) = Withdrawn \<and> pa_version (f q) = pa_version q + 1"
proof -
  let ?f = "\<lambda>q. q\<lparr>pa_status := Withdrawn, pa_withdrawn_at := Some (env_now env),
      pa_version := pa_version q + 1, pa_updated_at := env_now env\<rparr>"
  from assms obtain team :: current_team and p where f: "find (\<lambda>p. pa_contest_id p = contest \<and> pa_team_id p = ct_id team)
      (db_participations db) = Some p" and c: "withdraw_checked env contest p db = Inr (r, db')"
    by (cases "lockActorTeam db user"; cases "lockContest env db contest")
      (auto simp: withdraw_team_def split: option.splits)
  have s: "pa_status p \<in> {Pending, Rejected}" and u: "update_participation (pa_id p) ?f db = Inr db'"
    using c by (auto simp: withdraw_checked_def ebind_Inr_iff split: if_split_asm)
  from u have "updates_row (pa_id p) ?f db db'" by (simp add: updates_row_def participation_key_def)
  with find_row [OF f] s show ?thesis by (intro that [of p ?f]) auto
qed

lemma review_elim:
  assumes "review_participation env command db = Inr (r, db')"
  obtains p lc f where "p \<in> set (db_participations db)" "pa_id p = prc_participationId command"
    "pa_contest_id p = prc_contestId command" "pa_status p = Pending"
    "lockContest env db (prc_contestId command) = Inr lc"
    "prc_decision command = DecideAccepted \<longrightarrow> requireRegistrationOpen lc = Inr ()
       \<and> verifyInviteEvidence lc (pa_invite_digest_verified p) = Inr ()
       \<and> validateTeamEligibility db (pa_team_id p) lc = Inr ()"
    "updates_row (pa_id p) f db db'"
    "\<forall>q. pa_status (f q) = decided (prc_decision command) \<and> pa_version (f q) = pa_version q + 1
       \<and> pa_invite_digest_verified (f q) = pa_invite_digest_verified q"
proof -
  let ?f = "\<lambda>q. q\<lparr>pa_status := decided (prc_decision command), pa_reviewed_by := Some (prc_actorId command),
      pa_reviewed_at := Some (env_now env), pa_review_reason := Some (prc_reason command),
      pa_version := pa_version q + 1, pa_updated_at := env_now env\<rparr>"
  from assms obtain team lc p db1 a where
    f: "find (\<lambda>p. pa_id p = prc_participationId command \<and> pa_contest_id p = prc_contestId command
        \<and> pa_team_id p = team) (db_participations db) = Some p"
    and lc: "lockContest env db (prc_contestId command) = Inr lc" and s: "pa_status p = Pending"
    and ok: "prc_decision command = DecideAccepted \<longrightarrow> requireRegistrationOpen lc = Inr ()
       \<and> verifyInviteEvidence lc (pa_invite_digest_verified p) = Inr ()
       \<and> validateTeamEligibility db team lc = Inr ()"
    and u: "update_participation (prc_participationId command) ?f db = Inr db1"
    and a: "insert_audit_event a db1 = Inr db'"
    by (auto simp: review_participation_def ebind_Inr_iff split: option.splits if_splits)
  note row = find_row [OF f]
  have "updates_row (pa_id p) ?f db db'"
    using u insert_audit_event_Inr [OF a] row by (simp add: updates_row_def participation_key_def)
  with row lc s ok show ?thesis by (intro that [of p lc ?f]) auto
qed

lemma assign_elim:
  assumes "assignDivision env command db = Inr (r, db')"
  obtains p f where "p \<in> set (db_participations db)" "updates_row (pa_id p) f db db'"
    "pa_status p \<noteq> Withdrawn" "\<forall>q. pa_status (f q) = pa_status q \<and> pa_version (f q) = pa_version q + 1"
proof -
  let ?f = "\<lambda>q. q\<lparr>pa_division_id := pdc_divisionId command, pa_version := pa_version q + 1,
      pa_updated_at := env_now env\<rparr>"
  from assms obtain p db1 a where
    f: "find (\<lambda>p. pa_id p = pdc_participationId command \<and> pa_contest_id p = pdc_contestId command)
        (db_participations db) = Some p" and s: "pa_status p \<noteq> Withdrawn"
    and u: "update_participation (pdc_participationId command) ?f db = Inr db1"
    and a: "insert_audit_event a db1 = Inr db'"
    by (auto simp: assignDivision_def ebind_Inr_iff split: option.splits if_splits)
  note row = find_row [OF f]
  have "updates_row (pa_id p) ?f db db'"
    using u insert_audit_event_Inr [OF a] row by (simp add: updates_row_def participation_key_def)
  with row s show ?thesis by (intro that [of p ?f]) auto
qed

section \<open>The invariant is kept\<close>

lemma updates_row_rows:
  assumes "updates_row ident f db db'"
  shows "db_participations db' = map (\<lambda>p. if pa_id p = ident then f p else p) (db_participations db)"
    and "db' = db\<lparr>db_participations := db_participations db', db_audit_events := db_audit_events db'\<rparr>"
    and "p \<in> set (db_participations db) \<Longrightarrow> pa_id p = ident \<Longrightarrow> list_all snd (participation_checks (f p) db)"
    and "pa_id (f q) = pa_id q" and "participation_key (f q) = participation_key q"
proof -
  from assms obtain db1 where u: "update_participation ident f db = Inr db1"
    and db': "db' = db1\<lparr>db_audit_events := db_audit_events db'\<rparr>" by (auto simp: updates_row_def)
  note upd = update_participation_Inr [OF u]
  show rows: "db_participations db' = map (\<lambda>p. if pa_id p = ident then f p else p) (db_participations db)"
    by (subst db') (use upd in simp)
  show "db' = db\<lparr>db_participations := db_participations db', db_audit_events := db_audit_events db'\<rparr>"
    using upd db' by (cases db; cases db'; cases db1) simp
  show "p \<in> set (db_participations db) \<Longrightarrow> pa_id p = ident \<Longrightarrow> list_all snd (participation_checks (f p) db)"
    using upd by blast
qed (use assms in \<open>simp_all add: updates_row_def\<close>)

lemma insert_participation_frame:
  "insert_participation r db = Inr db' \<Longrightarrow>
     db' = db\<lparr>db_participations := db_participations db', db_audit_events := db_audit_events db'\<rparr>"
  by (auto dest!: insert_participation_Inr)

lemma participation_checks_cong:
  assumes "db' = db\<lparr>db_participations := db_participations db', db_audit_events := db_audit_events db'\<rparr>"
  shows "participation_checks r db' = participation_checks r db"
  by (subst assms) (simp add: participation_checks_def split: option.split)

lemma updates_row_inv:
  assumes "updates_row ident f db db'" and "participation_inv db"
  shows "participation_inv db'"
proof -
  note rows = updates_row_rows [OF assms(1)]
  have "map pa_id (db_participations db') = map pa_id (db_participations db)"
    "map participation_key (db_participations db') = map participation_key (db_participations db)"
    by (simp_all add: rows(1,4,5))
  moreover have "list_all snd (participation_checks q db')" if "q \<in> set (db_participations db')" for q
    using that assms(2) rows(3) unfolding participation_checks_cong [OF rows(2)] rows(1)
    by (auto simp: participation_inv_def)
  ultimately show ?thesis using assms(2) by (simp add: participation_inv_def)
qed

lemma insert_row_inv:
  assumes "insert_participation r db = Inr db'" and "participation_inv db"
  shows "participation_inv db'"
proof -
  note ins = insert_participation_Inr [OF assms(1)]
  have "list_all snd (participation_checks q db')" if "q \<in> set (db_participations db')" for q
    using that ins assms(2) unfolding participation_checks_cong [OF insert_participation_frame [OF assms(1)]]
    by (auto simp: participation_inv_def)
  then show ?thesis using ins assms(2)
    by (auto simp: participation_inv_def participation_key_def)
qed

section \<open>Refinement of the life cycle\<close>

lemma map_of_update_row:
  assumes "distinct (map key rows)" and "distinct (map ident rows)" and "r \<in> set rows"
    and "\<And>q. key (f q) = key q"
  shows "map_of (map (\<lambda>q. (key q, v q)) (map (\<lambda>q. if ident q = ident r then f q else q) rows)) =
    (map_of (map (\<lambda>q. (key q, v q)) rows))(key r \<mapsto> v (f r))"
  using assms(1-3)
proof (induction rows)
  case (Cons q rows)
  show ?case
  proof (cases "q = r")
    case True
    with Cons.prems(2) have "map (\<lambda>q. if ident q = ident r then f q else q) rows = rows"
      by (intro map_idI) (metis image_eqI list.map(2) distinct.simps(2) list.set_map True)
    with True assms(4) show ?thesis by (auto simp: fun_eq_iff)
  next
    case False
    with Cons.prems have "ident q \<noteq> ident r" "r \<in> set rows" "key q \<noteq> key r" by auto
    with False Cons show ?thesis by (auto simp: fun_eq_iff)
  qed
qed simp

lemma statuses_update:
  assumes "participation_inv db" and "p \<in> set (db_participations db)" and "updates_row (pa_id p) f db db'"
  shows "statuses db' = (statuses db)(participation_key p \<mapsto> pa_status (f p))"
  unfolding statuses_def updates_row_rows(1) [OF assms(3)]
  by (rule map_of_update_row) (use assms updates_row_rows(5) [OF assms(3)] in \<open>auto simp: participation_inv_def\<close>)

lemma statuses_row:
  "participation_inv db \<Longrightarrow> p \<in> set (db_participations db) \<Longrightarrow> statuses db (participation_key p) = Some (pa_status p)"
  by (auto simp: statuses_def participation_inv_def comp_def intro!: map_of_is_SomeI)

lemma statuses_None: "k \<notin> participation_key ` set (db_participations db) \<Longrightarrow> statuses db k = None"
  by (force simp: statuses_def map_of_eq_None_iff)

lemma statuses_insert:
  assumes "insert_participation r db = Inr db'" and "participation_key r \<notin> participation_key ` set (db_participations db)"
  shows "statuses db' = (statuses db)(participation_key r \<mapsto> pa_status r)"
proof -
  have "map_of (map (\<lambda>p. (participation_key p, pa_status p)) ps @ [(k, s)]) =
      (map_of (map (\<lambda>p. (participation_key p, pa_status p)) ps))(k \<mapsto> s)"
    if "k \<notin> participation_key ` set ps" for k s ps
    using that by (induction ps) (auto simp: fun_upd_twist)
  with assms insert_participation_Inr [OF assms(1)] show ?thesis by (simp add: statuses_def)
qed

lemma participation_simulates:
  assumes "participation_step env db db'" and "participation_inv db"
  shows "statuses db' = statuses db
    \<or> (\<exists>k s. status_step (statuses db k) s \<and> statuses db' = (statuses db)(k \<mapsto> s))"
  using assms(1)
proof cases
  case (register user contest digest r)
  obtain team :: current_team and lc :: locked_contest and vd where
    "(\<exists>p\<in>set (db_participations db). participation_key p = (contest, ct_id team) \<and> pa_status p = Withdrawn
        \<and> updates_row (pa_id p) (\<lambda>q. (registered_columns env user (lc_registrationStrategy lc = AutoAccept)
             (defaultDivision db contest) vd q)\<lparr>pa_version := pa_version q + 1\<rparr>) db db')
     \<or> ((contest, ct_id team) \<notin> participation_key ` set (db_participations db)
        \<and> insert_participation (registered_columns env user (lc_registrationStrategy lc = AutoAccept)
             (defaultDivision db contest) vd (new_participation env contest (ct_id team) user)) db = Inr db')"
    (is "?renew \<or> ?new")
    by (rule register_tx_elim [OF register_team_Inr [OF register]])
  then show ?thesis
  proof
    assume ?renew
    then obtain p where p: "p \<in> set (db_participations db)" "pa_status p = Withdrawn"
      "updates_row (pa_id p) (\<lambda>q. (registered_columns env user (lc_registrationStrategy lc = AutoAccept)
         (defaultDivision db contest) vd q)\<lparr>pa_version := pa_version q + 1\<rparr>) db db'" by blast
    have "status_step (Some Withdrawn) (if lc_registrationStrategy lc = AutoAccept then Accepted else Pending)"
      by (simp add: status_step_simps)
    with statuses_update [OF assms(2) p(1,3)] statuses_row [OF assms(2) p(1)] p(2) show ?thesis
      by (intro disjI2 exI [of _ "participation_key p"]) (auto simp: registered_columns_def)
  next
    assume new: ?new
    let ?r = "registered_columns env user (lc_registrationStrategy lc = AutoAccept)
       (defaultDivision db contest) vd (new_participation env contest (ct_id team) user)"
    have k: "participation_key ?r = (contest, ct_id team)"
      by (simp add: participation_key_def registered_columns_def new_participation_def)
    have "status_step None (pa_status ?r)" by (simp add: status_step_simps registered_columns_def)
    with statuses_insert [of ?r db db'] statuses_None [of "(contest, ct_id team)" db] new k show ?thesis
      by (intro disjI2 exI [of _ "(contest, ct_id team)"] exI [of _ "pa_status ?r"]) simp
  qed
next
  case (withdraw user contest r)
  then obtain p f where p: "p \<in> set (db_participations db)" "pa_status p \<in> {Pending, Rejected}"
    "updates_row (pa_id p) f db db'" "\<forall>q. pa_status (f q) = Withdrawn \<and> pa_version (f q) = pa_version q + 1"
    by (rule withdraw_elim)
  have "status_step (Some (pa_status p)) Withdrawn" using p(2) by (auto simp: status_step_simps)
  with statuses_update [OF assms(2) p(1,3)] statuses_row [OF assms(2) p(1)] p(4) show ?thesis
    by (intro disjI2 exI [of _ "participation_key p"] exI [of _ Withdrawn]) simp
next
  case (review command r)
  then obtain p f where p: "p \<in> set (db_participations db)" "pa_status p = Pending"
    "updates_row (pa_id p) f db db'" "\<forall>q. pa_status (f q) = decided (prc_decision command)"
    by (rule review_elim) blast
  have "status_step (Some Pending) (decided (prc_decision command))"
    by (cases "prc_decision command") (simp_all add: status_step_simps)
  with statuses_update [OF assms(2) p(1,3)] statuses_row [OF assms(2) p(1)] p(2,4) show ?thesis
    by (intro disjI2 exI [of _ "participation_key p"] exI [of _ "decided (prc_decision command)"]) simp
next
  case (assign dcommand r)
  then obtain p f where p: "p \<in> set (db_participations db)" "updates_row (pa_id p) f db db'"
    "\<forall>q. pa_status (f q) = pa_status q \<and> pa_version (f q) = pa_version q + 1" by (rule assign_elim)
  from statuses_update [OF assms(2) p(1,2)] statuses_row [OF assms(2) p(1)] p(3) show ?thesis
    by (simp add: fun_upd_idem)
qed

text \<open>
  C24: The repository's operations refine the abstract life cycle of a participation: each either
  leaves every team's status in every contest alone or moves one team along an allowed edge.
\<close>

theorem participation_refines:
  assumes "participation_step env db db'" and "participation_inv db"
  shows "statuses db' = statuses db
    \<or> (\<exists>k s. status_step (statuses db k) s \<and> statuses db' = (statuses db)(k \<mapsto> s))"
  using assms by (rule participation_simulates)

text \<open>
  Every participation operation keeps the invariant of the rows: one participation per team and
  contest, a reviewer and a review time on every decided one, a withdrawal time exactly on the
  withdrawn ones, and references that exist.
\<close>

lemma participation_step_inv:
  assumes "participation_step env db db'" and "participation_inv db"
  shows "participation_inv db'"
  using assms(1)
proof cases
  case (register user contest digest r)
  then show ?thesis
    by (auto elim!: register_tx_elim [OF register_team_Inr] intro: updates_row_inv insert_row_inv assms(2))
next
  case (withdraw user contest r)
  then show ?thesis by (auto elim!: withdraw_elim intro: updates_row_inv assms(2))
next
  case (review command r)
  then show ?thesis by (rule review_elim) (blast intro: updates_row_inv assms(2))
next
  case (assign dcommand r)
  then show ?thesis by (rule assign_elim) (blast intro: updates_row_inv assms(2))
qed
text \<open>An accepted participation is never changed back by these operations.\<close>

lemma accepted_stays:
  assumes "participation_step env db db'" and "participation_inv db" and "statuses db k = Some Accepted"
  shows "statuses db' k = Some Accepted"
  using participation_simulates [OF assms(1,2)] assms(3)
  by (auto elim!: status_step_accepted split: if_splits)

section \<open>What an accepted team satisfied\<close>

definition eligible_team :: "tx_env \<Rightarrow> database \<Rightarrow> contest_row \<Rightarrow> uuid \<Rightarrow> bool" where
  "eligible_team env db c teamId \<longleftrightarrow>
     co_publication_status c = Published
     \<and> derive_contest_time_phase (co_start_at c) (co_end_at c) (env_now env) \<noteq> Ended
     \<and> (co_visibility c = PrivateContest \<longrightarrow> co_invite_required c)
     \<and> co_min_team_size c \<le> int (length (roster db teamId))
     \<and> int (length (roster db teamId)) \<le> co_max_team_size c
     \<and> (\<forall>u\<in>set (roster db teamId). us_status u = Active \<and> us_email_verified_at u \<noteq> None
          \<and> \<not> us_must_change_password u)
     \<and> (\<exists>ds. allowedEmailDomains (co_registration_constraints c) = Inr ds
          \<and> (ds = [] \<or> (\<forall>u\<in>set (roster db teamId). email_domain (us_email_normalized u) \<in> set ds)))"

lemma lockContest_Inr:
  "lockContest env db contest = Inr lc \<Longrightarrow> \<exists>c\<in>set (db_contests db). co_id c = contest
     \<and> lc = \<lparr>lc_id = co_id c, lc_publicationStatus = co_publication_status c,
          lc_registrationStrategy = co_registration_strategy c, lc_visibility = co_visibility c,
          lc_inviteRequired = co_invite_required c, lc_inviteDigest = co_invite_digest c,
          lc_phase = derive_contest_time_phase (co_start_at c) (co_end_at c) (env_now env),
          lc_minTeamSize = co_min_team_size c, lc_maxTeamSize = co_max_team_size c,
          lc_registrationConstraints = co_registration_constraints c\<rparr>"
  by (auto simp: lockContest_def find_Some_iff split: option.splits)

lemma eligibility_Inr:
  assumes "lockContest env db contest = Inr lc" and "requireRegistrationOpen lc = Inr ()"
    and "validateTeamEligibility db t lc = Inr ()"
  obtains c where "c \<in> set (db_contests db)" "co_id c = contest" "eligible_team env db c t"
    "lc_inviteRequired lc = co_invite_required c" "lc_inviteDigest lc = co_invite_digest c"
proof -
  from lockContest_Inr [OF assms(1)] obtain c where c: "c \<in> set (db_contests db)" "co_id c = contest"
    and lc: "lc_publicationStatus lc = co_publication_status c" "lc_visibility lc = co_visibility c"
      "lc_inviteRequired lc = co_invite_required c" "lc_inviteDigest lc = co_invite_digest c"
      "lc_phase lc = derive_contest_time_phase (co_start_at c) (co_end_at c) (env_now env)"
      "lc_minTeamSize lc = co_min_team_size c" "lc_maxTeamSize lc = co_max_team_size c"
      "lc_registrationConstraints lc = co_registration_constraints c" by auto
  have "eligible_team env db c t"
    using assms(2,3) lc unfolding eligible_team_def requireRegistrationOpen_def validateTeamEligibility_def
    by (auto simp: Let_def ebind_Inr_iff ineligible_member_def split: if_splits)
  with c lc show ?thesis by (intro that)
qed

lemma submitted_invite_Inr:
  "verifySubmittedInvite lc d = Inr vd \<Longrightarrow> 
     lc_inviteRequired lc \<longrightarrow> (\<exists>x. lc_inviteDigest lc = Some x \<and> vd = Some x)"
  by (auto simp: verifySubmittedInvite_def safeDigestEqual_def split: if_splits option.splits)

lemma invite_evidence_Inr:
  "verifyInviteEvidence lc e = Inr () \<Longrightarrow> 
     lc_inviteRequired lc \<longrightarrow> (\<exists>x. lc_inviteDigest lc = Some x \<and> e = Some x)"
  by (auto simp: verifyInviteEvidence_def safeDigestEqual_def split: if_splits option.splits)


end
