(* ===== verification/System.thy ===== *)
theory System
  imports Scoring_Consistency Team_Invariant Participation_Invariant
begin

text \<open>
  The modelled transactions as one datatype of operations, executed against the database one after
  the other: a transaction that fails leaves the database as it was. The invariants of the
  components hold together in every state an operation sequence reaches.
\<close>

section \<open>What the scoring transactions leave alone\<close>

text \<open>The tables of accounts, teams, contests and participations.\<close>

definition same_registration :: "database \<Rightarrow> database \<Rightarrow> bool" where
  "same_registration db db' \<longleftrightarrow> db_users db' = db_users db \<and> db_teams db' = db_teams db
     \<and> db_team_members db' = db_team_members db \<and> db_team_invites db' = db_team_invites db
     \<and> db_contests db' = db_contests db \<and> db_divisions db' = db_divisions db
     \<and> db_participations db' = db_participations db \<and> db_contest_challenges db' = db_contest_challenges db"

lemma same_registration_refl [simp]: "same_registration db db"
  by (simp add: same_registration_def)

lemma same_registration_trans:
  "same_registration a b \<Longrightarrow> same_registration b c \<Longrightarrow> same_registration a c"
  by (simp add: same_registration_def)

lemma advance_registration:
  "advanceScoreboardVersion contest t db = Inr (v, db') \<Longrightarrow> same_registration db db'"
  by (auto simp: advanceScoreboardVersion_def Let_def same_registration_def split: option.splits if_splits)

lemma insert_registration:
  "insert_submission u db = Inr db' \<Longrightarrow> same_registration db db'"
  "insert_solve s db = Inr db' \<Longrightarrow> same_registration db db'"
  "insert_score_adjustment a db = Inr db' \<Longrightarrow> same_registration db db'"
  "insert_contest_event e db = Inr db' \<Longrightarrow> same_registration db db'"
  "insert_audit_event v db = Inr db' \<Longrightarrow> same_registration db db'"
  by (auto simp: same_registration_def dest!: insert_submission_Inr insert_solve_Inr
      insert_score_adjustment_Inr insert_contest_event_Inr insert_audit_event_Inr)

lemma append_submission_registration:
  assumes "append_submission m env command db = Inr (r, db')"
  shows "same_registration db db'"
  using assms
proof (cases rule: append_submission_cases)
  case stored
  then show ?thesis by simp
next
  case first
  then obtain u where eq: "db' = db\<lparr>db_submissions := db_submissions db', db_solves := db_solves db',
         db_scoreboard_versions := db_scoreboard_versions db', db_contest_events := db_contest_events db',
         db_cheat_clues := db_cheat_clues db'\<rparr>"
    by (auto simp: appends_def elim!: append_tx_appends)
  show ?thesis unfolding same_registration_def by (subst eq, simp)+
qed

lemma recordScoreAdjustment_registration:
  assumes "recordScoreAdjustment env command db = Inr (r, db')"
  shows "same_registration db db'"
proof -
  have "same_registration db db'" if tx: "recordScoreAdjustment_tx env command db = Inr (r, db')"
  proof (cases "readScoreAdjustmentByRequestId db (rsa_requestId command)")
    case (Some existing)
    then show ?thesis using tx by (auto simp: recordScoreAdjustment_tx_def split: if_splits)
  next
    case None
    with tx obtain a db1 v db2 e where "insert_score_adjustment a db = Inr db1"
      "advanceScoreboardVersion (rsa_contestId command) (rsa_at command) db1 = Inr (v, db2)"
      "insert_audit_event e db2 = Inr db'"
      by (auto simp: recordScoreAdjustment_tx_def Let_def ebind_Inr_iff split: option.splits if_splits)
    then show ?thesis
      by (blast intro: same_registration_trans insert_registration advance_registration)
  qed
  then show ?thesis using assms
    by (auto simp: recordScoreAdjustment_def split: sum.splits if_splits option.splits)
qed

lemma reviewCheatClue_registration:
  assumes "reviewCheatClue env command db = Inr (r, db')"
  shows "same_registration db db'"
  using assms by (auto simp: reviewCheatClue_def Let_def ebind_Inr_iff same_registration_def
      dest!: insert_audit_event_Inr split: option.splits if_splits)

section \<open>Invariants of one component under the steps of another\<close>

lemma participation_checks_mono:
  assumes "list_all snd (participation_checks p db)" and "db_users db' = db_users db"
    and "db_contests db' = db_contests db" and "db_divisions db' = db_divisions db"
    and "te_id ` set (db_teams db) \<subseteq> te_id ` set (db_teams db')"
  shows "list_all snd (participation_checks p db')"
  using assms by (auto simp: participation_checks_def known_def split: option.splits)

lemma participation_inv_mono:
  assumes "participation_inv db" and "db_participations db' = db_participations db"
    and "db_users db' = db_users db" and "db_contests db' = db_contests db"
    and "db_divisions db' = db_divisions db" and "te_id ` set (db_teams db) \<subseteq> te_id ` set (db_teams db')"
  shows "participation_inv db'"
  using assms participation_checks_mono [OF _ assms(3-6)] by (simp add: participation_inv_def)

lemma team_inv_cong:
  "db_teams db' = db_teams db \<Longrightarrow> db_team_members db' = db_team_members db \<Longrightarrow>
     db_team_invites db' = db_team_invites db \<Longrightarrow> team_inv db' = team_inv db"
  by (simp add: team_inv_defs captains_def current_invites_def)

lemma team_effect_tables:
  assumes "team_effect t db db'"
  shows "db_users db' = db_users db" "db_contests db' = db_contests db" "db_divisions db' = db_divisions db"
    "db_participations db' = db_participations db" "db_contest_challenges db' = db_contest_challenges db"
    "db_submissions db' = db_submissions db" "db_solves db' = db_solves db"
    "db_score_adjustments db' = db_score_adjustments db" "db_scoreboard_versions db' = db_scoreboard_versions db"
    "te_id ` set (db_teams db) \<subseteq> te_id ` set (db_teams db')"
proof -
  have eq: "db' = db\<lparr>db_teams := db_teams db', db_team_members := db_team_members db',
       db_team_invites := db_team_invites db', db_audit_events := db_audit_events db'\<rparr>"
    using assms by (simp add: team_effect_def)
  show "db_users db' = db_users db" "db_contests db' = db_contests db" "db_divisions db' = db_divisions db"
    "db_participations db' = db_participations db" "db_contest_challenges db' = db_contest_challenges db"
    "db_submissions db' = db_submissions db" "db_solves db' = db_solves db"
    "db_score_adjustments db' = db_score_adjustments db" "db_scoreboard_versions db' = db_scoreboard_versions db"
    by (subst eq, simp)+
  have "set (map te_id (db_teams db)) \<subseteq> set (map te_id (db_teams db'))"
    using assms unfolding team_effect_def by (elim conjE disjE) auto
  then show "te_id ` set (db_teams db) \<subseteq> te_id ` set (db_teams db')" by simp
qed

lemma scoring_inv_teams:
  assumes "scoring_inv db" and "team_effect t db db'" and "members_inv db'"
  shows "scoring_inv db'"
proof -
  note tables = team_effect_tables [OF assms(2)]
  have "rows_inv db'"
    using assms(1,3) subsetD [OF tables(10)] by (simp add: scoring_inv_def rows_inv_def members_inv_def tables(4,5))
  then show ?thesis using assms(1)
    by (simp add: scoring_inv_def submissions_inv_def solves_inv_def adjustments_inv_def versions_inv_def
        in_contest_def solves_at_def version_of_def fact_count_def tables)
qed

text \<open>A participation step keeps every row's identifier and contest.\<close>

lemma participation_step_rows:
  assumes "participation_step env db db'"
  shows "db' = db\<lparr>db_participations := db_participations db', db_audit_events := db_audit_events db'\<rparr>
    \<and> (\<forall>p\<in>set (db_participations db). \<exists>q\<in>set (db_participations db'). pa_id q = pa_id p
         \<and> participation_key q = participation_key p)"
proof -
  have upd: ?thesis if u: "updates_row i f db db'" for i f
  proof (intro conjI ballI)
    show "db' = db\<lparr>db_participations := db_participations db', db_audit_events := db_audit_events db'\<rparr>"
      by (rule updates_row_rows(2) [OF u])
    fix p
    assume p: "p \<in> set (db_participations db)"
    let ?q = "if pa_id p = i then f p else p"
    have "?q \<in> set (db_participations db')" unfolding updates_row_rows(1) [OF u] using p by force
    moreover have "pa_id ?q = pa_id p \<and> participation_key ?q = participation_key p"
      using updates_row_rows(4,5) [OF u, of p] by simp
    ultimately show "\<exists>q\<in>set (db_participations db'). pa_id q = pa_id p \<and> participation_key q = participation_key p"
      by blast
  qed
  have ins: ?thesis if i: "insert_participation r db = Inr db'" for r
    using insert_participation_frame [OF i] insert_participation_Inr [OF i] by fastforce
  show ?thesis using assms
  proof cases
    case (register user contest digest r)
    show ?thesis
      by (rule register_tx_elim [OF register_team_Inr [OF register]], elim disjE bexE conjE)
        (erule upd, erule ins)
  next
    case (withdraw user contest r)
    then show ?thesis by (rule withdraw_elim) (rule upd)
  next
    case (review command r)
    then show ?thesis by (rule review_elim) (rule upd)
  next
    case (assign dcommand r)
    then show ?thesis by (rule assign_elim) (rule upd)
  qed
qed

lemma scoring_inv_participations:
  assumes "scoring_inv db" and "participation_step env db db'" and "participation_inv db'"
  shows "scoring_inv db'"
proof -
  have eq: "db' = db\<lparr>db_participations := db_participations db', db_audit_events := db_audit_events db'\<rparr>"
    and keep: "\<forall>p\<in>set (db_participations db). \<exists>q\<in>set (db_participations db'). pa_id q = pa_id p
         \<and> pa_contest_id q = pa_contest_id p"
    using participation_step_rows [OF assms(2)] by (auto simp: participation_key_def)
  have tables: "db_teams db' = db_teams db" "db_contest_challenges db' = db_contest_challenges db"
    "db_submissions db' = db_submissions db" "db_solves db' = db_solves db"
    "db_score_adjustments db' = db_score_adjustments db" "db_scoreboard_versions db' = db_scoreboard_versions db"
    by (subst eq, simp)+
  have "pa_team_id p \<in> te_id ` set (db_teams db)" if "p \<in> set (db_participations db')" for p
    using assms(3) that tables(1) by (auto simp: participation_inv_def participation_checks_def known_def)
  then have "rows_inv db'"
    using assms(1,3) by (auto simp: scoring_inv_def rows_inv_def participation_inv_def tables)
  moreover have "in_contest db contest c p \<Longrightarrow> in_contest db' contest c p" for contest c p
    using keep by (fastforce simp: in_contest_def tables)
  moreover have "adjustments_inv db'"
    using assms(1) keep by (fastforce simp: scoring_inv_def adjustments_inv_def tables)
  ultimately show ?thesis using assms(1)
    by (simp add: scoring_inv_def submissions_inv_def solves_inv_def versions_inv_def solves_at_def
        version_of_def fact_count_def tables)
qed

section \<open>Operations and their execution\<close>

datatype operation =
    CreateTeam string string uuid bytes string
  | JoinTeam uuid bytes
  | LeaveTeam uuid
  | RemoveTeamMember uuid uuid
  | RotateInvite uuid bytes string
  | TransferTeam uuid uuid
  | CorrectTeam team_correction_command
  | RegisterTeam uuid uuid "bytes option"
  | WithdrawTeam uuid uuid
  | ReviewParticipation participation_review_command
  | AssignDivision participation_division_command
  | AppendSubmission append_submission_command
  | AdjustScore score_adjustment_command
  | ReviewClue review_cheat_clue_command

text \<open>The database after a transaction: a failed one is rolled back.\<close>

definition committed :: "database \<Rightarrow> 'e + ('a \<times> database) \<Rightarrow> database" where
  "committed db result = (case result of Inl _ \<Rightarrow> db | Inr (_, db') \<Rightarrow> db')"

fun execute :: "js_math \<Rightarrow> tx_env \<Rightarrow> operation \<Rightarrow> database \<Rightarrow> database" where
  "execute m env (CreateTeam name nname captain digest code) db =
     committed db (create_team env name nname captain digest code db)"
| "execute m env (JoinTeam user digest) db = committed db (join_team env user digest db)"
| "execute m env (LeaveTeam user) db = committed db (leave_team env user db)"
| "execute m env (RemoveTeamMember actor member) db = committed db (removeMember env actor member db)"
| "execute m env (RotateInvite actor digest code) db = committed db (rotateInvite env actor digest code db)"
| "execute m env (TransferTeam actor member) db = committed db (transferCaptain env actor member db)"
| "execute m env (CorrectTeam command) db = committed db (correctMembership env command db)"
| "execute m env (RegisterTeam user contest digest) db = committed db (register_team env user contest digest db)"
| "execute m env (WithdrawTeam user contest) db = committed db (withdraw_team env user contest db)"
| "execute m env (ReviewParticipation command) db = committed db (review_participation env command db)"
| "execute m env (AssignDivision command) db = committed db (assignDivision env command db)"
| "execute m env (AppendSubmission command) db = committed db (append_submission m env command db)"
| "execute m env (AdjustScore command) db = committed db (recordScoreAdjustment env command db)"
| "execute m env (ReviewClue command) db = committed db (reviewCheatClue env command db)"

text \<open>A history: each transaction with the clock and the identifiers it draws.\<close>

fun run_history :: "js_math \<Rightarrow> (tx_env \<times> operation) list \<Rightarrow> database \<Rightarrow> database" where
  "run_history m [] db = db"
| "run_history m ((env, x) # xs) db = run_history m xs (execute m env x db)"

lemma run_history_append: "run_history m (xs @ ys) db = run_history m ys (run_history m xs db)"
  by (induction xs arbitrary: db) auto

text \<open>One step of the system: some transaction commits.\<close>

inductive system_step :: "js_math \<Rightarrow> database \<Rightarrow> database \<Rightarrow> bool" for m :: js_math where
  team: "team_step env db db' \<Longrightarrow> system_step m db db'"
| participation: "participation_step env db db' \<Longrightarrow> system_step m db db'"
| submission: "append_submission m env command db = Inr (r, db') \<Longrightarrow> system_step m db db'"
| adjustment: "recordScoreAdjustment env acommand db = Inr (a, db') \<Longrightarrow> system_step m db db'"
| clue: "reviewCheatClue env ccommand db = Inr (c, db') \<Longrightarrow> system_step m db db'"

lemma committedI:
  assumes "\<And>r db'. x = Inr (r, db') \<Longrightarrow> P db'"
  shows "committed db x = db \<or> P (committed db x)"
  using assms by (auto simp: committed_def split: sum.split prod.split)

lemmas step_intros = member_step.intros team_step.intros participation_step.intros system_step.intros

lemma execute_step: "execute m env x db = db \<or> system_step m db (execute m env x db)"
  by (cases x; simp; rule committedI; blast intro: step_intros)
section \<open>The system invariant\<close>

definition system_inv :: "database \<Rightarrow> bool" where
  "system_inv db \<longleftrightarrow> scoring_inv db \<and> team_inv db \<and> participation_inv db"

lemma system_inv_scoring: "system_inv db \<Longrightarrow> scoring_inv db"
  by (simp add: system_inv_def)

lemma system_inv_scoring_step:
  assumes "system_inv db" and "scoring_inv db'" and "same_registration db db'"
  shows "system_inv db'"
proof -
  have same: "db_users db' = db_users db" "db_teams db' = db_teams db" "db_team_members db' = db_team_members db"
    "db_team_invites db' = db_team_invites db" "db_contests db' = db_contests db"
    "db_divisions db' = db_divisions db" "db_participations db' = db_participations db"
    using assms(3) by (simp_all add: same_registration_def)
  have part: "participation_inv db" using assms(1) by (simp add: system_inv_def)
  have "team_inv db'" using assms(1) team_inv_cong [of db' db] same by (simp add: system_inv_def)
  moreover have "participation_inv db'"
    using same by (intro participation_inv_mono [OF part]) simp_all
  ultimately show ?thesis using assms(2) by (simp add: system_inv_def)
qed

lemma system_step_inv:
  assumes "system_step m db db'" and inv: "system_inv db"
  shows "system_inv db'"
  using assms(1)
proof cases
  case (team env)
  then obtain t where t: "team_effect t db db'" using team_step_effect by blast
  have part: "participation_inv db" using inv by (simp add: system_inv_def)
  have ti: "team_inv db'" using team_step_inv [OF team] inv by (simp add: system_inv_def)
  moreover have "scoring_inv db'"
    using scoring_inv_teams [OF _ t] inv ti by (simp add: system_inv_def team_inv_def)
  moreover have "participation_inv db'"
    using team_effect_tables [OF t] by (intro participation_inv_mono [OF part]) simp_all
  ultimately show ?thesis by (simp add: system_inv_def)
next
  case (participation env)
  have p: "participation_inv db'" using participation_step_inv [OF participation] inv by (simp add: system_inv_def)
  moreover have "scoring_inv db'"
    using scoring_inv_participations [OF _ participation p] inv by (simp add: system_inv_def)
  moreover have "team_inv db'"
  proof -
    have eq: "db' = db\<lparr>db_participations := db_participations db', db_audit_events := db_audit_events db'\<rparr>"
      using participation_step_rows [OF participation] by blast
    have "db_teams db' = db_teams db" "db_team_members db' = db_team_members db"
      "db_team_invites db' = db_team_invites db" by (subst eq, simp)+
    then have "team_inv db' = team_inv db" by (rule team_inv_cong)
    then show ?thesis using inv by (simp add: system_inv_def)
  qed
  ultimately show ?thesis by (simp add: system_inv_def)
next
  case (submission env command r)
  show ?thesis
    by (rule system_inv_scoring_step [OF inv append_submission_inv [OF system_inv_scoring [OF inv] submission]
        append_submission_registration [OF submission]])
next
  case (adjustment env acommand a)
  show ?thesis
    by (rule system_inv_scoring_step [OF inv recordScoreAdjustment_inv [OF system_inv_scoring [OF inv] adjustment]
        recordScoreAdjustment_registration [OF adjustment]])
next
  case (clue env ccommand c)
  have "scoring_inv db'"
    using scoring_inv_cong [OF reviewCheatClue_same [OF clue]] system_inv_scoring [OF inv] by simp
  then show ?thesis by (rule system_inv_scoring_step [OF inv _ reviewCheatClue_registration [OF clue]])
qed

text \<open>An invariant of the steps holds along every history.\<close>

locale step_invariant =
  fixes m :: js_math and I :: "database \<Rightarrow> bool"
  assumes step: "system_step m db db' \<Longrightarrow> I db \<Longrightarrow> I db'"
begin

lemma execute_keeps: "I db \<Longrightarrow> I (execute m env x db)"
  using execute_step [of m env x db] step by (elim disjE) simp_all

lemma history_keeps: "I db \<Longrightarrow> I (run_history m xs db)"
  by (induction xs arbitrary: db) (auto simp: execute_keeps)

end

text \<open>The platform before any team exists: accounts, contests and challenges are configured.\<close>

definition fresh_platform :: "database \<Rightarrow> bool" where
  "fresh_platform db \<longleftrightarrow> distinct (map ch_id (db_contest_challenges db)) \<and> db_teams db = []
     \<and> db_team_members db = [] \<and> db_team_invites db = [] \<and> db_participations db = []
     \<and> db_submissions db = [] \<and> db_solves db = [] \<and> db_score_adjustments db = []
     \<and> db_scoreboard_versions db = []"

lemma fresh_platform_inv: "fresh_platform db \<Longrightarrow> system_inv db"
  by (simp add: fresh_platform_def system_inv_def scoring_inv_defs team_inv_defs participation_inv_def
      solves_at_def version_of_def fact_count_def current_invites_def)

interpretation system: step_invariant m system_inv for m
  by unfold_locales (rule system_step_inv)

text \<open>The configuration of contests and challenges does not change along a history.\<close>

definition same_contests :: "database \<Rightarrow> database \<Rightarrow> bool" where
  "same_contests db db' \<longleftrightarrow> db_contests db' = db_contests db
     \<and> db_contest_challenges db' = db_contest_challenges db"

lemma system_step_contests:
  assumes "system_step m db db'"
  shows "same_contests db db'"
  using assms
proof cases
  case (team env)
  then show ?thesis using team_step_effect team_effect_tables(2,5) unfolding same_contests_def by blast
next
  case (participation env)
  then have eq: "db' = db\<lparr>db_participations := db_participations db', db_audit_events := db_audit_events db'\<rparr>"
    using participation_step_rows by blast
  show ?thesis unfolding same_contests_def by (subst eq, simp)+
next
  case (submission env command r)
  then show ?thesis using append_submission_registration by (auto simp: same_contests_def same_registration_def)
next
  case (adjustment env acommand a)
  then show ?thesis using recordScoreAdjustment_registration by (auto simp: same_contests_def same_registration_def)
next
  case (clue env ccommand c)
  then show ?thesis using reviewCheatClue_registration by (auto simp: same_contests_def same_registration_def)
qed

interpretation contests: step_invariant m "same_contests db0" for m db0
  by unfold_locales (auto simp: same_contests_def dest: system_step_contests)

section \<open>Properties\<close>

text \<open>
  Whatever sequence of transactions runs on a freshly configured platform, the tables stay
  consistent: solves and correct submissions match one to one, solve orders have no gaps, the
  scoreboard version counts official solves and adjustments, every team has one captain and every
  user at most one team, and every team at most one participation per contest.
\<close>

theorem history_invariant:
  assumes "fresh_platform db"
  shows "system_inv (run_history m xs db)"
  by (rule system.history_keeps [OF fresh_platform_inv [OF assms]])

lemma load_facts_total:
  assumes "known co_id (db_contests db) contest"
    and "\<forall>c\<in>set (db_contest_challenges db). ch_contest_id c = contest \<longrightarrow>
      challengeScoringPolicySchema (ch_scoring_policy c) \<noteq> None"
  shows "\<exists>facts. load_facts db contest None = Inr facts"
proof -
  have "\<exists>cs. emap load_challenge
      (sort_key ch_id (filter (\<lambda>c. ch_contest_id c = contest) (db_contest_challenges db))) = Inr cs"
    using assms(2) by (intro emap_progress) (auto simp: load_challenge_def split: option.splits)
  with assms(1) show ?thesis by (auto simp: load_facts_def)
qed

text \<open>What the replay may add up: every solve at its highest value and every adjustment.\<close>

definition score_bound :: "database \<Rightarrow> int" where
  "score_bound db = 1000000 * int (length (db_solves db))
     + (\<Sum>a\<leftarrow>db_score_adjustments db. \<bar>sa_points_delta a\<bar>) + int (length (db_score_adjustments db))"

lemma sum_list_filter_le: "(\<Sum>a\<leftarrow>filter P as. \<bar>f a\<bar>) \<le> (\<Sum>a\<leftarrow>as. \<bar>f a :: int\<bar>)"
  by (induction as) auto

lemma adjustments_bound:
  assumes L: "loaded db contest facts"
  shows "(\<Sum>a\<leftarrow>f_adjustments facts. \<bar>ra_pointsDelta a\<bar>) + int (length (f_adjustments facts))
    \<le> (\<Sum>a\<leftarrow>db_score_adjustments db. \<bar>sa_points_delta a\<bar>) + int (length (db_score_adjustments db))"
proof -
  let ?mine = "filter (\<lambda>a. sa_contest_id a = contest) (db_score_adjustments db)"
  have "mset (f_adjustments facts) = mset (map load_adjustment ?mine)"
    by (simp add: loaded_fields(6) [OF L] contest_adjustments_def before_cutoff_def)
  then have ms: "mset (map (\<lambda>a. \<bar>ra_pointsDelta a\<bar>) (f_adjustments facts)) =
      mset (map (\<lambda>a. \<bar>sa_points_delta a\<bar>) ?mine)"
    by (simp add: image_mset.compositionality comp_def load_adjustment_def)
  then have len: "length (f_adjustments facts) = length ?mine"
    by (metis length_map mset_eq_length)
  have "(\<Sum>a\<leftarrow>f_adjustments facts. \<bar>ra_pointsDelta a\<bar>) = (\<Sum>a\<leftarrow>?mine. \<bar>sa_points_delta a\<bar>)"
    using sum_list_mset_cong [OF ms, of "\<lambda>x. x"] by simp
  also have "\<dots> \<le> (\<Sum>a\<leftarrow>db_score_adjustments db. \<bar>sa_points_delta a\<bar>)"
    by (rule sum_list_filter_le)
  finally show ?thesis using len by (simp add: add_mono)
qed

text \<open>A database in order can be replayed.\<close>

lemma replayable_inv:
  assumes inv: "scoring_inv db" and "known co_id (db_contests db) contest"
    and "\<forall>c\<in>set (db_contest_challenges db). ch_contest_id c = contest \<longrightarrow>
      challengeScoringPolicySchema (ch_scoring_policy c) \<noteq> None"
    and "score_bound db \<le> max_safe_integer"
  shows "\<exists>r. replay_contest m db contest None = Inr r \<and> r_factVersion r = version_of db contest"
proof -
  obtain facts where facts: "load_facts db contest None = Inr facts"
    using load_facts_total [OF assms(2,3)] by blast
  with inv have L: "loaded db contest facts" by (simp add: loaded_def)
  have "facts_scorable facts"
    using assms(4) adjustments_bound [OF L] by (intro scorable [OF L]) (simp add: score_bound_def)
  then obtain r where r: "replayContestScoring m facts = Inr r" using replay_scorable by blast
  have "r_factVersion r = version_of db contest"
    using replay_InrD [OF r] version_counts [OF L] by (simp add: replay_holds_def officialSolves_def)
  with facts r show ?thesis by (simp add: replay_contest_def)
qed

text \<open>
  After any history the official scoreboard of an existing contest can be computed: the facts
  load, the replay accepts them, and its version is the stored scoreboard version - as long as the
  points a contest can add up stay within the safe integers.
\<close>

theorem scoreboard_replayable:
  assumes "fresh_platform db0" and "db = run_history m xs db0"
    and "known co_id (db_contests db0) contest"
    and "\<forall>c\<in>set (db_contest_challenges db0). ch_contest_id c = contest \<longrightarrow>
      challengeScoringPolicySchema (ch_scoring_policy c) \<noteq> None"
    and "score_bound db \<le> max_safe_integer"
  shows "\<exists>r. replay_contest m db contest None = Inr r \<and> r_factVersion r = version_of db contest"
proof -
  have inv: "scoring_inv db"
    using system.history_keeps [OF fresh_platform_inv [OF assms(1)], of m xs] assms(2) by (simp add: system_inv_def)
  have "same_contests db0 db"
    using contests.history_keeps [of db0 db0 m xs] assms(2) by (simp add: same_contests_def)
  then show ?thesis using assms(3-5) by (intro replayable_inv [OF inv]) (simp_all add: same_contests_def)
qed

end
