(* ===== verification/Submission_Safety.thy ===== *)
theory Submission_Safety
  imports System
begin

text \<open>
  What holds of every stored submission along a history - the window, the mode, the accepted
  participation, the limit - and what a repeated request returns. The log of submissions, the solves
  and the score adjustments only grow.
\<close>

section \<open>The logs only grow\<close>

definition grows :: "database \<Rightarrow> database \<Rightarrow> bool" where
  "grows db db' \<longleftrightarrow> (\<exists>us as. db_submissions db' = db_submissions db @ us
     \<and> db_score_adjustments db' = db_score_adjustments db @ as)"

lemma grows_refl [simp]: "grows db db"
  by (simp add: grows_def)

lemma grows_trans: "grows a b \<Longrightarrow> grows b c \<Longrightarrow> grows a c"
  by (auto simp: grows_def)

text \<open>A step adds at most one submission, admitted by \<open>admitWith\<close> on the database before it.\<close>

definition submission_added :: "database \<Rightarrow> database \<Rightarrow> bool" where
  "submission_added db db' \<longleftrightarrow> (\<exists>env command adm res. admitWith db command = Inr adm
     \<and> db_submissions db' = db_submissions db @ [submission_of env adm command res]
     \<and> (\<exists>cs. db_cheat_clues db' = db_cheat_clues db @ cs)
     \<and> db_score_adjustments db' = db_score_adjustments db)"

lemma append_added:
  assumes "append_submission m env command db = Inr (r, db')"
  shows "db' = db \<or> submission_added db db'"
  using assms
proof (cases rule: append_submission_cases)
  case first
  from append_tx_appends [OF first(2,1)] obtain adm res where adm: "admitWith db command = Inr adm"
    and a: "appends (submission_of env adm command res) db db'" by blast
  from a have eq: "db' = db\<lparr>db_submissions := db_submissions db', db_solves := db_solves db',
         db_scoreboard_versions := db_scoreboard_versions db', db_contest_events := db_contest_events db',
         db_cheat_clues := db_cheat_clues db'\<rparr>" unfolding appends_def by (elim conjE)
  have "db_score_adjustments db' = db_score_adjustments db" by (subst eq) simp
  with adm a show ?thesis unfolding submission_added_def appends_def by blast
qed simp

lemma recordScoreAdjustment_frame:
  assumes "recordScoreAdjustment env command db = Inr (r, db')"
  shows "db' = db \<or> (\<exists>a. db_score_adjustments db' = db_score_adjustments db @ [a]
     \<and> db_submissions db' = db_submissions db \<and> db_cheat_clues db' = db_cheat_clues db)"
proof -
  have ?thesis if tx: "recordScoreAdjustment_tx env command db = Inr (r, db')"
  proof (cases "readScoreAdjustmentByRequestId db (rsa_requestId command)")
    case (Some existing)
    then show ?thesis using tx by (auto simp: recordScoreAdjustment_tx_def split: if_splits)
  next
    case None
    with tx obtain db1 v db2 e where a: "insert_score_adjustment (adjustment_of env command) db = Inr db1"
      "advanceScoreboardVersion (rsa_contestId command) (rsa_at command) db1 = Inr (v, db2)"
      "insert_audit_event e db2 = Inr db'"
      by (auto simp: recordScoreAdjustment_tx_def Let_def ebind_Inr_iff split: option.splits if_splits)
    from advance_frame [OF a(2)] have "db_score_adjustments db2 = db_score_adjustments db1"
      "db_submissions db2 = db_submissions db1" "db_cheat_clues db2 = db_cheat_clues db1"
      by (metis database.ext_inject database.surjective database.update_convs(13))+
    with insert_score_adjustment_Inr [OF a(1)] insert_audit_event_Inr [OF a(3)] show ?thesis by simp
  qed
  then show ?thesis using assms
    by (auto simp: recordScoreAdjustment_def split: sum.splits if_splits option.splits)
qed

lemma reviewCheatClue_frame:
  assumes "reviewCheatClue env command db = Inr (r, db')"
  shows "db_submissions db' = db_submissions db \<and> db_score_adjustments db' = db_score_adjustments db"
  using assms by (auto simp: reviewCheatClue_def Let_def ebind_Inr_iff
      dest!: insert_audit_event_Inr split: option.splits if_splits)

lemma registration_logs:
  assumes "team_step env db db' \<or> participation_step env db db'"
  shows "db_submissions db' = db_submissions db \<and> db_score_adjustments db' = db_score_adjustments db
    \<and> db_cheat_clues db' = db_cheat_clues db"
  using assms
proof
  assume "team_step env db db'"
  then obtain t where t: "team_effect t db db'" using team_step_effect by blast
  then have eq: "db' = db\<lparr>db_teams := db_teams db', db_team_members := db_team_members db',
       db_team_invites := db_team_invites db', db_audit_events := db_audit_events db'\<rparr>"
    by (simp add: team_effect_def)
  have "db_cheat_clues db' = db_cheat_clues db" by (subst eq) simp
  with team_effect_tables [OF t] show ?thesis by simp
next
  assume "participation_step env db db'"
  then have eq: "db' = db\<lparr>db_participations := db_participations db', db_audit_events := db_audit_events db'\<rparr>"
    using participation_step_rows by blast
  show ?thesis by (intro conjI) (subst eq, simp)+
qed

lemma system_step_submissions:
  assumes "system_step m db db'"
  shows "db_submissions db' = db_submissions db \<or> submission_added db db'"
  using assms
proof cases
  case (submission env command r)
  then show ?thesis using append_added by blast
qed (use registration_logs recordScoreAdjustment_frame reviewCheatClue_frame in blast)+

lemma system_step_grows:
  assumes "system_step m db db'"
  shows "grows db db'"
  using assms
proof cases
  case (submission env command r)
  then show ?thesis using append_added by (fastforce simp: grows_def submission_added_def)
next
  case (adjustment env acommand a)
  then show ?thesis using recordScoreAdjustment_frame by (fastforce simp: grows_def)
next
  case (clue env ccommand c)
  then show ?thesis using reviewCheatClue_frame by (fastforce simp: grows_def)
qed (use registration_logs in \<open>fastforce simp: grows_def\<close>)+

interpretation logs: step_invariant m "grows db0" for m db0
  by unfold_locales (blast intro: grows_trans system_step_grows)

section \<open>Admitted submissions\<close>

definition submission_admitted :: "database \<Rightarrow> submission_row \<Rightarrow> bool" where
  "submission_admitted db u \<longleftrightarrow>
     (\<exists>c\<in>set (db_contests db). co_id c = su_contest_id u \<and> co_publication_status c = Published
        \<and> co_start_at c \<le> su_submitted_at u
        \<and> (su_mode u = Official \<longleftrightarrow> su_submitted_at u < co_end_at c)
        \<and> (su_mode u = Practice \<longrightarrow> co_practice_enabled c))
     \<and> (\<exists>p\<in>set (db_participations db). pa_id p = su_participation_id u
        \<and> pa_contest_id p = su_contest_id u \<and> pa_status p = Accepted)
     \<and> (\<exists>x\<in>set (db_contest_challenges db). ch_id x = su_challenge_id u \<and> ch_contest_id x = su_contest_id u
        \<and> ch_enabled x \<and> getTime_ge (su_submitted_at u) (ch_publish_at x)
        \<and> (su_mode u = Official \<longrightarrow> ch_close_at x = None
            \<or> \<not> getTime_ge (su_submitted_at u) (ch_close_at x)))"

definition limits_kept :: "database \<Rightarrow> bool" where
  "limits_kept db \<longleftrightarrow> (\<forall>x\<in>set (db_contest_challenges db). \<forall>limit p mode.
     ch_submission_limit x = Some limit \<and> 0 \<le> limit \<longrightarrow> submission_count db p (ch_id x) mode \<le> limit)"

lemma find_in: "find P xs = Some x \<Longrightarrow> x \<in> set xs \<and> P x"
  by (auto simp: find_Some_iff)

lemma admitWith_admitted:
  assumes "admitWith db command = Inr adm"
  shows "submission_admitted db (submission_of env adm command res)"
  using assms
proof (rule admitWith_elim, goal_cases)
  case (1 contest mode team participation challenge flagPolicy scoringPolicy)
  have "mode = Official \<longleftrightarrow> sac_at command < co_end_at contest" "mode = Practice \<longrightarrow> co_practice_enabled contest"
    using 1(2) by (auto simp: submission_mode_at_def split: if_splits)
  then show ?case
    using 1 find_in [OF 1(1)] find_in [OF 1(4)] find_in [OF 1(5)]
    unfolding submission_admitted_def submission_of_def by auto
qed

lemma submission_count_snoc:
  "db_submissions db' = db_submissions db @ [u] \<Longrightarrow>
     submission_count db' p c mode = submission_count db p c mode
       + (if su_participation_id u = p \<and> su_challenge_id u = c \<and> su_mode u = mode then 1 else 0)"
  by (simp add: submission_count_def)

text \<open>Accepted participations stay accepted, row by row.\<close>

lemma accepted_row_stays:
  assumes "participation_step env db db'" and "participation_inv db"
    and "p \<in> set (db_participations db)" and "pa_status p = Accepted"
  shows "\<exists>q\<in>set (db_participations db'). pa_id q = pa_id p \<and> pa_contest_id q = pa_contest_id p
    \<and> pa_status q = Accepted"
proof -
  obtain q where q: "q \<in> set (db_participations db')" "pa_id q = pa_id p" "participation_key q = participation_key p"
    using participation_step_rows [OF assms(1)] assms(3) by blast
  have "statuses db (participation_key p) = Some Accepted" using statuses_row [OF assms(2,3)] assms(4) by simp
  then have "statuses db' (participation_key q) = Some Accepted"
    using accepted_stays [OF assms(1,2)] q(3) by simp
  then have "pa_status q = Accepted"
    using statuses_row [OF participation_step_inv [OF assms(1,2)] q(1)] by simp
  with q show ?thesis by (auto simp: participation_key_def)
qed

definition accepted_kept :: "database \<Rightarrow> database \<Rightarrow> bool" where
  "accepted_kept db db' \<longleftrightarrow> (\<forall>p\<in>set (db_participations db). pa_status p = Accepted \<longrightarrow>
     (\<exists>q\<in>set (db_participations db'). pa_id q = pa_id p \<and> pa_contest_id q = pa_contest_id p
        \<and> pa_status q = Accepted))"

lemma system_step_accepted:
  assumes "system_step m db db'" and "system_inv db"
  shows "accepted_kept db db'"
  using assms(1)
proof cases
  case (participation env)
  then show ?thesis using accepted_row_stays assms(2) by (fastforce simp: accepted_kept_def system_inv_def)
next
  case (team env)
  then show ?thesis using team_step_effect team_effect_tables(4) by (fastforce simp: accepted_kept_def)
next
  case (submission env command r)
  then show ?thesis using append_submission_registration
    by (fastforce simp: accepted_kept_def same_registration_def)
next
  case (adjustment env acommand a)
  then show ?thesis using recordScoreAdjustment_registration
    by (fastforce simp: accepted_kept_def same_registration_def)
next
  case (clue env ccommand c)
  then show ?thesis using reviewCheatClue_registration
    by (fastforce simp: accepted_kept_def same_registration_def)
qed

lemma submission_admitted_mono:
  assumes "submission_admitted db u" and "same_contests db db'" and "accepted_kept db db'"
  shows "submission_admitted db' u"
  using assms unfolding submission_admitted_def same_contests_def accepted_kept_def by metis

definition admission_inv :: "database \<Rightarrow> bool" where
  "admission_inv db \<longleftrightarrow> system_inv db \<and> limits_kept db
     \<and> (\<forall>u\<in>set (db_submissions db). submission_admitted db u)"

lemma limits_step:
  assumes "limits_kept db" and "system_inv db" and "submission_added db db'" and "same_contests db db'"
  shows "limits_kept db'"
  unfolding limits_kept_def
proof (intro ballI allI impI)
  fix x limit p mode
  assume x: "x \<in> set (db_contest_challenges db')" and l: "ch_submission_limit x = Some limit \<and> 0 \<le> limit"
  then have x: "x \<in> set (db_contest_challenges db)" using assms(4) by (simp add: same_contests_def)
  obtain env command adm res where adm: "admitWith db command = Inr adm"
    and sub: "db_submissions db' = db_submissions db @ [submission_of env adm command res]"
    using assms(3) by (auto simp: submission_added_def)
  let ?u = "submission_of env adm command res"
  have old: "submission_count db p (ch_id x) mode \<le> limit"
    using assms(1) x l by (simp add: limits_kept_def)
  show "submission_count db' p (ch_id x) mode \<le> limit"
  proof (cases "su_participation_id ?u = p \<and> su_challenge_id ?u = ch_id x \<and> su_mode ?u = mode")
    case False
    with old show ?thesis by (auto simp: submission_count_snoc [OF sub])
  next
    case True
    have "submission_count db p (ch_id x) mode < limit"
      using adm
    proof (rule admitWith_elim, goal_cases)
      case (1 contest mode' team participation challenge flagPolicy scoringPolicy)
      have "ch_id challenge = ch_id x" "p = pa_id participation" "mode = mode'"
        using True 1(15) by (simp_all add: submission_of_def)
      moreover have "inj_on ch_id (set (db_contest_challenges db))"
        using assms(2) by (simp add: system_inv_def scoring_inv_def rows_inv_def distinct_map)
      then have "challenge = x"
        by (rule inj_onD) (use find_in [OF 1(5)] x \<open>ch_id challenge = ch_id x\<close> in simp_all)
      ultimately show ?case using 1(14) l by simp
    qed
    then show ?thesis by (simp add: submission_count_snoc [OF sub])
  qed
qed

lemma admission_step:
  assumes "system_step m db db'" and "admission_inv db"
  shows "admission_inv db'"
proof -
  have inv: "system_inv db" using assms(2) by (simp add: admission_inv_def)
  note keep = system_step_contests [OF assms(1)] system_step_accepted [OF assms(1) inv]
  have adm: "submission_admitted db' u" if "u \<in> set (db_submissions db')" for u
    using system_step_submissions [OF assms(1)]
  proof
    assume "db_submissions db' = db_submissions db"
    then show ?thesis using that assms(2) submission_admitted_mono [OF _ keep] by (auto simp: admission_inv_def)
  next
    assume "submission_added db db'"
    then have "u \<in> set (db_submissions db) \<or> submission_admitted db u"
      using that admitWith_admitted by (auto simp: submission_added_def)
    then show ?thesis using assms(2) submission_admitted_mono [OF _ keep] by (auto simp: admission_inv_def)
  qed
  have "limits_kept db'" using system_step_submissions [OF assms(1)]
  proof
    assume "db_submissions db' = db_submissions db"
    then show ?thesis using assms(2) keep(1)
      by (simp add: admission_inv_def limits_kept_def same_contests_def submission_count_def)
  next
    assume "submission_added db db'"
    then show ?thesis using limits_step inv keep(1) assms(2) by (auto simp: admission_inv_def)
  qed
  with adm system_step_inv [OF assms(1) inv] show ?thesis by (simp add: admission_inv_def)
qed

interpretation admissions: step_invariant m admission_inv for m
  by unfold_locales (rule admission_step)

lemma fresh_platform_admission: "fresh_platform db \<Longrightarrow> admission_inv db"
  using fresh_platform_inv by (auto simp: admission_inv_def limits_kept_def fresh_platform_def submission_count_def)

section \<open>Repeated requests\<close>

text \<open>The stored row of a request, in a log that has grown.\<close>

lemma readByRequestId_grows:
  assumes "readByRequestId db i = Some row" and "grows db db'"
  shows "readByRequestId db' i = Some row"
  using assms by (auto simp: readByRequestId_def grows_def find_append)

lemma append_same_request:
  assumes "append_submission m env command db = Inr (r, db')"
  shows "\<exists>row. readByRequestId db' (asc_requestId command) = Some row \<and> sameRequest row command
    \<and> r = submissionRecord row"
  using assms
proof (cases rule: append_submission_cases)
  case (stored row)
  then show ?thesis by auto
next
  case first
  from append_tx_appends [OF first(2,1)] obtain adm res where adm: "admitWith db command = Inr adm"
    and r: "r = submissionRecord (submission_of env adm command res)"
    and res: "res = AlreadySolved \<and> asc_result command = VerifiedCorrect \<or> res = result_of (asc_result command)"
    and a: "appends (submission_of env adm command res) db db'" by blast
  let ?u = "submission_of env adm command res"
  have "db_submissions db' = db_submissions db @ [?u]" using a unfolding appends_def by blast
  then have "readByRequestId db' (asc_requestId command) = Some ?u"
    using first(1) by (simp add: readByRequestId_def find_append submission_of_def)
  moreover have "sameRequest ?u command"
    using admitWith_Inr(1,2) [OF adm] res by (auto simp: sameRequest_def submission_of_def)
  ultimately show ?thesis using r by blast
qed

text \<open>
  C21: A submission request is idempotent: once it has been stored, repeating it - at any later time,
  after any other transactions - returns the stored record and changes nothing, even when the
  contest has ended or the limit has been reached meanwhile.
\<close>

theorem append_retry:
  assumes "append_submission m env command db = Inr (r, db1)" and "db2 = run_history m xs db1"
  shows "append_submission m env' command db2 = Inr (r, db2)"
proof -
  obtain row where row: "readByRequestId db1 (asc_requestId command) = Some row" "sameRequest row command"
    "r = submissionRecord row"
    using append_same_request [OF assms(1)] by blast
  have "grows db1 db2" using logs.history_keeps [OF grows_refl] assms(2) by blast
  then have "readByRequestId db2 (asc_requestId command) = Some row"
    using row(1) by (rule readByRequestId_grows [rotated])
  with row(2,3) show ?thesis by (simp add: append_submission_def append_tx_def)
qed

lemma readScoreAdjustment_grows:
  assumes "readScoreAdjustmentByRequestId db i = Some row" and "grows db db'"
  shows "readScoreAdjustmentByRequestId db' i = Some row"
  using assms by (auto simp: readScoreAdjustmentByRequestId_def grows_def find_append)

lemma adjustment_same_request:
  assumes "recordScoreAdjustment env command db = Inr (r, db')"
  shows "\<exists>row. readScoreAdjustmentByRequestId db' (rsa_requestId command) = Some row
    \<and> sameScoreAdjustment row command \<and> r = scoreAdjustmentRecord row"
proof (cases "readScoreAdjustmentByRequestId db (rsa_requestId command)")
  case (Some row)
  with assms show ?thesis
    by (auto simp: recordScoreAdjustment_def recordScoreAdjustment_tx_def split: sum.splits if_splits)
next
  case None
  with assms have tx: "recordScoreAdjustment_tx env command db = Inr (r, db')"
    by (auto simp: recordScoreAdjustment_def split: sum.splits if_splits)
  let ?a = "adjustment_of env command"
  from None tx obtain db1 v db2 e where a: "insert_score_adjustment ?a db = Inr db1"
    "advanceScoreboardVersion (rsa_contestId command) (rsa_at command) db1 = Inr (v, db2)"
    "insert_audit_event e db2 = Inr db'" and r: "r = scoreAdjustmentRecord ?a"
    by (auto simp: recordScoreAdjustment_tx_def Let_def ebind_Inr_iff split: option.splits if_splits)
  have "db_score_adjustments db2 = db_score_adjustments db1"
    using arg_cong [OF advance_frame [OF a(2)], of db_score_adjustments] by simp
  then have "db_score_adjustments db' = db_score_adjustments db @ [?a]"
    using insert_score_adjustment_Inr [OF a(1)] insert_audit_event_Inr [OF a(3)] by simp
  then have "readScoreAdjustmentByRequestId db' (rsa_requestId command) = Some ?a"
    using None by (simp add: readScoreAdjustmentByRequestId_def find_append adjustment_of_def)
  moreover have "sameScoreAdjustment ?a command" by (simp add: sameScoreAdjustment_def adjustment_of_def)
  ultimately show ?thesis using r by blast
qed

text \<open>
  C22: A score adjustment request is idempotent in the same way: repeating it returns the first
  record, adjusts nothing again and leaves the scoreboard version alone.
\<close>

theorem adjustment_retry:
  assumes "recordScoreAdjustment env command db = Inr (r, db1)" and "db2 = run_history m xs db1"
  shows "recordScoreAdjustment env' command db2 = Inr (r, db2)"
proof -
  obtain row where row: "readScoreAdjustmentByRequestId db1 (rsa_requestId command) = Some row"
    "sameScoreAdjustment row command" "r = scoreAdjustmentRecord row"
    using adjustment_same_request [OF assms(1)] by blast
  have "grows db1 db2" using logs.history_keeps [OF grows_refl] assms(2) by blast
  then have "readScoreAdjustmentByRequestId db2 (rsa_requestId command) = Some row"
    using row(1) by (rule readScoreAdjustment_grows [rotated])
  with row(2,3) show ?thesis by (simp add: recordScoreAdjustment_def recordScoreAdjustment_tx_def)
qed

section \<open>Properties of the submission log\<close>


text \<open>
  C20: No history exceeds a challenge's submission limit: a participation never has more submissions
  of a mode than the limit allows.
\<close>

theorem limit_never_exceeded:
  assumes "fresh_platform db0" and "x \<in> set (db_contest_challenges db0)"
    and "ch_submission_limit x = Some limit" and "0 \<le> limit"
  shows "submission_count (run_history m xs db0) p (ch_id x) mode \<le> limit"
proof -
  have "same_contests db0 (run_history m xs db0)"
    using contests.history_keeps [of db0 db0 m xs] by (simp add: same_contests_def)
  then show ?thesis
    using admissions.history_keeps [OF fresh_platform_admission [OF assms(1)], of m xs] assms(2-4)
    by (auto simp: admission_inv_def limits_kept_def same_contests_def)
qed

text \<open>
  C23: Once a team's participation in a contest is accepted it stays accepted, whatever follows: no
  withdrawal, rejection or renewed registration takes it back.
\<close>

theorem acceptance_is_final:
  assumes "fresh_platform db0" and "p \<in> set (db_participations (run_history m xs db0))"
    and "pa_status p = Accepted"
  shows "\<exists>q\<in>set (db_participations (run_history m (xs @ ys) db0)). pa_id q = pa_id p
    \<and> pa_contest_id q = pa_contest_id p \<and> pa_status q = Accepted"
proof -
  have *: "accepted_kept db (run_history m ys db)" if "system_inv db" for db
    using that
  proof (induction ys arbitrary: db)
    case Nil
    show ?case by (auto simp: accepted_kept_def)
  next
    case (Cons y ys)
    obtain env x where y: "y = (env, x)" by (cases y)
    have "accepted_kept db (execute m env x db)"
      using execute_step [of m env x db] system_step_accepted Cons.prems by (auto simp: accepted_kept_def)
    moreover have "accepted_kept (execute m env x db) (run_history m ys (execute m env x db))"
      using Cons.IH system.execute_keeps [OF Cons.prems] by blast
    ultimately show ?case unfolding y accepted_kept_def by simp metis
  qed
  have "system_inv (run_history m xs db0)"
    by (rule system.history_keeps [OF fresh_platform_inv [OF assms(1)]])
  from * [OF this] assms(2,3) show ?thesis by (auto simp: accepted_kept_def run_history_append)
qed

end
