(* ===== verification/Scenario.thy ===== *)
theory Scenario
  imports Submission_Safety
begin

text \<open>
  A small history on a freshly configured platform, on which the properties are applied: two teams,
  a running contest with automatic acceptance and one challenge, three submissions and an adjustment.
\<close>

definition account :: "uuid \<Rightarrow> user_row" where
  "account u = \<lparr>us_id = u, us_username = u, us_email_normalized = u @ ''@uni.example'',
     us_email_verified_at = Some 1, us_status = Active, us_must_change_password = False\<rparr>"

definition cup :: contest_row where
  "cup = \<lparr>co_id = ''cup'', co_title = ''Cup'', co_publication_status = Published,
     co_visibility = PublicContest, co_registration_strategy = AutoAccept, co_invite_required = False,
     co_invite_digest = None, co_start_at = 1000, co_end_at = 9000, co_scoreboard_freeze_at = Some 8000,
     co_practice_enabled = True, co_min_team_size = 1, co_max_team_size = 2,
     co_registration_constraints = JObj [(''allowed_email_domains'', JArr [JStr ''uni.example''])]\<rparr>"

definition warmup :: contest_challenge_row where
  "warmup = \<lparr>ch_id = ''warmup'', ch_contest_id = ''cup'', ch_enabled = True, ch_publish_at = None,
     ch_close_at = None, ch_submission_limit = Some 3, ch_flag_format = None,
     ch_flag_policy = TeamDerivedFlag 1, ch_scoring_policy = FixedV1 100\<rparr>"

definition platform :: database where
  "platform = \<lparr>db_users = map account [''alice'', ''bob'', ''carol'', ''judge''], db_teams = [],
     db_team_members = [], db_team_invites = [], db_contests = [cup], db_divisions = [],
     db_participations = [], db_contest_challenges = [warmup], db_submissions = [], db_solves = [],
     db_score_adjustments = [], db_cheat_clues = [], db_scoreboard_versions = [],
     db_contest_events = [], db_audit_events = []\<rparr>"

text \<open>A transaction's clock and identifiers: the tag and the index of the draw.\<close>

definition draw :: "string \<Rightarrow> millis \<Rightarrow> tx_env" where
  "draw tag t = \<lparr>env_now = t, env_uuid = \<lambda>k. tag @ replicate k (CHR ''.'')\<rparr>"

definition answer :: "uuid \<Rightarrow> millis \<Rightarrow> string \<Rightarrow> verified_result \<Rightarrow> nat \<Rightarrow> append_submission_command" where
  "answer user t request result digest = \<lparr>sac_userId = user, sac_contestId = ''cup'',
     sac_challengeId = ''warmup'', sac_at = t, asc_requestId = request, asc_result = result,
     asc_answerDigest = replicate 32 digest, asc_answerCiphertext = replicate 33 0\<rparr>"

definition bonus :: "uuid \<Rightarrow> score_adjustment_command" where
  "bonus participation = \<lparr>rsa_actorId = ''judge'', rsa_contestId = ''cup'',
     rsa_participationId = participation, rsa_pointsDelta = 5, rsa_reason = ''writeup bonus'',
     rsa_requestId = ''request-bonus'', rsa_at = 5000\<rparr>"

definition scenario :: "(tx_env \<times> operation) list" where
  "scenario =
    [(draw ''red'' 10, CreateTeam ''Red'' ''red'' ''alice'' [1] ''code-red''),
     (draw ''blue'' 20, CreateTeam ''Blue'' ''blue'' ''bob'' [2] ''code-blue''),
     (draw ''pr'' 30, RegisterTeam ''alice'' ''cup'' None),
     (draw ''pb'' 40, RegisterTeam ''bob'' ''cup'' None),
     (draw ''s1'' 2000, AppendSubmission (answer ''alice'' 2000 ''q1'' VerifiedIncorrect 7)),
     (draw ''s2'' 3000, AppendSubmission (answer ''alice'' 3000 ''q2'' VerifiedCorrect 8)),
     (draw ''s3'' 4000, AppendSubmission (answer ''bob'' 4000 ''q3'' VerifiedCorrect 9)),
     (draw ''a1'' 5000, AdjustScore (bonus ''pb''))]"

definition after :: "js_math \<Rightarrow> nat \<Rightarrow> database" where
  "after m n = run_history m (take n scenario) platform"

lemma platform_fresh: "fresh_platform platform"
  by code_simp

text \<open>What the history leaves behind.\<close>

lemma scenario_tables:
  "map su_result (db_submissions (after m 8)) = [Incorrect, Correct, Correct]
   \<and> map so_solve_order (db_solves (after m 8)) = [1, 2]
   \<and> map sa_points_delta (db_score_adjustments (after m 8)) = [5]
   \<and> version_of (after m 8) ''cup'' = 3"
  by code_simp

section \<open>Steps of the history\<close>

lemma after_Suc:
  "n < length scenario \<Longrightarrow> after m (Suc n) = execute m (fst (scenario ! n)) (snd (scenario ! n)) (after m n)"
  by (cases "scenario ! n") (simp add: after_def take_Suc_conv_app_nth run_history_append)

lemma after_rest: "run_history m (drop n scenario) (after m n) = run_history m scenario platform"
  by (simp add: after_def flip: run_history_append)

lemma after_all: "run_history m scenario platform = after m 8"
  by (simp add: after_def scenario_def)

definition succeeds :: "'e + 'a \<Rightarrow> bool" where
  "succeeds x = (case x of Inl _ \<Rightarrow> False | Inr _ \<Rightarrow> True)"

lemma succeeds_committed: "succeeds x \<Longrightarrow> \<exists>r. x = Inr (r, committed db x)"
  by (auto simp: succeeds_def committed_def split: sum.splits)

lemma scenario_steps: "scenario ! 2 = (draw ''pr'' 30, RegisterTeam ''alice'' ''cup'' None)"
  "scenario ! 5 = (draw ''s2'' 3000, AppendSubmission (answer ''alice'' 3000 ''q2'' VerifiedCorrect 8))"
  "scenario ! 7 = (draw ''a1'' 5000, AdjustScore (bonus ''pb''))" "length scenario = 8"
  by (simp_all add: scenario_def)

lemma second_answer_stored:
  "\<exists>r. append_submission m (draw ''s2'' 3000) (answer ''alice'' 3000 ''q2'' VerifiedCorrect 8) (after m 5)
     = Inr (r, after m 6)"
proof -
  have "succeeds (append_submission m (draw ''s2'' 3000) (answer ''alice'' 3000 ''q2'' VerifiedCorrect 8) (after m 5))"
    by code_simp
  from succeeds_committed [OF this, of "after m 5"] show ?thesis
    using after_Suc [of 5 m] by (simp add: scenario_steps)
qed

lemma bonus_recorded:
  "\<exists>r. recordScoreAdjustment (draw ''a1'' 5000) (bonus ''pb'') (after m 7) = Inr (r, after m 8)"
proof -
  have "succeeds (recordScoreAdjustment (draw ''a1'' 5000) (bonus ''pb'') (after m 7))" by code_simp
  from succeeds_committed [OF this, of "after m 7"] show ?thesis
    using after_Suc [of 7 m] by (simp add: scenario_steps)
qed

lemma red_registered:
  "\<exists>r. register_team (draw ''pr'' 30) ''alice'' ''cup'' None (after m 2) = Inr (r, after m 3)"
proof -
  have "succeeds (register_team (draw ''pr'' 30) ''alice'' ''cup'' None (after m 2))" by code_simp
  from succeeds_committed [OF this, of "after m 2"] show ?thesis
    using after_Suc [of 2 m] by (simp add: scenario_steps)
qed

lemma red_registration_step: "participation_step (draw ''pr'' 30) (after m 2) (after m 3)"
  using red_registered participation_step.register by metis

lemma registration_inv: "participation_inv (after m 2)"
  by code_simp

section \<open>The properties on the history\<close>

theorem history_invariant_witness: "system_inv (run_history exact_math scenario platform)"
  by (rule history_invariant [OF platform_fresh])

lemma scenario_bound: "score_bound (after m 8) \<le> max_safe_integer"
  by code_simp

lemma warmup_scorable: "\<forall>c\<in>set (db_contest_challenges platform). ch_contest_id c = ''cup'' \<longrightarrow>
    challengeScoringPolicySchema (ch_scoring_policy c) \<noteq> None"
  by code_simp

theorem scoreboard_replayable_witness:
  "\<exists>r. replay_contest exact_math (after exact_math 8) ''cup'' None = Inr r \<and> r_factVersion r = 3"
  using scoreboard_replayable [OF platform_fresh after_all [of exact_math, symmetric] _ warmup_scorable
      scenario_bound] scenario_tables [of exact_math]
  by (simp add: platform_def known_def cup_def)

theorem append_retry_witness:
  "\<exists>r. append_submission exact_math (draw ''again'' 99000) (answer ''alice'' 3000 ''q2'' VerifiedCorrect 8)
     (after exact_math 8) = Inr (r, after exact_math 8)"
proof -
  have "after exact_math 8 = run_history exact_math (drop 6 scenario) (after exact_math 6)"
    by (simp add: after_rest after_all)
  with second_answer_stored [of exact_math] append_retry show ?thesis by blast
qed

theorem adjustment_retry_witness:
  "\<exists>r. recordScoreAdjustment (draw ''again'' 99000) (bonus ''pb'') (after exact_math 8) = Inr (r, after exact_math 8)"
proof -
  have "after exact_math 8 = run_history exact_math [] (after exact_math 8)" by simp
  with bonus_recorded [of exact_math] adjustment_retry show ?thesis by blast
qed

lemma scenario_submissions: "\<exists>u\<in>set (db_submissions (after m 8)). su_request_id u = ''q3''"
  by code_simp


theorem limit_never_exceeded_witness: "submission_count (run_history exact_math scenario platform) ''pr'' ''warmup'' Official \<le> 3"
  using limit_never_exceeded [OF platform_fresh, of warmup 3 exact_math scenario "''pr''" Official]
  by (simp add: platform_def warmup_def)

lemma red_accepted: "\<exists>p\<in>set (db_participations (after m 4)). pa_id p = ''pr'' \<and> pa_status p = Accepted"
  by code_simp

theorem acceptance_is_final_witness:
  "\<exists>q\<in>set (db_participations (run_history exact_math scenario platform)). pa_id q = ''pr'' \<and> pa_status q = Accepted"
proof -
  obtain p where p: "p \<in> set (db_participations (after exact_math 4))" "pa_id p = ''pr''" "pa_status p = Accepted"
    using red_accepted by blast
  have "take 4 scenario @ drop 4 scenario = scenario" by simp
  with acceptance_is_final [OF platform_fresh, of p exact_math "take 4 scenario" "drop 4 scenario"] p
  show ?thesis by (auto simp: after_def)
qed

theorem participation_refines_witness:
  "\<exists>k s. status_step (statuses (after exact_math 2) k) s
     \<and> statuses (after exact_math 3) = (statuses (after exact_math 2))(k \<mapsto> s)"
proof -
  have "statuses (after m 3) (''cup'', ''red'') \<noteq> statuses (after m 2) (''cup'', ''red'')" for m
    by code_simp
  then show ?thesis using participation_refines [OF red_registration_step registration_inv] by metis
qed


text \<open>A third team is founded while the first is locked by the running contest.\<close>

lemma green_created:
  "succeeds (create_team (draw ''green'' 2000) ''Green'' ''green'' ''carol'' [3] ''code-green'' (after m 4))"
  by code_simp

lemma red_locked: "known te_id (db_teams (after m 4)) ''red'' \<and> readLocks (draw ''green'' 2000) (after m 4) ''red'' \<noteq> []"
  by code_simp

theorem locked_roster_fixed_witness:
  "members_of ''red'' (db_team_members (committed (after exact_math 4)
     (create_team (draw ''green'' 2000) ''Green'' ''green'' ''carol'' [3] ''code-green'' (after exact_math 4))))
   = members_of ''red'' (db_team_members (after exact_math 4))"
proof -
  from succeeds_committed [OF green_created [of exact_math], of "after exact_math 4"]
  have "member_step (draw ''green'' 2000) (after exact_math 4) (committed (after exact_math 4)
     (create_team (draw ''green'' 2000) ''Green'' ''green'' ''carol'' [3] ''code-green'' (after exact_math 4)))"
    using member_step.create by blast
  then show ?thesis using red_locked by (intro locked_roster_fixed) auto
qed

theorem captain_trigger_unreachable_witness:
  "leave_team (draw ''x'' 5) ''alice'' (after exact_math 4) \<noteq> Inl (TeamDatabaseError captain_trigger)
   \<and> transferCaptain (draw ''x'' 5) ''alice'' ''bob'' (after exact_math 4) \<noteq> Inl (TeamDatabaseError captain_trigger)"
proof -
  have "team_inv (after exact_math 4)"
    using system.history_keeps [OF fresh_platform_inv [OF platform_fresh]] by (simp add: after_def system_inv_def)
  from captain_trigger_unreachable [OF this] show ?thesis by blast
qed

text \<open>The captain rotates the invitation of the first team.\<close>

lemma red_rotated: "succeeds (rotateInvite (draw ''r'' 15) ''alice'' [9] ''code-new'' (after m 1))"
  by code_simp

lemma red_first_invite: "\<exists>i\<in>set (db_team_invites (after m 1)). ti_token_digest i = [1]
    \<and> memberOf (after m 1) (ti_team_id i) ''alice'' \<noteq> None"
  by code_simp

theorem rotation_revokes_codes_witness:
  "join_team (draw ''j'' 16) ''carol'' [1] (committed (after exact_math 1)
     (rotateInvite (draw ''r'' 15) ''alice'' [9] ''code-new'' (after exact_math 1))) = Inl TeamInviteInvalid"
proof -
  have "team_inv (after exact_math 1)"
    using system.history_keeps [OF fresh_platform_inv [OF platform_fresh]] by (simp add: after_def system_inv_def)
  then have inv: "invites_inv (after exact_math 1)" "members_inv (after exact_math 1)" by (simp_all add: team_inv_def)
  obtain i where i: "i \<in> set (db_team_invites (after exact_math 1))" "ti_token_digest i = [1]"
    "memberOf (after exact_math 1) (ti_team_id i) ''alice'' \<noteq> None" using red_first_invite by blast
  obtain r where "rotateInvite (draw ''r'' 15) ''alice'' [9] ''code-new'' (after exact_math 1) = Inr (r, committed (after exact_math 1)
     (rotateInvite (draw ''r'' 15) ''alice'' [9] ''code-new'' (after exact_math 1)))"
    using succeeds_committed [OF red_rotated [of exact_math]] by blast
  from rotation_revokes_codes [OF this inv(1) i(1,3) inv(2)] i(2) show ?thesis by simp
qed

end
