(* ===== verification/Identity_Capabilities.thy ===== *)
theory Identity_Capabilities
  imports Prelude
begin

text \<open>
  \<open>server/domains/identity/capabilities.ts\<close>: the capabilities of the three global roles and the
  guard every service method starts with.
\<close>

datatype global_role = UserRole | OrganizerRole | AdminRole

record session_subject =
  sj_userId :: uuid
  sj_role :: global_role
  sj_emailVerified :: bool
  sj_mustChangePassword :: bool

datatype identity_capability =
    PublicBrowse | AccountRead | AccountWrite | VerificationResend | Logout | TeamWrite
  | ContestRegister | FlagSubmit | ContentDownload | WriteupWrite | InstanceOperate
  | ContestManage | ContestJudge | UserManage | RoleManage | PlatformSettingsManage
  | GlobalOperationsManage

definition playerCapabilities :: "identity_capability list" where
  "playerCapabilities = [PublicBrowse, AccountRead, AccountWrite, VerificationResend, Logout,
     TeamWrite, ContestRegister, FlagSubmit, ContentDownload, WriteupWrite, InstanceOperate]"

fun globalRoleCapabilities :: "global_role \<Rightarrow> identity_capability set" where
  "globalRoleCapabilities UserRole = set playerCapabilities"
| "globalRoleCapabilities OrganizerRole = set (playerCapabilities @ [ContestManage, ContestJudge])"
| "globalRoleCapabilities AdminRole = set (playerCapabilities @ [ContestManage, ContestJudge,
     UserManage, RoleManage, PlatformSettingsManage, GlobalOperationsManage])"

definition unverifiedCapabilities :: "identity_capability set" where
  "unverifiedCapabilities = {PublicBrowse, AccountRead, AccountWrite, VerificationResend, Logout}"

datatype capability_error = EmailVerificationRequired | AccountSetupRequired | CapabilityForbidden

definition hasIdentityCapability :: "session_subject \<Rightarrow> identity_capability \<Rightarrow> bool" where
  "hasIdentityCapability subject capability \<longleftrightarrow> capability \<in> globalRoleCapabilities (sj_role subject)"

definition requireIdentityCapability ::
  "session_subject \<Rightarrow> identity_capability \<Rightarrow> capability_error + unit" where
  "requireIdentityCapability subject capability =
     (if sj_mustChangePassword subject \<and> capability \<notin> unverifiedCapabilities
      then Inl AccountSetupRequired
      else if \<not> sj_emailVerified subject \<and> capability \<notin> unverifiedCapabilities
      then Inl EmailVerificationRequired
      else if \<not> hasIdentityCapability subject capability then Inl CapabilityForbidden
      else Inr ())"

section \<open>Guarded operations\<close>

text \<open>
  The shape of a service method: the capability is checked before the repository is called, whose
  errors are translated. \<open>forbid\<close> and \<open>translate\<close> are the service's own errors.
\<close>

definition guarded ::
  "(capability_error \<Rightarrow> 'f) \<Rightarrow> ('e \<Rightarrow> 'f) \<Rightarrow> session_subject \<Rightarrow> identity_capability \<Rightarrow> 'e + 'a \<Rightarrow> 'f + 'a" where
  "guarded forbid translate actor capability result =
     ebind (map_error forbid (requireIdentityCapability actor capability))
       (\<lambda>_. map_error translate result)"

lemma guarded_Inr: "guarded forbid translate actor capability result = Inr a \<longleftrightarrow>
    requireIdentityCapability actor capability = Inr () \<and> result = Inr a"
  by (cases "requireIdentityCapability actor capability") (simp_all add: guarded_def)

text \<open>A service whose errors tell a refusal from every error of the repository, and these apart.\<close>

locale service_errors =
  fixes forbid :: "capability_error \<Rightarrow> 'f" and translate :: "'e \<Rightarrow> 'f"
  assumes forbid_inj: "forbid x = forbid y \<Longrightarrow> x = y"
    and translate_inj: "translate e = translate e' \<Longrightarrow> e = e'"
    and refusals_apart: "forbid x \<noteq> translate e"
begin

lemma refused_iff: "guarded forbid translate actor capability result = Inl (forbid x) \<longleftrightarrow>
    requireIdentityCapability actor capability = Inl x"
  using forbid_inj refusals_apart refusals_apart [symmetric]
  by (cases "requireIdentityCapability actor capability"; cases result) (auto simp: guarded_def)

lemma failed_iff: "guarded forbid translate actor capability result = Inl (translate e) \<longleftrightarrow>
    requireIdentityCapability actor capability = Inr () \<and> result = Inl e"
  using translate_inj refusals_apart refusals_apart [symmetric]
  by (cases "requireIdentityCapability actor capability"; cases result) (auto simp: guarded_def)

end

section \<open>Properties\<close>

text \<open>
  A capability outside the five account capabilities is granted exactly to a subject whose
  password change is done, whose address is verified and whose role has it.
\<close>

theorem capability_granted_iff:
  "requireIdentityCapability subject capability = Inr () \<longleftrightarrow>
     hasIdentityCapability subject capability
     \<and> (capability \<in> unverifiedCapabilities
        \<or> (sj_emailVerified subject \<and> \<not> sj_mustChangePassword subject))"
  by (auto simp: requireIdentityCapability_def)

text \<open>
  The roles form a hierarchy: what a user may do an organizer may, what an organizer may do an
  administrator may; only organizers and administrators judge contests, and only administrators
  correct teams or run global operations.
\<close>

theorem role_hierarchy:
  "globalRoleCapabilities UserRole \<subset> globalRoleCapabilities OrganizerRole
   \<and> globalRoleCapabilities OrganizerRole \<subset> globalRoleCapabilities AdminRole
   \<and> {r. ContestJudge \<in> globalRoleCapabilities r} = {OrganizerRole, AdminRole}
   \<and> {r. GlobalOperationsManage \<in> globalRoleCapabilities r} = {AdminRole}"
proof -
  have judge: "ContestJudge \<in> globalRoleCapabilities r \<longleftrightarrow> r \<in> {OrganizerRole, AdminRole}" for r
    by (cases r) (auto simp: playerCapabilities_def)
  have operate: "GlobalOperationsManage \<in> globalRoleCapabilities r \<longleftrightarrow> r \<in> {AdminRole}" for r
    by (cases r) (auto simp: playerCapabilities_def)
  show ?thesis unfolding judge operate by (auto simp: playerCapabilities_def)
qed

end
