(* ===== verification/Registration_Services.thy ===== *)
theory Registration_Services
  imports Encoding Identity_Capabilities Team_Repository Participation_Repository
begin

text \<open>
  \<open>server/domains/teams/service.ts\<close> and \<open>server/domains/participations/service.ts\<close>: the operations of
  players, judges and administrators on teams and registrations. Random bytes are arguments;
  Unicode normalisation and the locale's lower case are the fields of a record (they are tables of
  the runtime's ICU).
\<close>

record unicode =
  un_nfkc :: "string \<Rightarrow> string"
  un_lower :: "string \<Rightarrow> string"

section \<open>Codes\<close>

definition base64_char :: "nat \<Rightarrow> char" where
  "base64_char n = char_of (if n < 26 then 65 + n else if n < 52 then 71 + n else if n < 62 then n - 4
     else if n = 62 then 45 else 95)"

text \<open>\<open>toString('base64url')\<close>: no padding.\<close>

fun base64url :: "bytes \<Rightarrow> string" where
  "base64url (a # b # c # bs) = base64_char (a div 4) # base64_char (a mod 4 * 16 + b div 16)
     # base64_char (b mod 16 * 4 + c div 64) # base64_char (c mod 64) # base64url bs"
| "base64url [a, b] = [base64_char (a div 4), base64_char (a mod 4 * 16 + b div 16),
     base64_char (b mod 16 * 4)]"
| "base64url [a] = [base64_char (a div 4), base64_char (a mod 4 * 16)]"
| "base64url [] = []"

definition code_digest :: "crypto \<Rightarrow> string \<Rightarrow> bytes" where
  "code_digest c code = cr_sha256 c (utf8 code)"

section \<open>Teams\<close>

datatype team_service_code =
    CodeTeamConflict | CodeTeamForbidden | CodeTeamInviteInvalid | CodeTeamLocked
  | CodeTeamMemberIneligible | CodeTeamNotFound | CodeTeamReasonRequired

datatype team_failure =
    TeamServiceError team_service_code "team_lock_record list"
  | TeamCapabilityRefused capability_error
  | TeamRepositoryFailed pg_error

fun map_team_error :: "team_error \<Rightarrow> team_failure" where
  "map_team_error TeamConflict = TeamServiceError CodeTeamConflict []"
| "map_team_error TeamForbidden = TeamServiceError CodeTeamForbidden []"
| "map_team_error TeamInviteInvalid = TeamServiceError CodeTeamInviteInvalid []"
| "map_team_error (TeamLocked locks) = TeamServiceError CodeTeamLocked locks"
| "map_team_error TeamMemberIneligible = TeamServiceError CodeTeamMemberIneligible []"
| "map_team_error TeamNotFound = TeamServiceError CodeTeamNotFound []"
| "map_team_error (TeamDatabaseError e) = TeamRepositoryFailed e"

interpretation team_errors: service_errors TeamCapabilityRefused map_team_error
proof
  fix e e' :: team_error
  show "map_team_error e = map_team_error e' \<Longrightarrow> e = e'" by (cases e; cases e') simp_all
  show "TeamCapabilityRefused x \<noteq> map_team_error e" for x by (cases e) simp_all
qed simp

abbreviation team_guarded where
  "team_guarded \<equiv> guarded TeamCapabilityRefused map_team_error"

definition team_current :: "tx_env \<Rightarrow> session_subject \<Rightarrow> database \<Rightarrow> team_failure + team_record option" where
  "team_current env actor db = team_guarded actor TeamWrite (findByUser env db (sj_userId actor))"

definition team_create ::
  "unicode \<Rightarrow> crypto \<Rightarrow> tx_env \<Rightarrow> bytes \<Rightarrow> session_subject \<Rightarrow> string \<Rightarrow> database
    \<Rightarrow> team_failure + (created_team \<times> database)" where
  "team_create u c env random actor name db =
     (let code = base64url random in
      team_guarded actor TeamWrite (create_team env (js_trim name)
        (un_lower u (js_trim (un_nfkc u name))) (sj_userId actor) (code_digest c code) code db))"

definition team_join ::
  "crypto \<Rightarrow> tx_env \<Rightarrow> session_subject \<Rightarrow> string \<Rightarrow> database \<Rightarrow> team_failure + (team_record \<times> database)" where
  "team_join c env actor code db =
     team_guarded actor TeamWrite (join_team env (sj_userId actor) (code_digest c code) db)"

definition team_leave ::
  "tx_env \<Rightarrow> session_subject \<Rightarrow> database \<Rightarrow> team_failure + (unit \<times> database)" where
  "team_leave env actor db = team_guarded actor TeamWrite (leave_team env (sj_userId actor) db)"

definition team_remove ::
  "tx_env \<Rightarrow> session_subject \<Rightarrow> uuid \<Rightarrow> database \<Rightarrow> team_failure + (unit \<times> database)" where
  "team_remove env actor memberId db =
     team_guarded actor TeamWrite (removeMember env (sj_userId actor) memberId db)"

definition team_rotateInvite ::
  "crypto \<Rightarrow> tx_env \<Rightarrow> bytes \<Rightarrow> session_subject \<Rightarrow> database \<Rightarrow> team_failure + (string \<times> database)" where
  "team_rotateInvite c env random actor db =
     (let code = base64url random in
      team_guarded actor TeamWrite (rotateInvite env (sj_userId actor) (code_digest c code) code db))"

definition team_transfer ::
  "tx_env \<Rightarrow> session_subject \<Rightarrow> uuid \<Rightarrow> database \<Rightarrow> team_failure + (unit \<times> database)" where
  "team_transfer env actor memberId db =
     team_guarded actor TeamWrite (transferCaptain env (sj_userId actor) memberId db)"

record team_correction_input =
  tci_requestId :: string
  tci_teamId :: uuid
  tci_operation :: correction_operation
  tci_targetUserId :: uuid
  tci_reason :: string

definition correction_command :: "session_subject \<Rightarrow> team_correction_input \<Rightarrow> team_correction_command" where
  "correction_command actor input = \<lparr>tcc_actorId = sj_userId actor, tcc_requestId = tci_requestId input,
     tcc_teamId = tci_teamId input, tcc_operation = tci_operation input,
     tcc_targetUserId = tci_targetUserId input, tcc_reason = js_trim (tci_reason input)\<rparr>"

definition team_correctMembership ::
  "tx_env \<Rightarrow> session_subject \<Rightarrow> team_correction_input \<Rightarrow> database
    \<Rightarrow> team_failure + (team_record \<times> database)" where
  "team_correctMembership env actor input db =
     ebind (map_error TeamCapabilityRefused (requireIdentityCapability actor GlobalOperationsManage)) (\<lambda>_.
     let reason = js_trim (tci_reason input) in
     if length reason < 10 \<or> 1000 < length reason
     then Inl (TeamServiceError CodeTeamReasonRequired [])
     else map_error map_team_error (correctMembership env (correction_command actor input) db))"

section \<open>Participations\<close>

datatype participation_service_code =
    CodeConfigurationInvalid | CodeParticipationConflict | CodeParticipationContestNotFound
  | CodeDivisionInvalid | CodeEmailDomainForbidden | CodeInviteInvalid | CodeMemberIneligible
  | CodeRegistrationNotFound | CodeRegistrationClosed | CodeTeamRequired | CodeTeamSizeInvalid
  | CodeTransitionInvalid

text \<open>The \<open>team_size\<close> field of the error carries the actual size and the bounds.\<close>

datatype participation_failure =
    ParticipationServiceError participation_service_code "(int \<times> int \<times> int) option"
  | ParticipationCapabilityRefused capability_error
  | ParticipationRepositoryFailed "pg_error option"   \<comment> \<open>\<open>None\<close>: the \<open>TypeError\<close> of an empty page\<close>

fun map_participation_error :: "participation_error \<Rightarrow> participation_failure" where
  "map_participation_error ParticipationConfigurationInvalid = ParticipationServiceError CodeConfigurationInvalid None"
| "map_participation_error ParticipationConflict = ParticipationServiceError CodeParticipationConflict None"
| "map_participation_error ParticipationContestNotFound = ParticipationServiceError CodeParticipationContestNotFound None"
| "map_participation_error ParticipationDivisionInvalid = ParticipationServiceError CodeDivisionInvalid None"
| "map_participation_error ParticipationEmailDomainForbidden = ParticipationServiceError CodeEmailDomainForbidden None"
| "map_participation_error ParticipationInviteInvalid = ParticipationServiceError CodeInviteInvalid None"
| "map_participation_error ParticipationMemberIneligible = ParticipationServiceError CodeMemberIneligible None"
| "map_participation_error ParticipationNotFound = ParticipationServiceError CodeRegistrationNotFound None"
| "map_participation_error ParticipationRegistrationClosed = ParticipationServiceError CodeRegistrationClosed None"
| "map_participation_error ParticipationTeamRequired = ParticipationServiceError CodeTeamRequired None"
| "map_participation_error (ParticipationTeamSize minimum maximum actual) =
     ParticipationServiceError CodeTeamSizeInvalid (Some (actual, minimum, maximum))"
| "map_participation_error ParticipationTransitionInvalid = ParticipationServiceError CodeTransitionInvalid None"
| "map_participation_error ParticipationEmptyPageCursor = ParticipationRepositoryFailed None"
| "map_participation_error (ParticipationDatabaseError e) = ParticipationRepositoryFailed (Some e)"

interpretation participation_errors: service_errors ParticipationCapabilityRefused map_participation_error
proof
  fix e e' :: participation_error
  show "map_participation_error e = map_participation_error e' \<Longrightarrow> e = e'"
    by (cases e; cases e') simp_all
  show "ParticipationCapabilityRefused x \<noteq> map_participation_error e" for x by (cases e) simp_all
qed simp

abbreviation participation_guarded where
  "participation_guarded \<equiv> guarded ParticipationCapabilityRefused map_participation_error"

definition participation_current ::
  "session_subject \<Rightarrow> uuid \<Rightarrow> database \<Rightarrow> participation_failure + current_participation_record" where
  "participation_current actor contestId db =
     participation_guarded actor PublicBrowse (current_participation db (sj_userId actor) contestId)"

text \<open>An absent invitation code is \<open>undefined\<close> or the empty text.\<close>

definition participation_register ::
  "crypto \<Rightarrow> tx_env \<Rightarrow> session_subject \<Rightarrow> uuid \<Rightarrow> string option \<Rightarrow> database
    \<Rightarrow> participation_failure + (participation_record \<times> database)" where
  "participation_register c env actor contestId inviteCode db =
     participation_guarded actor ContestRegister (register_team env (sj_userId actor) contestId
       (if given inviteCode then Some (code_digest c (the inviteCode)) else None) db)"

definition participation_withdraw ::
  "tx_env \<Rightarrow> session_subject \<Rightarrow> uuid \<Rightarrow> database \<Rightarrow> participation_failure + (participation_record \<times> database)" where
  "participation_withdraw env actor contestId db =
     participation_guarded actor ContestRegister (withdraw_team env (sj_userId actor) contestId db)"

record participation_review_input =
  pri_requestId :: string
  pri_contestId :: uuid
  pri_participationId :: uuid
  pri_decision :: review_decision
  pri_reason :: string

definition participation_review ::
  "tx_env \<Rightarrow> session_subject \<Rightarrow> participation_review_input \<Rightarrow> database
    \<Rightarrow> participation_failure + (participation_record \<times> database)" where
  "participation_review env actor input db =
     participation_guarded actor ContestJudge (review_participation env
       \<lparr>prc_actorId = sj_userId actor, prc_requestId = pri_requestId input,
        prc_contestId = pri_contestId input, prc_participationId = pri_participationId input,
        prc_decision = pri_decision input, prc_reason = js_trim (pri_reason input)\<rparr> db)"

record participation_division_input =
  pdi_requestId :: string
  pdi_contestId :: uuid
  pdi_participationId :: uuid
  pdi_divisionId :: "uuid option"
  pdi_reason :: "string option"

definition participation_assignDivision ::
  "tx_env \<Rightarrow> session_subject \<Rightarrow> participation_division_input \<Rightarrow> database
    \<Rightarrow> participation_failure + (participation_record \<times> database)" where
  "participation_assignDivision env actor input db =
     participation_guarded actor ContestJudge (assignDivision env
       \<lparr>pdc_actorId = sj_userId actor, pdc_requestId = pdi_requestId input,
        pdc_contestId = pdi_contestId input, pdc_participationId = pdi_participationId input,
        pdc_divisionId = pdi_divisionId input, pdc_reason = trimmed_or_null (pdi_reason input)\<rparr> db)"

definition participation_list ::
  "session_subject \<Rightarrow> uuid \<Rightarrow> string option \<Rightarrow> nat \<Rightarrow> participation_status option \<Rightarrow> database
    \<Rightarrow> participation_failure + participation_record page" where
  "participation_list actor contestId cursor limit status db =
     participation_guarded actor ContestJudge (list_participations db contestId cursor limit status)"

end
