(* ===== verification/Submission_Service.thy ===== *)
theory Submission_Service
  imports Submission_Frames Flag_Verifier Answer_Protector Rate_Limiting Identity_Capabilities
begin

text \<open>
  \<open>server/domains/submissions/service.ts\<close> and the limiter of
  \<open>server/infrastructure/security/submission-rate-limiter.ts\<close>: the operations players and judges
  call, with their guards in the order of the code, over the repository, the flag verifier, the
  answer protector and a rate limiter. The state is the limiter's store and the database; the
  counters of the store keep what a refused request has used. The clocks and the random nonce of a
  call are the fields of an environment.
\<close>

section \<open>The limiter\<close>

datatype limit_scope = UserScope | TeamScope | ChallengeScope

fun scope_text :: "limit_scope \<Rightarrow> string" where
  "scope_text UserScope = ''user''"
| "scope_text TeamScope = ''team''"
| "scope_text ChallengeScope = ''challenge''"

record limit_request =
  lr_scope :: limit_scope
  lr_identity :: string
  lr_action :: string
  lr_limit :: int
  lr_windowMs :: int

record submission_limit_decision =
  sd_allowed :: bool
  sd_retryAfterMs :: int

text \<open>A limiter with its clock \<open>'c\<close>, its store \<open>'s\<close> and its own errors \<open>'l\<close>; \<open>consumeMany\<close> is optional.\<close>

record ('c, 's, 'l) submission_rate_limiter =
  li_consume :: "'c \<Rightarrow> limit_request \<Rightarrow> 's \<Rightarrow> ('l + submission_limit_decision) \<times> 's"
  li_consumeMany :: "('c \<Rightarrow> limit_request list \<Rightarrow> 's \<Rightarrow> ('l + submission_limit_decision list) \<times> 's) option"

definition policy_of :: "crypto \<Rightarrow> limit_request \<Rightarrow> rate_limit_policy" where
  "policy_of c input = \<lparr>rp_bucket = rateLimitBucket c (scope_text (lr_scope input)) (lr_identity input)
     (lr_action input), rp_limit = lr_limit input, rp_windowMs = lr_windowMs input\<rparr>"

definition limit_decision :: "rate_limit_decision \<Rightarrow> submission_limit_decision" where
  "limit_decision d = \<lparr>sd_allowed = rd_allowed d, sd_retryAfterMs = rd_retryAfterMs d\<rparr>"

text \<open>\<open>RateLimitStoreSubmissionLimiter\<close> over the \<open>consumeMany\<close> of a store, \<open>consume\<close> its first decision.\<close>

definition RateLimitStoreSubmissionLimiter ::
  "crypto \<Rightarrow> ('c \<Rightarrow> rate_limit_policy list \<Rightarrow> 's \<Rightarrow> ('l + rate_limit_decision list) \<times> 's)
    \<Rightarrow> ('c, 's, 'l) submission_rate_limiter" where
  "RateLimitStoreSubmissionLimiter c consumeMany = \<lparr>
     li_consume = (\<lambda>t input s. case consumeMany t [policy_of c input] s of
        (Inl e, s') \<Rightarrow> (Inl e, s') | (Inr ds, s') \<Rightarrow> (Inr (limit_decision (hd ds)), s')),
     li_consumeMany = Some (\<lambda>t inputs s. case consumeMany t (map (policy_of c) inputs) s of
        (Inl e, s') \<Rightarrow> (Inl e, s') | (Inr ds, s') \<Rightarrow> (Inr (map limit_decision ds), s'))\<rparr>"

text \<open>\<open>Promise.all\<close> over \<open>consume\<close>: every request is made, the first error wins.\<close>

fun consume_all ::
  "('c \<Rightarrow> limit_request \<Rightarrow> 's \<Rightarrow> ('l + submission_limit_decision) \<times> 's) \<Rightarrow> 'c \<Rightarrow> limit_request list
    \<Rightarrow> 's \<Rightarrow> ('l + submission_limit_decision list) \<times> 's" where
  "consume_all f t [] s = (Inr [], s)"
| "consume_all f t (i # is') s =
     (let (r, s1) = f t i s; (rs, s2) = consume_all f t is' s1 in
      (ebind r (\<lambda>d. ebind rs (\<lambda>ds. Inr (d # ds))), s2))"

section \<open>Errors\<close>

datatype submission_service_code =
    CodeClueCursorInvalid | CodeClueNotFound | CodeClueRequestConflict | CodeClueReviewConflict
  | CodeClueReviewNoteRequired | CodeFlagConfigurationInvalid | CodeFlagValidatorFailed
  | CodeChallengeNotFound | CodeChallengeSubmissionClosed | CodeChallengeSubmissionLimitReached
  | CodeContestNotRunning | CodeContestNotFound | CodeParticipationNotAccepted
  | CodeParticipationNotFound | CodeRateLimited | CodeAdjustmentConfirmationRequired
  | CodeAdjustmentInvalid | CodeAdjustmentNotAllowed | CodeAdjustmentReasonRequired
  | CodeAdjustmentRequestConflict | CodeTeamMembershipRequired | CodeSubmissionCursorInvalid
  | CodeSubmissionRequestConflict

text \<open>What a service method throws; only the first is a \<open>SubmissionServiceError\<close>.\<close>

datatype 'l submission_failure =
    SubmissionServiceError submission_service_code int   \<comment> \<open>code, retryAfterMs\<close>
  | SubmissionForbidden capability_error
  | LimiterFailed 'l
  | RepositoryFailed submission_error

fun mapRepositoryError :: "submission_error \<Rightarrow> 'l submission_failure" where
  "mapRepositoryError SubmissionTeamRequired = SubmissionServiceError CodeTeamMembershipRequired 0"
| "mapRepositoryError SubmissionParticipationNotAccepted = SubmissionServiceError CodeParticipationNotAccepted 0"
| "mapRepositoryError SubmissionParticipationNotFound = SubmissionServiceError CodeParticipationNotFound 0"
| "mapRepositoryError SubmissionContestNotRunning = SubmissionServiceError CodeContestNotRunning 0"
| "mapRepositoryError SubmissionChallengeUnavailable = SubmissionServiceError CodeChallengeNotFound 0"
| "mapRepositoryError SubmissionChallengeClosed = SubmissionServiceError CodeChallengeSubmissionClosed 0"
| "mapRepositoryError SubmissionLimitReached = SubmissionServiceError CodeChallengeSubmissionLimitReached 0"
| "mapRepositoryError SubmissionRequestConflict = SubmissionServiceError CodeSubmissionRequestConflict 0"
| "mapRepositoryError ScoreAdjustmentRequestConflict = SubmissionServiceError CodeAdjustmentRequestConflict 0"
| "mapRepositoryError ScoreAdjustmentArchivedContest = SubmissionServiceError CodeAdjustmentNotAllowed 0"
| "mapRepositoryError SubmissionCursorInvalid = SubmissionServiceError CodeSubmissionCursorInvalid 0"
| "mapRepositoryError SubmissionContestNotFound = SubmissionServiceError CodeContestNotFound 0"
| "mapRepositoryError CheatClueNotFound = SubmissionServiceError CodeClueNotFound 0"
| "mapRepositoryError CheatClueCursorInvalid = SubmissionServiceError CodeClueCursorInvalid 0"
| "mapRepositoryError CheatClueReviewConflict = SubmissionServiceError CodeClueReviewConflict 0"
| "mapRepositoryError CheatClueRequestConflict = SubmissionServiceError CodeClueRequestConflict 0"
| "mapRepositoryError e = RepositoryFailed e"

definition mapRepository :: "submission_error + 'a \<Rightarrow> 'l submission_failure + 'a" where
  "mapRepository x = map_error mapRepositoryError x"

definition allow :: "session_subject \<Rightarrow> identity_capability \<Rightarrow> 'l submission_failure + unit" where
  "allow actor capability = map_error SubmissionForbidden (requireIdentityCapability actor capability)"

lemma mapRepositoryError_inj: "mapRepositoryError e = mapRepositoryError e' \<Longrightarrow> e = e'"
  by (cases e; cases e') simp_all

interpretation submission_errors: service_errors SubmissionForbidden mapRepositoryError
proof
  show "SubmissionForbidden x \<noteq> mapRepositoryError e" for x e by (cases e) simp_all
qed (simp_all add: mapRepositoryError_inj)

section \<open>Rate limits\<close>

definition largest_delay :: "submission_limit_decision list \<Rightarrow> int" where
  "largest_delay ds = foldl (\<lambda>m d. if sd_allowed d then m else max m (sd_retryAfterMs d)) 0 ds"

definition consumeInputs ::
  "('c, 's, 'l) submission_rate_limiter \<Rightarrow> 'c \<Rightarrow> limit_request list \<Rightarrow> 's
    \<Rightarrow> ('l + submission_limit_decision list) \<times> 's" where
  "consumeInputs limiter t inputs s = (case li_consumeMany limiter of
     Some consumeMany \<Rightarrow> consumeMany t inputs s | None \<Rightarrow> consume_all (li_consume limiter) t inputs s)"

definition enforceLimits ::
  "('c, 's, 'l) submission_rate_limiter \<Rightarrow> 'c \<Rightarrow> limit_request list \<Rightarrow> 's
    \<Rightarrow> ('l submission_failure + unit) \<times> 's" where
  "enforceLimits limiter t inputs s =
     (case consumeInputs limiter t inputs s of
        (Inl e, s') \<Rightarrow> (Inl (LimiterFailed e), s')
      | (Inr decisions, s') \<Rightarrow>
          (if 0 < largest_delay decisions
           then Inl (SubmissionServiceError CodeRateLimited (largest_delay decisions))
           else Inr (), s'))"

definition minute :: int where
  "minute = 60000"

definition user_limits :: "uuid \<Rightarrow> uuid \<Rightarrow> limit_request list" where
  "user_limits userId challengeId =
    [\<lparr>lr_scope = UserScope, lr_identity = userId, lr_action = ''submission.flag'', lr_limit = 60,
      lr_windowMs = minute\<rparr>,
     \<lparr>lr_scope = UserScope, lr_identity = userId @ char_of (0::nat) # challengeId,
      lr_action = ''submission.flag.challenge'', lr_limit = 20, lr_windowMs = minute\<rparr>]"

definition team_limits :: "uuid \<Rightarrow> uuid \<Rightarrow> limit_request list" where
  "team_limits teamId challengeId =
    [\<lparr>lr_scope = TeamScope, lr_identity = teamId, lr_action = ''submission.flag'', lr_limit = 120,
      lr_windowMs = minute\<rparr>,
     \<lparr>lr_scope = TeamScope, lr_identity = teamId @ char_of (0::nat) # challengeId,
      lr_action = ''submission.flag.challenge'', lr_limit = 30, lr_windowMs = minute\<rparr>,
     \<lparr>lr_scope = ChallengeScope, lr_identity = challengeId, lr_action = ''submission.flag'',
      lr_limit = 12000, lr_windowMs = minute\<rparr>]"

section \<open>Submitting a flag\<close>

record verify_flag_input =
  vf_contestId :: uuid
  vf_challengeId :: uuid
  vf_submittedFlag :: string
  vf_requestId :: string

record verify_flag_result =
  vr_correct :: bool
  vr_result :: submission_result
  vr_mode :: submission_mode

text \<open>The services behind the operation, and the clocks and draws of one call.\<close>

record ('c, 's, 'l) submission_service =
  sv_crypto :: crypto
  sv_keyring :: "int \<rightharpoonup> bytes"
  sv_validators :: "string \<rightharpoonup> validator"
  sv_limiter :: "('c, 's, 'l) submission_rate_limiter"
  sv_answers :: answer_protector

text \<open>\<open>fc_meanwhile\<close> is what other requests do to store and database after the admission was read.\<close>

record ('c, 's) flag_call =
  fc_user_clock :: 'c
  fc_admit_at :: millis
  fc_meanwhile :: "'s \<times> database \<Rightarrow> 's \<times> database"
  fc_team_clock :: 'c
  fc_nonce :: bytes
  fc_append_at :: millis
  fc_tx :: tx_env

definition answer_context ::
  "session_subject \<Rightarrow> verify_flag_input \<Rightarrow> submission_admission \<Rightarrow> submission_answer_context" where
  "answer_context actor input adm = \<lparr>sx_contestId = adm_contestId adm,
     sx_challengeId = adm_challengeId adm, sx_participationId = adm_participationId adm,
     sx_teamId = adm_teamId adm, sx_userId = sj_userId actor, sx_requestId = vf_requestId input\<rparr>"

definition verifier_input :: "verify_flag_input \<Rightarrow> submission_admission \<Rightarrow> flag_verification_context" where
  "verifier_input input adm = \<lparr>fv_contestId = adm_contestId adm,
     fv_challengeId = adm_challengeId adm, fv_teamId = adm_teamId adm,
     fv_submittedFlag = vf_submittedFlag input, fv_flagFormat = adm_flagFormat adm,
     fv_policy = adm_flagPolicy adm\<rparr>"

fun verifier_failure :: "flag_error \<Rightarrow> 'l submission_failure" where
  "verifier_failure FlagVerificationConfiguration = SubmissionServiceError CodeFlagConfigurationInvalid 0"
| "verifier_failure FlagValidatorExecution = SubmissionServiceError CodeFlagValidatorFailed 0"

definition append_command ::
  "session_subject \<Rightarrow> verify_flag_input \<Rightarrow> submission_admission \<Rightarrow> millis \<Rightarrow> bool
    \<Rightarrow> protected_submission_answer \<Rightarrow> append_submission_command" where
  "append_command actor input adm at_ms correct answer = \<lparr>sac_userId = sj_userId actor,
     sac_contestId = adm_contestId adm, sac_challengeId = adm_challengeId adm, sac_at = at_ms,
     asc_requestId = vf_requestId input,
     asc_result = (if correct then VerifiedCorrect else VerifiedIncorrect),
     asc_answerDigest = pr_digest answer, asc_answerCiphertext = pr_ciphertext answer\<rparr>"

text \<open>From the second limits on: verification, protection and the append.\<close>

definition verify_and_append ::
  "js_math \<Rightarrow> ('c, 's, 'l) submission_service \<Rightarrow> ('c, 's) flag_call \<Rightarrow> session_subject \<Rightarrow> verify_flag_input
    \<Rightarrow> submission_admission \<Rightarrow> database \<Rightarrow> 'l submission_failure + (verify_flag_result \<times> database)" where
  "verify_and_append m sv call actor input adm db =
     ebind (map_error verifier_failure
       (verify (sv_crypto sv) (sv_keyring sv) (sv_validators sv) (verifier_input input adm))) (\<lambda>correct.
     let protectedAnswer = protect (sv_crypto sv) (sv_answers sv) (fc_nonce call)
           (vf_submittedFlag input) (answer_context actor input adm) in
     ebind (mapRepository (append_submission m (fc_tx call)
       (append_command actor input adm (fc_append_at call) correct protectedAnswer) db))
       (\<lambda>(submission, db').
     Inr (\<lparr>vr_correct = correct, vr_result = ss_result submission, vr_mode = ss_mode submission\<rparr>, db')))"

definition verifyFlag ::
  "js_math \<Rightarrow> ('c, 's, 'l) submission_service \<Rightarrow> ('c, 's) flag_call \<Rightarrow> session_subject \<Rightarrow> verify_flag_input
    \<Rightarrow> 's \<times> database \<Rightarrow> ('l submission_failure + verify_flag_result) \<times> 's \<times> database" where
  "verifyFlag m sv call actor input = (\<lambda>(s, db).
     case allow actor FlagSubmit of Inl e \<Rightarrow> (Inl e, s, db) | Inr _ \<Rightarrow>
     (case enforceLimits (sv_limiter sv) (fc_user_clock call)
         (user_limits (sj_userId actor) (vf_challengeId input)) s of
       (Inl e, s1) \<Rightarrow> (Inl e, s1, db)
     | (Inr _, s1) \<Rightarrow>
     (case mapRepository (admit db \<lparr>sac_userId = sj_userId actor, sac_contestId = vf_contestId input,
         sac_challengeId = vf_challengeId input, sac_at = fc_admit_at call\<rparr>) of
       Inl e \<Rightarrow> (Inl e, s1, db)
     | Inr adm \<Rightarrow>
     (case fc_meanwhile call (s1, db) of (s2, db2) \<Rightarrow>
     (case enforceLimits (sv_limiter sv) (fc_team_clock call)
         (team_limits (adm_teamId adm) (vf_challengeId input)) s2 of
       (Inl e, s3) \<Rightarrow> (Inl e, s3, db2)
     | (Inr _, s3) \<Rightarrow>
     (case verify_and_append m sv call actor input adm db2 of
       Inl e \<Rightarrow> (Inl e, s3, db2)
     | Inr (result, db') \<Rightarrow> (Inr result, s3, db')))))))"

section \<open>Judging\<close>

definition serviceListManaged ::
  "session_subject \<Rightarrow> uuid \<Rightarrow> string option \<Rightarrow> nat \<Rightarrow> database
    \<Rightarrow> 'l submission_failure + stored_submission page" where
  "serviceListManaged actor contestId cursor limit db =
     guarded SubmissionForbidden mapRepositoryError actor ContestJudge
       (listManaged db contestId cursor limit)"

text \<open>\<open>pointsDelta\<close> is \<open>None\<close> when it is not an integer.\<close>

record score_adjustment_input =
  si_contestId :: uuid
  si_participationId :: uuid
  si_pointsDelta :: "int option"
  si_reason :: string
  si_confirmed :: bool
  si_requestId :: string

definition adjustable :: "int option \<Rightarrow> bool" where
  "adjustable delta \<longleftrightarrow> (case delta of None \<Rightarrow> False
     | Some d \<Rightarrow> safe_integer d \<and> d \<noteq> 0 \<and> \<bar>d\<bar> \<le> 1000000)"

definition adjustment_command ::
  "session_subject \<Rightarrow> score_adjustment_input \<Rightarrow> millis \<Rightarrow> score_adjustment_command" where
  "adjustment_command actor input at_ms = \<lparr>rsa_actorId = sj_userId actor,
     rsa_contestId = si_contestId input, rsa_participationId = si_participationId input,
     rsa_pointsDelta = the (si_pointsDelta input), rsa_reason = js_trim (si_reason input),
     rsa_requestId = si_requestId input, rsa_at = at_ms\<rparr>"

definition serviceRecordScoreAdjustment ::
  "tx_env \<Rightarrow> millis \<Rightarrow> session_subject \<Rightarrow> score_adjustment_input \<Rightarrow> database
    \<Rightarrow> 'l submission_failure + (score_adjustment_record \<times> database)" where
  "serviceRecordScoreAdjustment env at_ms actor input db =
     ebind (allow actor ContestJudge) (\<lambda>_.
     if \<not> si_confirmed input then Inl (SubmissionServiceError CodeAdjustmentConfirmationRequired 0)
     else if \<not> adjustable (si_pointsDelta input) then Inl (SubmissionServiceError CodeAdjustmentInvalid 0)
     else let reason = js_trim (si_reason input) in
     if length reason < 10 \<or> 1000 < length reason
     then Inl (SubmissionServiceError CodeAdjustmentReasonRequired 0)
     else mapRepository (recordScoreAdjustment env (adjustment_command actor input at_ms) db))"

definition serviceListCheatClues ::
  "session_subject \<Rightarrow> uuid \<Rightarrow> cheat_clue_status option \<Rightarrow> string option \<Rightarrow> nat \<Rightarrow> database
    \<Rightarrow> 'l submission_failure + cheat_clue_record page" where
  "serviceListCheatClues actor contestId status cursor limit db =
     guarded SubmissionForbidden mapRepositoryError actor ContestJudge
       (listCheatClues db contestId status cursor limit)"

record cheat_clue_review_input =
  cr_contestId :: uuid
  cr_clueId :: uuid
  cr_status :: cheat_clue_status
  cr_note :: "string option"
  cr_requestId :: string

definition note_length :: "string option \<Rightarrow> nat" where
  "note_length note = (case note of None \<Rightarrow> 0 | Some t \<Rightarrow> length t)"

definition clue_review_command ::
  "session_subject \<Rightarrow> cheat_clue_review_input \<Rightarrow> millis \<Rightarrow> review_cheat_clue_command" where
  "clue_review_command actor input at_ms = \<lparr>rcc_actorId = sj_userId actor,
     rcc_contestId = cr_contestId input, rcc_clueId = cr_clueId input, rcc_status = cr_status input,
     rcc_note = trimmed_or_null (cr_note input), rcc_requestId = cr_requestId input, rcc_at = at_ms\<rparr>"

definition serviceReviewCheatClue ::
  "tx_env \<Rightarrow> millis \<Rightarrow> session_subject \<Rightarrow> cheat_clue_review_input \<Rightarrow> database
    \<Rightarrow> 'l submission_failure + (cheat_clue_record \<times> database)" where
  "serviceReviewCheatClue env at_ms actor input db =
     ebind (allow actor ContestJudge) (\<lambda>_.
     let note = trimmed_or_null (cr_note input); finalReview = final_review (cr_status input) in
     if (finalReview \<and> note_length note < 10) \<or> 1000 < note_length note
     then Inl (SubmissionServiceError CodeClueReviewNoteRequired 0)
     else mapRepository (reviewCheatClue env (clue_review_command actor input at_ms) db))"

end
