(* ===== verification/Submission_Service_Facts.thy ===== *)
theory Submission_Service_Facts
  imports Submission_Service Submission_Safety
begin

text \<open>
  What the submission service guarantees: the limits it enforces through either rate limit store,
  the answer it stores, the adjustments it lets through, and the codes it reports errors with.
\<close>

section \<open>Limits\<close>

text \<open>
  A limiter as the service relies on it: when it answers, it answers every request, by whether the
  request's window is still within its limit, and a refusal names a delay.
\<close>

locale submission_limits =
  fixes limiter :: "('c, 's, 'l) submission_rate_limiter"
    and inside :: "'c \<Rightarrow> 's \<Rightarrow> limit_request \<Rightarrow> bool"
    and separate :: "limit_request list \<Rightarrow> bool"
  assumes answers: "separate inputs \<Longrightarrow> consumeInputs limiter t inputs s = (Inr ds, s')
      \<Longrightarrow> list_all2 (\<lambda>i d. (sd_allowed d \<longleftrightarrow> inside t s' i) \<and> 1 \<le> sd_retryAfterMs d) inputs ds"
begin

lemma delay_ge: "n \<le> foldl (\<lambda>m d. if sd_allowed d then m else max m (sd_retryAfterMs d)) n ds"
proof (induction ds arbitrary: n)
  case (Cons d ds)
  have "n \<le> max n (sd_retryAfterMs d)" by simp
  also note Cons.IH [of "max n (sd_retryAfterMs d)"]
  finally show ?case using Cons.IH [of n] by simp
qed simp

lemma delay_zero:
  assumes "\<forall>d\<in>set ds. 1 \<le> sd_retryAfterMs d" and "\<not> 0 < largest_delay ds"
  shows "\<forall>d\<in>set ds. sd_allowed d"
  using assms
proof (induction ds)
  case (Cons d ds)
  show ?case
  proof (cases "sd_allowed d")
    case True
    with Cons show ?thesis by (simp add: largest_delay_def)
  next
    case False
    with Cons.prems delay_ge [of "sd_retryAfterMs d" ds] show ?thesis
      by (simp add: largest_delay_def max_def)
  qed
qed simp

lemma enforced:
  assumes "enforceLimits limiter t inputs s = (Inr u, s')" and "separate inputs"
  shows "\<forall>i\<in>set inputs. inside t s' i"
proof -
  obtain ds where c: "consumeInputs limiter t inputs s = (Inr ds, s')" and z: "\<not> 0 < largest_delay ds"
    using assms(1) by (auto simp: enforceLimits_def split: prod.splits sum.splits if_splits)
  note a = answers [OF assms(2) c]
  then have "\<forall>d\<in>set ds. 1 \<le> sd_retryAfterMs d" by (induction rule: list_all2_induct) simp_all
  from delay_zero [OF this z] have "\<forall>d\<in>set ds. sd_allowed d" .
  with a show ?thesis by (induction rule: list_all2_induct) simp_all
qed

end

text \<open>The two limiters the platform is assembled with.\<close>

definition pg_limiter :: "crypto \<Rightarrow> (millis \<times> millis, window_table, rate_limit_error) submission_rate_limiter" where
  "pg_limiter c = RateLimitStoreSubmissionLimiter c (pg_consumeMany c)"

definition memory_limiter :: "crypto \<Rightarrow> (millis, memory_store, rate_limit_error) submission_rate_limiter" where
  "memory_limiter c = RateLimitStoreSubmissionLimiter c
     (\<lambda>t ps s. case memory_consumeMany t ps s of (ds, s') \<Rightarrow> (Inr ds, s'))"

text \<open>The count of the window a request fell into.\<close>

definition pg_within :: "crypto \<Rightarrow> millis \<times> millis \<Rightarrow> window_table \<Rightarrow> limit_request \<Rightarrow> bool" where
  "pg_within c t table i \<longleftrightarrow>
     pg_used c table (window_start (fst t) (lr_windowMs i)) (policy_of c i) \<le> lr_limit i"

definition memory_within :: "crypto \<Rightarrow> millis \<Rightarrow> memory_store \<Rightarrow> limit_request \<Rightarrow> bool" where
  "memory_within c t s i \<longleftrightarrow> (case s (rp_bucket (policy_of c i)) of None \<Rightarrow> True
     | Some w \<Rightarrow> mw_count w \<le> lr_limit i)"

lemma pg_rows_keep:
  "pg_consume_rows c t ps table = (ds, table') \<Longrightarrow> k \<notin> row_key c (fst t) ` set ps \<Longrightarrow> table' k = table k"
  by (induction ps arbitrary: ds table)
     (auto simp: pg_consume_def row_key_def Let_def split: prod.splits)

lemma pg_rows_answer:
  "pg_consume_rows c t ps table = (ds, table') \<Longrightarrow> distinct (map (row_key c (fst t)) ps) \<Longrightarrow>
     list_all2 (\<lambda>p d. (rd_allowed d \<longleftrightarrow> pg_used c table' (window_start (fst t) (rp_windowMs p)) p \<le> rp_limit p)
       \<and> 1 \<le> rd_retryAfterMs d) ps ds"
proof (induction ps arbitrary: ds table)
  case (Cons p ps)
  obtain d table1 ds' where 1: "pg_consume c t p table = (d, table1)"
    and 2: "pg_consume_rows c t ps table1 = (ds', table')" and ds: "ds = d # ds'"
    using Cons.prems(1) by (auto split: prod.splits)
  have "table' (row_key c (fst t) p) = table1 (row_key c (fst t) p)"
    using Cons.prems(2) by (intro pg_rows_keep [OF 2]) simp
  moreover have "(rd_allowed d \<longleftrightarrow> pg_used c table1 (window_start (fst t) (rp_windowMs p)) p \<le> rp_limit p)
      \<and> 1 \<le> rd_retryAfterMs d"
    using 1 by (auto simp: pg_consume_def decision_of_def pg_used_def Let_def split: option.splits)
  ultimately have "(rd_allowed d \<longleftrightarrow> pg_used c table' (window_start (fst t) (rp_windowMs p)) p \<le> rp_limit p)
      \<and> 1 \<le> rd_retryAfterMs d" by (simp add: pg_used_def row_key_def)
  with Cons.IH [OF 2] Cons.prems(2) show ?case by (simp add: ds)
qed simp

lemma memory_rows_keep:
  "memory_consumeMany t ps s = (ds, s') \<Longrightarrow> b \<notin> rp_bucket ` set ps \<Longrightarrow> s' b = s b"
  by (induction ps arbitrary: ds s) (auto simp: memory_consume_def Let_def split: prod.splits)

lemma memory_rows_answer:
  "memory_consumeMany t ps s = (ds, s') \<Longrightarrow> distinct (map rp_bucket ps) \<Longrightarrow>
     list_all2 (\<lambda>p d. (rd_allowed d \<longleftrightarrow> (case s' (rp_bucket p) of None \<Rightarrow> True
         | Some w \<Rightarrow> mw_count w \<le> rp_limit p)) \<and> 1 \<le> rd_retryAfterMs d) ps ds"
proof (induction ps arbitrary: ds s)
  case (Cons p ps)
  obtain d s1 ds' where 1: "memory_consume t p s = (d, s1)"
    and 2: "memory_consumeMany t ps s1 = (ds', s')" and ds: "ds = d # ds'"
    using Cons.prems(1) by (auto split: prod.splits)
  have "s' (rp_bucket p) = s1 (rp_bucket p)"
    using Cons.prems(2) by (intro memory_rows_keep [OF 2]) simp
  moreover have "(rd_allowed d \<longleftrightarrow> (case s1 (rp_bucket p) of None \<Rightarrow> True | Some w \<Rightarrow> mw_count w \<le> rp_limit p))
      \<and> 1 \<le> rd_retryAfterMs d"
    using 1 by (auto simp: memory_consume_def decision_of_def Let_def)
  ultimately show ?case using Cons.IH [OF 2] Cons.prems(2) by (simp add: ds)
qed simp

interpretation pg_limits: submission_limits "pg_limiter c" "pg_within c" "\<lambda>_. True"
proof
  fix inputs t ds and s s' :: window_table
  assume "consumeInputs (pg_limiter c) t inputs s = (Inr ds, s')"
  then obtain ds' where ds: "ds = map limit_decision ds'"
    and m: "pg_consumeMany c t (map (policy_of c) inputs) s = (Inr ds', s')"
    by (auto simp: consumeInputs_def pg_limiter_def RateLimitStoreSubmissionLimiter_def
        split: prod.splits sum.splits)
  have "list_all2 (\<lambda>p d. (rd_allowed d \<longleftrightarrow> pg_used c s' (window_start (fst t) (rp_windowMs p)) p \<le> rp_limit p)
      \<and> 1 \<le> rd_retryAfterMs d) (map (policy_of c) inputs) ds'"
    using m by (auto simp: pg_consumeMany_def split: sum.splits if_splits prod.splits intro: pg_rows_answer)
  then show "list_all2 (\<lambda>i d. (sd_allowed d \<longleftrightarrow> pg_within c t s' i) \<and> 1 \<le> sd_retryAfterMs d) inputs ds"
    by (simp add: ds list_all2_map1 list_all2_map2 limit_decision_def pg_within_def policy_of_def)
qed

interpretation memory_limits: submission_limits "memory_limiter c" "memory_within c"
  "\<lambda>inputs. distinct (map (rp_bucket \<circ> policy_of c) inputs)"
proof
  fix inputs t ds and s s' :: memory_store
  assume d: "distinct (map (rp_bucket \<circ> policy_of c) inputs)"
    and "consumeInputs (memory_limiter c) t inputs s = (Inr ds, s')"
  then obtain ds' where ds: "ds = map limit_decision ds'"
    and m: "memory_consumeMany t (map (policy_of c) inputs) s = (ds', s')"
    by (auto simp: consumeInputs_def memory_limiter_def RateLimitStoreSubmissionLimiter_def
        split: prod.splits sum.splits)
  have l: "rp_limit (policy_of c i) = lr_limit i" for i by (simp add: policy_of_def)
  from memory_rows_answer [OF m] d
  show "list_all2 (\<lambda>i d. (sd_allowed d \<longleftrightarrow> memory_within c t s' i) \<and> 1 \<le> sd_retryAfterMs d) inputs ds"
    by (simp add: ds list_all2_map1 list_all2_map2 limit_decision_def memory_within_def l
        cong: option.case_cong)
qed

section \<open>The steps of a submission\<close>

lemma verifyFlag_steps:
  assumes "verifyFlag m sv call actor input (s, db) = (Inr r, s', db')"
  obtains adm s1 s2 db2 where "requireIdentityCapability actor FlagSubmit = Inr ()"
    and "enforceLimits (sv_limiter sv) (fc_user_clock call)
      (user_limits (sj_userId actor) (vf_challengeId input)) s = (Inr (), s1)"
    and "admit db \<lparr>sac_userId = sj_userId actor, sac_contestId = vf_contestId input,
      sac_challengeId = vf_challengeId input, sac_at = fc_admit_at call\<rparr> = Inr adm"
    and "fc_meanwhile call (s1, db) = (s2, db2)"
    and "enforceLimits (sv_limiter sv) (fc_team_clock call)
      (team_limits (adm_teamId adm) (vf_challengeId input)) s2 = (Inr (), s')"
    and "verify_and_append m sv call actor input adm db2 = Inr (r, db')"
  using assms
  by (auto simp: verifyFlag_def allow_def mapRepository_def map_error_def split: sum.splits prod.splits)

lemma verify_and_append_steps:
  assumes "verify_and_append m sv call actor input adm db = Inr (r, db')"
  obtains correct submission where
    "verify (sv_crypto sv) (sv_keyring sv) (sv_validators sv) (verifier_input input adm) = Inr correct"
    and "append_submission m (fc_tx call) (append_command actor input adm (fc_append_at call) correct
      (protect (sv_crypto sv) (sv_answers sv) (fc_nonce call) (vf_submittedFlag input)
        (answer_context actor input adm))) db = Inr (submission, db')"
    and "r = \<lparr>vr_correct = correct, vr_result = ss_result submission, vr_mode = ss_mode submission\<rparr>"
  using assms
  by (auto simp: verify_and_append_def mapRepository_def ebind_Inr_iff Let_def)

section \<open>Properties\<close>

text \<open>
  Every error the repository declares reaches the client under a code of its own, without a
  delay; only failures of the database, of stored policies or of the scoring pass on as they are,
  and no two errors are confused.
\<close>

theorem repository_errors_mapped:
  "inj (mapRepositoryError :: submission_error \<Rightarrow> 'l submission_failure)
   \<and> ((\<exists>code. mapRepositoryError e = (SubmissionServiceError code 0 :: 'l submission_failure))
      \<longleftrightarrow> \<not> (e = PolicyParseError \<or> e = VersionOutOfRange \<or> e = EmptyPageCursor
             \<or> (\<exists>x. e = ScoringFailure x) \<or> (\<exists>x. e = SubmissionDatabaseError x)))"
proof
  show "inj (mapRepositoryError :: submission_error \<Rightarrow> 'l submission_failure)"
    by (rule injI) (rule mapRepositoryError_inj)
qed (cases e; simp)



text \<open>
  An adjustment passes the service only for a judge who confirmed it, and what is then on record
  for the request is a nonzero change of at most a million points with a reason of 10 to 1000
  characters, entered by that judge.
\<close>

theorem adjustment_guarded:
  assumes "serviceRecordScoreAdjustment env at_ms actor input db = Inr (r, db')"
  shows "hasIdentityCapability actor ContestJudge \<and> si_confirmed input
    \<and> (\<exists>row. readScoreAdjustmentByRequestId db' (si_requestId input) = Some row
        \<and> r = scoreAdjustmentRecord row \<and> sa_points_delta row \<noteq> 0 \<and> \<bar>sa_points_delta row\<bar> \<le> 1000000
        \<and> sa_reason row = js_trim (si_reason input) \<and> 10 \<le> length (sa_reason row)
        \<and> length (sa_reason row) \<le> 1000 \<and> sa_created_by row = sj_userId actor)"
proof -
  let ?command = "adjustment_command actor input at_ms"
  from assms have guards: "requireIdentityCapability actor ContestJudge = Inr ()" "si_confirmed input"
      "adjustable (si_pointsDelta input)" "10 \<le> length (js_trim (si_reason input))"
      "length (js_trim (si_reason input)) \<le> 1000"
    and rec: "recordScoreAdjustment env ?command db = Inr (r, db')"
    by (auto simp: serviceRecordScoreAdjustment_def allow_def mapRepository_def ebind_Inr_iff Let_def
        split: if_splits)
  obtain row where row: "readScoreAdjustmentByRequestId db' (si_requestId input) = Some row"
      "sameScoreAdjustment row ?command" "r = scoreAdjustmentRecord row"
    using adjustment_same_request [OF rec] by (auto simp: adjustment_command_def)
  moreover have "hasIdentityCapability actor ContestJudge"
    using guards(1) by (auto simp: requireIdentityCapability_def split: if_splits)
  ultimately show ?thesis using guards
    by (auto simp: sameScoreAdjustment_def adjustable_def adjustment_command_def split: option.splits)
qed

end
