(* ===== verification/Service_System.thy ===== *)
theory Service_System
  imports Registration_Services Submission_Service_Facts
begin

text \<open>
  The services over the repositories: every call a client makes is, on the database, either nothing
  or one transaction of the system, in the name of the calling subject and within its capabilities.
\<close>

section \<open>Calls\<close>

datatype ('c, 's) service_call =
    CallCreateTeam bytes string                       \<comment> \<open>random bytes, name\<close>
  | CallJoinTeam string
  | CallLeaveTeam
  | CallRemoveMember uuid
  | CallRotateInvite bytes
  | CallTransfer uuid
  | CallCorrect team_correction_input
  | CallRegister uuid "string option"
  | CallWithdraw uuid
  | CallReview participation_review_input
  | CallAssign participation_division_input
  | CallVerifyFlag "('c, 's) flag_call" verify_flag_input
  | CallAdjust millis score_adjustment_input
  | CallReviewClue millis cheat_clue_review_input

text \<open>
  A call on store and database, one at a time: nothing happens between the two halves of
  \<open>verifyFlag\<close>, whose transaction is the call's.
\<close>

fun serve ::
  "js_math \<Rightarrow> unicode \<Rightarrow> ('c, 's, 'l) submission_service \<Rightarrow> tx_env \<Rightarrow> session_subject
    \<Rightarrow> ('c, 's) service_call \<Rightarrow> 's \<times> database \<Rightarrow> 's \<times> database" where
  "serve m u sv env actor (CallCreateTeam random name) (s, db) =
     (s, committed db (team_create u (sv_crypto sv) env random actor name db))"
| "serve m u sv env actor (CallJoinTeam code) (s, db) =
     (s, committed db (team_join (sv_crypto sv) env actor code db))"
| "serve m u sv env actor CallLeaveTeam (s, db) = (s, committed db (team_leave env actor db))"
| "serve m u sv env actor (CallRemoveMember member) (s, db) =
     (s, committed db (team_remove env actor member db))"
| "serve m u sv env actor (CallRotateInvite random) (s, db) =
     (s, committed db (team_rotateInvite (sv_crypto sv) env random actor db))"
| "serve m u sv env actor (CallTransfer member) (s, db) =
     (s, committed db (team_transfer env actor member db))"
| "serve m u sv env actor (CallCorrect input) (s, db) =
     (s, committed db (team_correctMembership env actor input db))"
| "serve m u sv env actor (CallRegister contest code) (s, db) =
     (s, committed db (participation_register (sv_crypto sv) env actor contest code db))"
| "serve m u sv env actor (CallWithdraw contest) (s, db) =
     (s, committed db (participation_withdraw env actor contest db))"
| "serve m u sv env actor (CallReview input) (s, db) =
     (s, committed db (participation_review env actor input db))"
| "serve m u sv env actor (CallAssign input) (s, db) =
     (s, committed db (participation_assignDivision env actor input db))"
| "serve m u sv env actor (CallVerifyFlag call input) (s, db) =
     snd (verifyFlag m sv (call\<lparr>fc_meanwhile := id, fc_tx := env\<rparr>) actor input (s, db))"
| "serve m u sv env actor (CallAdjust at_ms input) (s, db) = (s, committed db
     (serviceRecordScoreAdjustment env at_ms actor input db :: 'l submission_failure + _))"
| "serve m u sv env actor (CallReviewClue at_ms input) (s, db) = (s, committed db
     (serviceReviewCheatClue env at_ms actor input db :: 'l submission_failure + _))"

fun run_services ::
  "js_math \<Rightarrow> unicode \<Rightarrow> ('c, 's, 'l) submission_service
    \<Rightarrow> (tx_env \<times> session_subject \<times> ('c, 's) service_call) list \<Rightarrow> 's \<times> database \<Rightarrow> 's \<times> database" where
  "run_services m u sv [] state = state"
| "run_services m u sv ((env, actor, call) # calls) state =
     run_services m u sv calls (serve m u sv env actor call state)"

section \<open>Who may do what\<close>

text \<open>In whose name a transaction is made, and the capability that takes.\<close>

fun operation_actor :: "operation \<Rightarrow> uuid" where
  "operation_actor (CreateTeam name nname captain digest code) = captain"
| "operation_actor (JoinTeam user digest) = user"
| "operation_actor (LeaveTeam user) = user"
| "operation_actor (RemoveTeamMember actor member) = actor"
| "operation_actor (RotateInvite actor digest code) = actor"
| "operation_actor (TransferTeam actor member) = actor"
| "operation_actor (CorrectTeam command) = tcc_actorId command"
| "operation_actor (RegisterTeam user contest digest) = user"
| "operation_actor (WithdrawTeam user contest) = user"
| "operation_actor (ReviewParticipation command) = prc_actorId command"
| "operation_actor (AssignDivision command) = pdc_actorId command"
| "operation_actor (AppendSubmission command) = sac_userId command"
| "operation_actor (AdjustScore command) = rsa_actorId command"
| "operation_actor (ReviewClue command) = rcc_actorId command"

fun operation_capability :: "operation \<Rightarrow> identity_capability" where
  "operation_capability (CorrectTeam command) = GlobalOperationsManage"
| "operation_capability (RegisterTeam user contest digest) = ContestRegister"
| "operation_capability (WithdrawTeam user contest) = ContestRegister"
| "operation_capability (ReviewParticipation command) = ContestJudge"
| "operation_capability (AssignDivision command) = ContestJudge"
| "operation_capability (AppendSubmission command) = FlagSubmit"
| "operation_capability (AdjustScore command) = ContestJudge"
| "operation_capability (ReviewClue command) = ContestJudge"
| "operation_capability _ = TeamWrite"

definition authorised :: "session_subject \<Rightarrow> operation \<Rightarrow> bool" where
  "authorised actor x \<longleftrightarrow> operation_actor x = sj_userId actor
     \<and> requireIdentityCapability actor (operation_capability x) = Inr ()"

text \<open>The database after a call: unchanged, or changed by one authorised transaction.\<close>

definition acts :: "js_math \<Rightarrow> tx_env \<Rightarrow> session_subject \<Rightarrow> database \<Rightarrow> database \<Rightarrow> bool" where
  "acts m env actor db db' \<longleftrightarrow> db' = db \<or> (\<exists>x. authorised actor x \<and> db' = execute m env x db)"

lemma actsI: "authorised actor x \<Longrightarrow> db' = execute m env x db \<Longrightarrow> acts m env actor db db'"
  by (auto simp: acts_def)

lemma authorised_append: "requireIdentityCapability actor FlagSubmit = Inr () \<Longrightarrow>
    authorised actor (AppendSubmission (append_command actor input adm at_ms correct answer))"
  by (simp add: authorised_def append_command_def)

lemma acts_committed:
  assumes "\<And>r db'. result = Inr (r, db') \<Longrightarrow> \<exists>x. authorised actor x \<and> db' = execute m env x db"
  shows "acts m env actor db (committed db result)"
  using assms by (cases result) (auto simp: acts_def committed_def)

lemma acts_guarded:
  assumes "operation_actor x = sj_userId actor" and "operation_capability x = capability"
    and "execute m env x db = committed db result"
  shows "acts m env actor db (committed db (guarded f g actor capability result))"
  by (rule acts_committed)
    (use assms in \<open>auto simp: guarded_Inr authorised_def committed_def intro!: exI [of _ x]\<close>)

lemma verifyFlag_acts:
  assumes "fc_meanwhile call = id"
  shows "acts m (fc_tx call) actor db (snd (snd (verifyFlag m sv call actor input (s, db))))"
proof (cases "verifyFlag m sv call actor input (s, db)")
  case (fields result s' db')
  show ?thesis
  proof (cases result)
    case (Inl e)
    with fields assms have "db' = db"
      by (auto simp: verifyFlag_def split: sum.splits prod.splits)
    then show ?thesis by (simp add: fields acts_def)
  next
    case (Inr r)
    with fields have call: "verifyFlag m sv call actor input (s, db) = (Inr r, s', db')" by simp
    obtain adm s1 s2 db2 where granted: "requireIdentityCapability actor FlagSubmit = Inr ()"
      and "fc_meanwhile call (s1, db) = (s2, db2)"
      and va: "verify_and_append m sv call actor input adm db2 = Inr (r, db')"
      by (rule verifyFlag_steps [OF call])
    then have "db2 = db" using assms by simp
    from va obtain correct row where "append_submission m (fc_tx call)
        (append_command actor input adm (fc_append_at call) correct (protect (sv_crypto sv) (sv_answers sv)
          (fc_nonce call) (vf_submittedFlag input) (answer_context actor input adm))) db2 = Inr (row, db')"
      by (rule verify_and_append_steps)
    then have "db' = execute m (fc_tx call) (AppendSubmission (append_command actor input adm
        (fc_append_at call) correct (protect (sv_crypto sv) (sv_answers sv) (fc_nonce call)
          (vf_submittedFlag input) (answer_context actor input adm)))) db"
      by (simp add: \<open>db2 = db\<close> committed_def)
    then show ?thesis unfolding fields snd_conv by (rule actsI [OF authorised_append [OF granted]])
  qed
qed

lemmas acts_by = acts_guarded [OF _ _ execute.simps(1)] acts_guarded [OF _ _ execute.simps(2)]
  acts_guarded [OF _ _ execute.simps(3)] acts_guarded [OF _ _ execute.simps(4)]
  acts_guarded [OF _ _ execute.simps(5)] acts_guarded [OF _ _ execute.simps(6)]
  acts_guarded [OF _ _ execute.simps(8)] acts_guarded [OF _ _ execute.simps(9)]
  acts_guarded [OF _ _ execute.simps(10)] acts_guarded [OF _ _ execute.simps(11)]

lemma correction_acts: "acts m env actor db (committed db (team_correctMembership env actor input db))"
  by (rule acts_committed)
    (auto simp: team_correctMembership_def Let_def ebind_Inr_iff authorised_def correction_command_def
      committed_def split: if_splits intro!: exI [of _ "CorrectTeam (correction_command actor input)"])

lemma adjustment_acts: "acts m env actor db (committed db (serviceRecordScoreAdjustment env at_ms actor input db))"
  by (rule acts_committed)
    (auto simp: serviceRecordScoreAdjustment_def allow_def mapRepository_def Let_def ebind_Inr_iff
      authorised_def adjustment_command_def committed_def
      split: if_splits intro!: exI [of _ "AdjustScore (adjustment_command actor input at_ms)"])

lemma clue_review_acts: "acts m env actor db (committed db (serviceReviewCheatClue env at_ms actor input db))"
  by (rule acts_committed)
    (auto simp: serviceReviewCheatClue_def allow_def mapRepository_def Let_def ebind_Inr_iff
      authorised_def clue_review_command_def committed_def
      split: if_splits intro!: exI [of _ "ReviewClue (clue_review_command actor input at_ms)"])

lemmas service_defs = team_create_def team_join_def team_leave_def team_remove_def
  team_rotateInvite_def team_transfer_def participation_register_def participation_withdraw_def
  participation_review_def participation_assignDivision_def Let_def

lemma serve_acts: "acts m env actor db (snd (serve m u sv env actor call (s, db)))"
proof (cases call)
  case (CallVerifyFlag call' input)
  then show ?thesis
    using verifyFlag_acts [of "call'\<lparr>fc_meanwhile := id, fc_tx := env\<rparr>"] by simp
qed (simp_all add: service_defs correction_acts adjustment_acts clue_review_acts acts_by)

section \<open>Properties\<close>

text \<open>
  C29: The services refine the repositories: whatever calls clients make, the database they leave is
  that of a history of repository transactions, each made by the subject of one of the calls and
  within that subject's capabilities; so the invariant of the system holds after them.
\<close>

theorem services_refine:
  assumes "run_services m u sv calls (s, db) = (s', db')"
  shows "\<exists>xs. db' = run_history m xs db
    \<and> (\<forall>(env, x)\<in>set xs. \<exists>actor call. (env, actor, call) \<in> set calls \<and> authorised actor x)
    \<and> (system_inv db \<longrightarrow> system_inv db')"
proof -
  have "\<exists>xs. db' = run_history m xs db
    \<and> (\<forall>(env, x)\<in>set xs. \<exists>actor call. (env, actor, call) \<in> set calls \<and> authorised actor x)"
    using assms
  proof (induction calls arbitrary: s db)
    case Nil
    then show ?case by (intro exI [of _ "[]"]) simp
  next
    case (Cons c calls)
    obtain env actor call where c: "c = (env, actor, call)" by (cases c)
    obtain s1 db1 where 1: "serve m u sv env actor call (s, db) = (s1, db1)" by (cases "serve m u sv env actor call (s, db)")
    with Cons.prems c obtain xs where xs: "db' = run_history m xs db1"
      "\<forall>(env, x)\<in>set xs. \<exists>actor call. (env, actor, call) \<in> set calls \<and> authorised actor x"
      using Cons.IH [of s1 db1] by auto
    have "acts m env actor db db1" using serve_acts [of m env actor db u sv call s] 1 by simp
    then consider "db1 = db" | x where "authorised actor x" "db1 = execute m env x db"
      by (auto simp: acts_def)
    then show ?case
    proof cases
      case 1
      with xs show ?thesis by (intro exI [of _ xs]) (fastforce simp: c)
    next
      case 2
      with xs show ?thesis by (intro exI [of _ "(env, x) # xs"]) (fastforce simp: c)
    qed
  qed
  then show ?thesis using system.history_keeps by blast
qed

end
