(* ===== verification/Scoreboard_Builder.thy ===== *)
theory Scoreboard_Builder
  imports Replay_Invariance
begin

text \<open>
  \<open>server/domains/scoreboards/builder.ts\<close>: the read model of a scoreboard, overall or of one
  division, from a replay. The messages of \<open>ScoreboardBuildInputError\<close> are the constructors of
  \<open>build_error\<close>.
\<close>

section \<open>The read model\<close>

datatype scoreboard_scope = Overall | Division uuid

record scoreboard_challenge_column =
  sc_challengeId :: uuid
  sc_officialSolveCount :: int
  sc_currentPoints :: int
  sc_firstSolveParticipationId :: "uuid option"

record scoreboard_row =
  sr_rank :: nat
  sr_participationId :: uuid
  sr_teamId :: uuid
  sr_teamName :: string
  sr_divisionId :: "uuid option"
  sr_totalPoints :: int
  sr_solvePoints :: int
  sr_adjustmentPoints :: int
  sr_officialSolveCount :: int
  sr_lastScoringAt :: "iso_text option"
  sr_solves :: "replayed_solve list"

record scoreboard_read_model =
  rm_scope :: scoreboard_scope
  rm_scopeKey :: string
  rm_challenges :: "scoreboard_challenge_column list"
  rm_rows :: "scoreboard_row list"

datatype build_error =
    BlankDivision
  | DuplicateParticipation uuid
  | InconsistentSolves uuid
  | UnknownSolvedChallenge uuid
  | DuplicateChallengeSolves uuid

section \<open>Building\<close>

definition scopeKeyFor :: "scoreboard_scope \<Rightarrow> string" where
  "scopeKeyFor scope = (case scope of Overall \<Rightarrow> ''overall'' | Division d \<Rightarrow> d)"

definition in_scope :: "scoreboard_scope \<Rightarrow> replayed_participation_score \<Rightarrow> bool" where
  "in_scope scope score \<longleftrightarrow> ps_status score = Accepted
     \<and> (case scope of Overall \<Rightarrow> True | Division d \<Rightarrow> ps_divisionId score = Some d)"

lemma in_scope_simps:
  "in_scope Overall = (\<lambda>s. ps_status s = Accepted)"
  "in_scope (Division d) = (\<lambda>s. ps_status s = Accepted \<and> ps_divisionId s = Some d)"
  by (auto simp: in_scope_def)

text \<open>The filter callback, with the set of participations it has seen.\<close>

fun candidates_from ::
  "scoreboard_scope \<Rightarrow> uuid set \<Rightarrow> replayed_participation_score list
    \<Rightarrow> build_error + replayed_participation_score list" where
  "candidates_from scope seen [] = Inr []"
| "candidates_from scope seen (score # scores) =
     (if ps_participationId score \<in> seen then Inl (DuplicateParticipation (ps_participationId score))
      else ebind (candidates_from scope (insert (ps_participationId score) seen) scores) (\<lambda>rest.
        Inr (if in_scope scope score then score # rest else rest)))"

fun validate_solves_from :: "uuid \<Rightarrow> uuid set \<Rightarrow> uuid set \<Rightarrow> replayed_solve list \<Rightarrow> build_error + unit" where
  "validate_solves_from p known_ids solved [] = Inr ()"
| "validate_solves_from p known_ids solved (s # ss) =
     (if rv_challengeId s \<notin> known_ids then Inl (UnknownSolvedChallenge p)
      else if rv_challengeId s \<in> solved then Inl (DuplicateChallengeSolves p)
      else validate_solves_from p known_ids (insert (rv_challengeId s) solved) ss)"

definition validateSolves :: "uuid set \<Rightarrow> replayed_participation_score \<Rightarrow> unit \<Rightarrow> build_error + unit" where
  "validateSolves known_ids score _ =
     (if int (length (ps_solves score)) \<noteq> ps_officialSolveCount score
      then Inl (InconsistentSolves (ps_participationId score))
      else validate_solves_from (ps_participationId score) known_ids {} (ps_solves score))"

definition scoreboard_row_of :: "replayed_participation_score \<Rightarrow> nat \<Rightarrow> scoreboard_row" where
  "scoreboard_row_of score index = \<lparr>sr_rank = index + 1,
     sr_participationId = ps_participationId score, sr_teamId = ps_teamId score,
     sr_teamName = ps_teamName score, sr_divisionId = ps_divisionId score,
     sr_totalPoints = ps_totalPoints score, sr_solvePoints = ps_solvePoints score,
     sr_adjustmentPoints = ps_adjustmentPoints score,
     sr_officialSolveCount = ps_officialSolveCount score,
     sr_lastScoringAt = ps_lastScoringAt score, sr_solves = ps_solves score\<rparr>"

definition challenge_column :: "replayed_challenge_score \<Rightarrow> scoreboard_challenge_column" where
  "challenge_column c = \<lparr>sc_challengeId = cs_challengeId c,
     sc_officialSolveCount = cs_officialSolveCount c, sc_currentPoints = cs_currentPoints c,
     sc_firstSolveParticipationId = map_option fs_participationId (cs_firstSolve c)\<rparr>"

definition build ::
  "contest_scoring_replay \<Rightarrow> scoreboard_scope \<Rightarrow> build_error + scoreboard_read_model" where
  "build replay scope =
     (if (case scope of Overall \<Rightarrow> False | Division d \<Rightarrow> js_trim d = '''') then Inl BlankDivision
      else ebind (candidates_from scope {} (r_participationScores replay)) (\<lambda>candidates.
      ebind (efold (validateSolves (cs_challengeId ` set (r_challengeScores replay))) candidates ()) (\<lambda>_.
      let ranked = toSorted compareReplayedParticipationScores candidates in
      Inr \<lparr>rm_scope = scope, rm_scopeKey = scopeKeyFor scope,
           rm_challenges = map challenge_column (toSorted (\<lambda>a b.
             localeCompare (cs_challengeId a) (cs_challengeId b)) (r_challengeScores replay)),
           rm_rows = map2 scoreboard_row_of ranked [0..<length ranked]\<rparr>)))"

section \<open>What building does\<close>

lemma candidates_from_Inr:
  "candidates_from scope seen scores = Inr cs \<longleftrightarrow> distinct (map ps_participationId scores)
     \<and> ps_participationId ` set scores \<inter> seen = {} \<and> cs = filter (in_scope scope) scores"
  by (induction scores arbitrary: seen cs) (auto simp: ebind_Inr_iff)

lemma validate_solves_from_Inr:
  "validate_solves_from p K solved ss = Inr u \<longleftrightarrow> distinct (map rv_challengeId ss)
     \<and> rv_challengeId ` set ss \<subseteq> K \<and> rv_challengeId ` set ss \<inter> solved = {}"
  by (induction ss arbitrary: solved) auto

definition summary_ok :: "uuid set \<Rightarrow> replayed_participation_score \<Rightarrow> bool" where
  "summary_ok K s \<longleftrightarrow> int (length (ps_solves s)) = ps_officialSolveCount s
     \<and> distinct (map rv_challengeId (ps_solves s)) \<and> rv_challengeId ` set (ps_solves s) \<subseteq> K"

lemma validate_all_Inr: "efold (validateSolves K) cs u = Inr u' \<longleftrightarrow> list_all (summary_ok K) cs"
proof (induction cs arbitrary: u)
  case (Cons c cs)
  have "validateSolves K c u = Inr w \<longleftrightarrow> summary_ok K c" for w
    by (auto simp: validateSolves_def validate_solves_from_Inr summary_ok_def)
  with Cons.IH show ?case by (cases "validateSolves K c u") auto
qed simp

text \<open>The rows of a scope, before they are numbered.\<close>

definition ranked_scores ::
  "contest_scoring_replay \<Rightarrow> scoreboard_scope \<Rightarrow> replayed_participation_score list" where
  "ranked_scores replay scope = sort_key rank_key (filter (in_scope scope) (r_participationScores replay))"

lemma build_Inr_iff:
  "build replay scope = Inr board \<longleftrightarrow> (\<forall>d. scope = Division d \<longrightarrow> js_trim d \<noteq> '''')
     \<and> distinct (map ps_participationId (r_participationScores replay))
     \<and> list_all (summary_ok (cs_challengeId ` set (r_challengeScores replay))) (ranked_scores replay scope)
     \<and> board = \<lparr>rm_scope = scope, rm_scopeKey = scopeKeyFor scope,
          rm_challenges = map challenge_column (toSorted (\<lambda>a b.
            localeCompare (cs_challengeId a) (cs_challengeId b)) (r_challengeScores replay)),
          rm_rows = map2 scoreboard_row_of (ranked_scores replay scope)
            [0..<length (ranked_scores replay scope)]\<rparr>"
proof -
  have "toSorted compareReplayedParticipationScores cs = sort_key rank_key cs" for cs
    by (rule ranking.toSorted_sort_key) simp
  moreover have "list_all P (sort_key f xs) = list_all P xs"
    for P f and xs :: "replayed_participation_score list" by (simp add: list_all_iff)
  ultimately show ?thesis
    by (auto simp: build_def ebind_Inr_iff candidates_from_Inr validate_all_Inr Let_def ranked_scores_def
        split: scoreboard_scope.splits)
qed

text \<open>Every replay that succeeds can be built: its summaries are consistent.\<close>

lemma replay_summary_ok:
  assumes "replayContestScoring m facts = Inr r" and "s \<in> set (r_participationScores r)"
  shows "summary_ok (cs_challengeId ` set (r_challengeScores r)) s"
proof -
  note h = replay_InrD [OF assms(1)]
  obtain p where score: "participation_score (final_accumulator (challengePoints_of (r_challengeScores r)) facts p) = Inr s"
    by (rule replay_score_origin [OF h assms(2)])
  let ?own = "solves_of_participation facts (rp_id p)"
  have own: "ac_solves (final_accumulator (challengePoints_of (r_challengeScores r)) facts p) = ?own"
    by (simp add: final_accumulator_def fold_add_solve fold_add_adjustment fresh_accumulator_def)
  have solves: "list_all2 (\<lambda>v x. replayed_solve_of v = Inr x) (toSorted compareSolvesByChallenge ?own) (ps_solves s)"
    using score by (auto simp: participation_score_def ebind_Inr_iff emap_Inr_iff own)
  then have ids: "map rv_challengeId (ps_solves s) = map sv_challengeId (toSorted compareSolvesByChallenge ?own)"
    by (rule list_all2_map_eq) (auto simp: replayed_solve_of_def ebind_Inr_iff)
  have count: "int (length (ps_solves s)) = ps_officialSolveCount s"
    using list_all2_lengthD [OF solves] arg_cong [OF mset_own_solves, of size facts "rp_id p"]
    by (simp add: participation_score_Inr(4) [OF score] final_accumulator_fields(2))
  have wf: "facts_wf facts" using h by (simp add: replay_holds_def)
  then have "distinct (map solve_pair ?own)"
    by (simp add: facts_wf_def solves_of_participation_def distinct_map_filter_by)
  moreover have "\<forall>v\<in>set ?own. sv_participationId v = rp_id p" by (simp add: solves_of_participation_def)
  ultimately have "distinct (map sv_challengeId ?own)"
    by (auto simp: distinct_map inj_on_def solve_pair_def)
  moreover have "sv_challengeId ` set ?own \<subseteq> cs_challengeId ` set (r_challengeScores r)"
  proof -
    have "map cs_challengeId (r_challengeScores r)
        = map rc_id (toSorted (\<lambda>a b. localeCompare (rc_id a) (rc_id b)) (f_challenges facts))"
    proof (rule list_all2_map_eq)
      show "list_all2 (\<lambda>c x. score_challenge m (solves_of_challenge facts) c = Inr x)
          (toSorted (\<lambda>a b. localeCompare (rc_id a) (rc_id b)) (f_challenges facts)) (r_challengeScores r)"
        using h by (simp add: replay_holds_def emap_Inr_iff)
    qed (rule score_challenge_Inr(1))
    then have "cs_challengeId ` set (r_challengeScores r) = rc_id ` set (f_challenges facts)"
      by (metis set_map set_toSorted)
    moreover have "\<forall>v\<in>set ?own. challenge_map facts (sv_challengeId v) \<noteq> None"
      using wf by (auto simp: facts_wf_def solve_wf_def solves_of_participation_def)
    ultimately show ?thesis by (auto simp: challenge_map_def map_of_ident_None)
  qed
  moreover have "rv_challengeId ` set (ps_solves s) = sv_challengeId ` set ?own"
    unfolding set_map [symmetric] ids by simp
  ultimately show ?thesis using count ids by (simp add: summary_ok_def)
qed

lemma replay_ids_distinct:
  assumes "replayContestScoring m facts = Inr r"
  shows "distinct (map ps_participationId (r_participationScores r))"
  using replay_score_ids [OF replay_InrD [OF assms]] replay_InrD [OF assms]
  by (metis facts_wf_def ids_unique_def mset_eq_imp_distinct_iff replay_holds_def)

section \<open>Properties\<close>

text \<open>
  Building never fails on a replay: of the errors of the builder only the blank division remains.
\<close>

theorem build_total:
  assumes "replayContestScoring m facts = Inr r" and "\<forall>d. scope = Division d \<longrightarrow> js_trim d \<noteq> ''''"
  shows "\<exists>board. build r scope = Inr board"
  using assms(2) replay_ids_distinct [OF assms(1)] replay_summary_ok [OF assms(1)]
  by (auto simp: build_Inr_iff list_all_iff ranked_scores_def)

text \<open>
  C32: The board of a division is the overall board restricted to it: the same rows in the same
  order, renumbered from 1, and the same challenge columns.
\<close>

theorem division_board_restricts:
  assumes "build r Overall = Inr board" and "build r (Division d) = Inr sub"
  shows "map (\<lambda>row. row\<lparr>sr_rank := 0\<rparr>) (rm_rows sub)
      = map (\<lambda>row. row\<lparr>sr_rank := 0\<rparr>) (filter (\<lambda>row. sr_divisionId row = Some d) (rm_rows board))
    \<and> map sr_rank (rm_rows sub) = [1..<Suc (length (rm_rows sub))]
    \<and> rm_challenges sub = rm_challenges board"
proof -
  let ?all = "ranked_scores r Overall" and ?sub = "ranked_scores r (Division d)"
  have sub: "?sub = filter (\<lambda>x. ps_divisionId x = Some d) ?all"
    by (simp add: ranked_scores_def filter_sort in_scope_simps conj_commute)
  have rows: "rm_rows board = map2 scoreboard_row_of ?all [0..<length ?all]"
    "rm_rows sub = map2 scoreboard_row_of ?sub [0..<length ?sub]"
    "rm_challenges sub = rm_challenges board"
    using assms by (auto simp: build_Inr_iff)
  have unranked: "map (\<lambda>row. row\<lparr>sr_rank := 0\<rparr>) (map2 scoreboard_row_of xs [k..<k + length xs])
      = map (\<lambda>x. (scoreboard_row_of x 0)\<lparr>sr_rank := 0\<rparr>) xs" for xs k
    by (rule nth_equalityI) (simp_all add: scoreboard_row_of_def)
  have restricted: "map (\<lambda>row. row\<lparr>sr_rank := 0\<rparr>)
      (filter (\<lambda>row. sr_divisionId row = Some d) (map2 scoreboard_row_of xs [k..<k + length xs]))
    = map (\<lambda>x. (scoreboard_row_of x 0)\<lparr>sr_rank := 0\<rparr>) (filter (\<lambda>x. ps_divisionId x = Some d) xs)" for xs k
  proof (induction xs arbitrary: k)
    case (Cons x xs)
    from Cons [of "Suc k"] show ?case
      by (simp add: upt_conv_Cons scoreboard_row_of_def del: upt_Suc)
  qed simp
  have "map sr_rank (rm_rows sub) = [1..<Suc (length (rm_rows sub))]"
    unfolding rows(2) by (rule nth_equalityI) (simp_all add: scoreboard_row_of_def del: upt_Suc)
  then show ?thesis
    using unranked [of ?sub 0] restricted [of ?all 0] by (simp add: rows sub)
qed

text \<open>The overall board ranks as the replay's own summary does, row by row.\<close>

theorem board_agrees_with_summary:
  assumes "replayContestScoring m facts = Inr r" and "build r Overall = Inr board"
  shows "map (\<lambda>row. \<lparr>rk_rank = sr_rank row, rk_participationId = sr_participationId row,
      rk_teamId = sr_teamId row, rk_totalPoints = sr_totalPoints row,
      rk_lastScoringAt = sr_lastScoringAt row\<rparr>) (rm_rows board) = r_rankingSummary r"
proof -
  have "ranked_scores r Overall
      = toSorted compareReplayedParticipationScores (filter (\<lambda>s. ps_status s = Accepted) (r_participationScores r))"
    by (simp add: ranked_scores_def in_scope_simps ranking.toSorted_sort_key)
  moreover have "r_rankingSummary r = rankingSummary (r_participationScores r)"
    using replay_InrD [OF assms(1)] by (simp add: replay_holds_def)
  ultimately show ?thesis using assms(2)
    by (auto simp: build_Inr_iff rankingSummary_def Let_def map_map2_index rank_row_def scoreboard_row_of_def
        intro!: nth_equalityI)
qed

end
