(* ===== verification/Scoreboard_View.thy ===== *)
theory Scoreboard_View
  imports Scoreboard_Builder Scoring_Facts
begin

text \<open>
  \<open>server/domains/scoreboards/view-service.ts\<close> over
  \<open>server/infrastructure/db/scoreboard-view-repository.ts\<close>: which board a reader gets. Every
  repository call is one statement; what other requests commit before it is taken from a queue of
  the world, so that a read is modelled under any interleaving. The single flight of a process
  (\<open>ScoreboardBuildCoordinator\<close>) is the theory \<open>Build_Coordinator\<close>: here every build runs.
\<close>

section \<open>Snapshots\<close>

text \<open>A stored payload is a read model, or (\<open>None\<close>) a JSON value that is not of its shape.\<close>

type_synonym snapshot_table = "scoreboard_read_model option snapshot_row list"

record scoreboard_contest_state =
  st_contestId :: uuid
  st_publicationStatus :: contest_publication_status
  st_visibility :: contest_visibility
  st_freezeAt :: "millis option"
  st_endAt :: millis
  st_currentVersion :: int

record scoreboard_snapshot_record =
  ssr_contestId :: uuid
  ssr_view :: scoreboard_view
  ssr_scope :: scoreboard_scope
  ssr_scopeKey :: string
  ssr_version :: int
  ssr_board :: scoreboard_read_model
  ssr_builtAt :: millis

datatype view_error_code = BoardNotFound | InternalForbidden | ScopeInvalid | TimeInvalid

datatype view_error =
    ScoreboardViewServiceError view_error_code
  | ScoreboardContestNotFound
  | ScoreboardSnapshotConflict
  | SnapshotRangeError                        \<comment> \<open>a version or a build time out of range\<close>
  | ScoreboardBuildInput build_error
  | ReplayFailed replay_service_error
  | SnapshotDatabaseError pg_error

section \<open>The repository\<close>

definition safeVersion :: "int \<Rightarrow> view_error + int" where
  "safeVersion v = (if \<not> safe_integer v \<or> v < 0 then Inl SnapshotRangeError else Inr v)"

definition readContestState :: "database \<Rightarrow> uuid \<Rightarrow> view_error + scoreboard_contest_state" where
  "readContestState db contestId =
     (case find (\<lambda>c. co_id c = contestId) (db_contests db) of
        None \<Rightarrow> Inl ScoreboardContestNotFound
      | Some c \<Rightarrow> ebind (safeVersion (case find (\<lambda>v. bv_contest_id v = contestId)
            (db_scoreboard_versions db) of None \<Rightarrow> 0 | Some v \<Rightarrow> bv_version v)) (\<lambda>version.
          Inr \<lparr>st_contestId = co_id c, st_publicationStatus = co_publication_status c,
               st_visibility = co_visibility c, st_freezeAt = co_scoreboard_freeze_at c,
               st_endAt = co_end_at c, st_currentVersion = version\<rparr>))"

definition divisionExists :: "database \<Rightarrow> uuid \<Rightarrow> uuid \<Rightarrow> bool" where
  "divisionExists db contestId divisionId \<longleftrightarrow>
     length (filter (\<lambda>d. di_contest_id d = contestId \<and> di_id d = divisionId) (db_divisions db)) = 1"

definition scope_of_row :: "'p snapshot_row \<Rightarrow> scoreboard_scope" where
  "scope_of_row row = (case sn_division_id row of None \<Rightarrow> Overall | Some d \<Rightarrow> Division d)"

definition snapshotRecord :: "scoreboard_read_model option snapshot_row \<Rightarrow> view_error + scoreboard_snapshot_record" where
  "snapshotRecord row =
     (case sn_payload row of None \<Rightarrow> Inl ScoreboardSnapshotConflict
      | Some board \<Rightarrow>
          if rm_scopeKey board \<noteq> sn_scope_key row \<or> rm_scope board \<noteq> scope_of_row row
          then Inl ScoreboardSnapshotConflict
          else (case sn_built_at row of InvalidDate \<Rightarrow> Inl SnapshotRangeError
            | Date t \<Rightarrow> ebind (safeVersion (sn_version row)) (\<lambda>version.
                Inr \<lparr>ssr_contestId = sn_contest_id row, ssr_view = sn_view row,
                     ssr_scope = scope_of_row row, ssr_scopeKey = sn_scope_key row,
                     ssr_version = version, ssr_board = board, ssr_builtAt = t\<rparr>)))"

definition of_key :: "uuid \<Rightarrow> scoreboard_view \<Rightarrow> string \<Rightarrow> 'p snapshot_row \<Rightarrow> bool" where
  "of_key contestId view key row \<longleftrightarrow> sn_contest_id row = contestId \<and> sn_view row = view
     \<and> sn_scope_key row = key"

text \<open>\<open>ORDER BY version DESC LIMIT 1\<close>\<close>

definition latest_row :: "uuid \<Rightarrow> scoreboard_view \<Rightarrow> string \<Rightarrow> 'p snapshot_row list \<Rightarrow> 'p snapshot_row option" where
  "latest_row contestId view key rows =
     (case sort_key (\<lambda>r. - sn_version r) (filter (of_key contestId view key) rows) of
        [] \<Rightarrow> None | r # _ \<Rightarrow> Some r)"

definition exact_row ::
  "uuid \<Rightarrow> scoreboard_view \<Rightarrow> string \<Rightarrow> int \<Rightarrow> 'p snapshot_row list \<Rightarrow> 'p snapshot_row option" where
  "exact_row contestId view key version rows =
     find (\<lambda>r. of_key contestId view key r \<and> sn_version r = version) rows"

definition record_of_row ::
  "scoreboard_read_model option snapshot_row option \<Rightarrow> view_error + scoreboard_snapshot_record option" where
  "record_of_row row = (case row of None \<Rightarrow> Inr None | Some r \<Rightarrow> ebind (snapshotRecord r) (\<lambda>s. Inr (Some s)))"

definition readLatestSnapshot ::
  "snapshot_table \<Rightarrow> uuid \<Rightarrow> scoreboard_view \<Rightarrow> string \<Rightarrow> view_error + scoreboard_snapshot_record option" where
  "readLatestSnapshot rows contestId view key = record_of_row (latest_row contestId view key rows)"

definition readLatestSnapshotVersion ::
  "snapshot_table \<Rightarrow> uuid \<Rightarrow> scoreboard_view \<Rightarrow> string \<Rightarrow> view_error + int option" where
  "readLatestSnapshotVersion rows contestId view key =
     (case latest_row contestId view key rows of None \<Rightarrow> Inr None
      | Some r \<Rightarrow> ebind (safeVersion (sn_version r)) (\<lambda>v. Inr (Some v)))"

definition readSnapshot ::
  "snapshot_table \<Rightarrow> uuid \<Rightarrow> scoreboard_view \<Rightarrow> string \<Rightarrow> int
    \<Rightarrow> view_error + scoreboard_snapshot_record option" where
  "readSnapshot rows contestId view key version = record_of_row (exact_row contestId view key version rows)"

definition row_of_record :: "uuid \<Rightarrow> scoreboard_snapshot_record \<Rightarrow> scoreboard_read_model option snapshot_row" where
  "row_of_record ident s = \<lparr>sn_id = ident, sn_contest_id = ssr_contestId s, sn_view = ssr_view s,
     sn_division_id = (case ssr_scope s of Overall \<Rightarrow> None | Division d \<Rightarrow> Some d),
     sn_scope_key = ssr_scopeKey s, sn_version = ssr_version s, sn_payload = Some (ssr_board s),
     sn_built_at = Date (ssr_builtAt s)\<rparr>"

definition snapshot_checks ::
  "database \<Rightarrow> snapshot_table \<Rightarrow> scoreboard_read_model option snapshot_row \<Rightarrow> (pg_error \<times> bool) list" where
  "snapshot_checks db rows r = [
      (CheckViolation ''scoreboard_snapshots_scope_key'',
        sn_scope_key r = (case sn_division_id r of None \<Rightarrow> ''overall'' | Some d \<Rightarrow> d)),
      (CheckViolation ''scoreboard_snapshots_version_nonnegative'', 0 \<le> sn_version r),
      (UniqueViolation ''scoreboard_snapshots_pkey'', \<not> known sn_id rows (sn_id r)),
      (ForeignKeyViolation ''scoreboard_snapshots_contest_id'', known co_id (db_contests db) (sn_contest_id r)),
      (ForeignKeyViolation ''scoreboard_snapshots_contest_division_fk'', (case sn_division_id r of None \<Rightarrow> True
        | Some d \<Rightarrow> known (\<lambda>d. (di_contest_id d, di_id d)) (db_divisions db) (sn_contest_id r, d)))]"

text \<open>The insertion with \<open>ON CONFLICT DO NOTHING\<close>: the inserted row, if any, and the table.\<close>

definition insert_snapshot ::
  "uuid \<Rightarrow> database \<Rightarrow> scoreboard_snapshot_record \<Rightarrow> snapshot_table \<Rightarrow> view_error
    + (scoreboard_read_model option snapshot_row option \<times> snapshot_table)" where
  "insert_snapshot ident db s rows =
     (if exact_row (ssr_contestId s) (ssr_view s) (ssr_scopeKey s) (ssr_version s) rows \<noteq> None
      then Inr (None, rows)
      else ebind (map_error SnapshotDatabaseError (constraints (snapshot_checks db rows (row_of_record ident s))))
        (\<lambda>_. Inr (Some (row_of_record ident s), rows @ [row_of_record ident s])))"

section \<open>Statements in a world with other requests\<close>

record world =
  wd_db :: database
  wd_snapshots :: snapshot_table
  wd_others :: "(database \<times> snapshot_table \<Rightarrow> database \<times> snapshot_table) list"
  wd_uuid :: "nat \<Rightarrow> uuid"                \<comment> \<open>the identifiers of the rows still to be inserted\<close>

type_synonym 'a action = "world \<Rightarrow> (view_error + 'a) \<times> world"

definition others_commit :: "world \<Rightarrow> world" where
  "others_commit w = (case wd_others w of [] \<Rightarrow> w
     | f # fs \<Rightarrow> (case f (wd_db w, wd_snapshots w) of (db, rows) \<Rightarrow>
         w\<lparr>wd_db := db, wd_snapshots := rows, wd_others := fs\<rparr>))"

definition act :: "'a \<Rightarrow> 'a action" where
  "act a = (\<lambda>w. (Inr a, w))"

definition fail :: "view_error \<Rightarrow> 'a action" where
  "fail e = (\<lambda>w. (Inl e, w))"

definition abind :: "'a action \<Rightarrow> ('a \<Rightarrow> 'b action) \<Rightarrow> 'b action" where
  "abind x f = (\<lambda>w. case x w of (Inl e, w') \<Rightarrow> (Inl e, w') | (Inr a, w') \<Rightarrow> f a w')"

text \<open>\<open>try ... catch\<close>\<close>

definition catch_with :: "'a action \<Rightarrow> (view_error \<Rightarrow> 'a action) \<Rightarrow> 'a action" where
  "catch_with x h = (\<lambda>w. case x w of (Inl e, w') \<Rightarrow> h e w' | (Inr a, w') \<Rightarrow> (Inr a, w'))"

text \<open>One statement that reads, after what others committed before it.\<close>

definition query :: "(database \<Rightarrow> snapshot_table \<Rightarrow> view_error + 'a) \<Rightarrow> 'a action" where
  "query q = (\<lambda>w. let w' = others_commit w in (q (wd_db w') (wd_snapshots w'), w'))"

definition insert_statement ::
  "scoreboard_snapshot_record \<Rightarrow> scoreboard_read_model option snapshot_row option action" where
  "insert_statement s = (\<lambda>w. let w' = others_commit w in
     case insert_snapshot (wd_uuid w' 0) (wd_db w') s (wd_snapshots w') of
       Inl e \<Rightarrow> (Inl e, w')
     | Inr (row, rows) \<Rightarrow> (Inr row, w'\<lparr>wd_snapshots := rows, wd_uuid := wd_uuid w' \<circ> Suc\<rparr>))"

definition writeSnapshot :: "scoreboard_snapshot_record \<Rightarrow> scoreboard_snapshot_record action" where
  "writeSnapshot s = abind (insert_statement s) (\<lambda>inserted.
     abind (case inserted of
         Some row \<Rightarrow> (\<lambda>w. (ebind (snapshotRecord row) (\<lambda>r. Inr (Some r)), w))
       | None \<Rightarrow> query (\<lambda>db rows. readSnapshot rows (ssr_contestId s) (ssr_view s) (ssr_scopeKey s) (ssr_version s)))
     (\<lambda>stored. case stored of None \<Rightarrow> fail ScoreboardSnapshotConflict
       | Some r \<Rightarrow> if ssr_board r \<noteq> ssr_board s then fail ScoreboardSnapshotConflict else act r))"

section \<open>The service\<close>

datatype viewer_role = ViewerUser | ViewerOrganizer | ViewerAdmin
datatype projection_state = Live | Frozen | Settled
datatype projection_freshness = Current | Stale

record read_scoreboard_input =
  ri_contestId :: uuid
  ri_view :: scoreboard_view
  ri_viewerRole :: viewer_role
  ri_scope :: scoreboard_scope

record scoreboard_projection =
  pj_contestId :: uuid
  pj_view :: scoreboard_view
  pj_state :: projection_state
  pj_freshness :: projection_freshness
  pj_version :: int
  pj_frozenAt :: "iso_text option"
  pj_builtAt :: iso_text
  pj_board :: scoreboard_read_model

definition projection_with ::
  "projection_freshness \<Rightarrow> scoreboard_snapshot_record \<Rightarrow> projection_state \<Rightarrow> millis option
    \<Rightarrow> scoreboard_projection" where
  "projection_with freshness s state freezeAt = \<lparr>pj_contestId = ssr_contestId s, pj_view = ssr_view s,
     pj_state = state, pj_freshness = freshness, pj_version = ssr_version s,
     pj_frozenAt = (if state = Frozen then map_option Iso freezeAt else None),
     pj_builtAt = Iso (ssr_builtAt s), pj_board = ssr_board s\<rparr>"

abbreviation projection where
  "projection \<equiv> projection_with Current"

record materialize_input =
  mi_contest :: scoreboard_contest_state
  mi_scope :: scoreboard_scope
  mi_view :: scoreboard_view
  mi_state :: projection_state
  mi_version :: "int option"
  mi_now :: millis
  mi_factsBefore :: "millis option"
  mi_persist :: bool
  mi_preferExisting :: bool
  mi_preferLatestExisting :: bool

definition replay_source :: "js_math \<Rightarrow> uuid \<Rightarrow> millis option \<Rightarrow> contest_scoring_replay action" where
  "replay_source m contestId factsBefore = query (\<lambda>db rows.
     map_error ReplayFailed (replay_contest m db contestId (map_option Date factsBefore)))"

definition generated ::
  "materialize_input \<Rightarrow> contest_scoring_replay \<Rightarrow> scoreboard_read_model \<Rightarrow> scoreboard_snapshot_record" where
  "generated input replay board = \<lparr>ssr_contestId = st_contestId (mi_contest input),
     ssr_view = mi_view input, ssr_scope = mi_scope input, ssr_scopeKey = rm_scopeKey board,
     ssr_version = (case mi_version input of Some v \<Rightarrow> v | None \<Rightarrow> r_factVersion replay),
     ssr_board = board, ssr_builtAt = mi_now input\<rparr>"

text \<open>From the replay on.\<close>

definition rebuild :: "js_math \<Rightarrow> materialize_input \<Rightarrow> scoreboard_projection action" where
  "rebuild m input =
     abind (replay_source m (st_contestId (mi_contest input)) (mi_factsBefore input)) (\<lambda>replay.
     if mi_version input \<noteq> None \<and> mi_version input \<noteq> Some (r_factVersion replay)
     then fail ScoreboardSnapshotConflict
     else (case build replay (mi_scope input) of Inl e \<Rightarrow> fail (ScoreboardBuildInput e)
       | Inr board \<Rightarrow>
         abind (if mi_persist input then writeSnapshot (generated input replay board)
                else act (generated input replay board)) (\<lambda>s.
         act (projection s (mi_state input) (st_freezeAt (mi_contest input))))))"

definition materialize :: "js_math \<Rightarrow> materialize_input \<Rightarrow> scoreboard_projection action" where
  "materialize m input =
     (let contestId = st_contestId (mi_contest input); key = scopeKeyFor (mi_scope input);
          found = (\<lambda>s. projection s (mi_state input) (st_freezeAt (mi_contest input))) in
      abind (if mi_preferLatestExisting input
             then query (\<lambda>db rows. readLatestSnapshot rows contestId (mi_view input) key)
             else act None) (\<lambda>latest.
      case latest of Some s \<Rightarrow> act (found s) | None \<Rightarrow>
      abind (if mi_preferExisting input \<or> mi_state input = Settled
             then (case mi_version input of None \<Rightarrow> fail ScoreboardSnapshotConflict
               | Some v \<Rightarrow> query (\<lambda>db rows. readSnapshot rows contestId (mi_view input) key v))
             else act None) (\<lambda>existing.
      case existing of Some s \<Rightarrow> act (found s) | None \<Rightarrow> rebuild m input)))"

definition readStoredProjection ::
  "scoreboard_contest_state \<Rightarrow> scoreboard_scope \<Rightarrow> int \<Rightarrow> projection_state \<Rightarrow> scoreboard_projection option action" where
  "readStoredProjection contest scope version state =
     abind (query (\<lambda>db rows. readSnapshot rows (st_contestId contest) PublicView (scopeKeyFor scope) version))
       (\<lambda>stored. act (map_option (\<lambda>s. projection s state (st_freezeAt contest)) stored))"

definition readStaleProjection ::
  "scoreboard_contest_state \<Rightarrow> scoreboard_scope \<Rightarrow> projection_state \<Rightarrow> scoreboard_projection option action" where
  "readStaleProjection contest scope state =
     abind (query (\<lambda>db rows. readLatestSnapshot rows (st_contestId contest) PublicView (scopeKeyFor scope)))
       (\<lambda>stored. case stored of None \<Rightarrow> act None
         | Some s \<Rightarrow> if st_currentVersion contest \<le> ssr_version s then act None
             else act (Some (projection_with Stale s state (st_freezeAt contest))))"

definition rebuildOrFallback ::
  "js_math \<Rightarrow> materialize_input \<Rightarrow> int \<Rightarrow> scoreboard_projection action" where
  "rebuildOrFallback m input version =
     abind (readStoredProjection (mi_contest input) (mi_scope input) version (mi_state input)) (\<lambda>winner.
     case winner of Some p \<Rightarrow> act p
     | None \<Rightarrow> catch_with (materialize m input) (\<lambda>e.
         abind (readStaleProjection (mi_contest input) (mi_scope input) (mi_state input)) (\<lambda>stale.
         case stale of Some p \<Rightarrow> act p | None \<Rightarrow> fail e)))"

definition cachedMaterialize ::
  "js_math \<Rightarrow> materialize_input \<Rightarrow> int \<Rightarrow> scoreboard_projection action" where
  "cachedMaterialize m input version =
     abind (readStoredProjection (mi_contest input) (mi_scope input) version (mi_state input)) (\<lambda>stored.
     case stored of Some p \<Rightarrow> act p
     | None \<Rightarrow>
       abind (readStoredProjection (mi_contest input) (mi_scope input) version (mi_state input)) (\<lambda>winner.
       case winner of Some p \<Rightarrow> act p | None \<Rightarrow> rebuildOrFallback m input version))"

definition readLatestFrozen ::
  "scoreboard_contest_state \<Rightarrow> scoreboard_scope \<Rightarrow> scoreboard_projection option action" where
  "readLatestFrozen contest scope =
     abind (query (\<lambda>db rows. readLatestSnapshot rows (st_contestId contest) PublicView (scopeKeyFor scope)))
       (\<lambda>stored. act (map_option (\<lambda>s. projection s Frozen (st_freezeAt contest)) stored))"

definition materialize_of ::
  "scoreboard_contest_state \<Rightarrow> read_scoreboard_input \<Rightarrow> projection_state \<Rightarrow> millis \<Rightarrow> materialize_input" where
  "materialize_of contest input state now_at = \<lparr>mi_contest = contest, mi_scope = ri_scope input,
     mi_view = ri_view input, mi_state = state, mi_version = Some (st_currentVersion contest),
     mi_now = now_at, mi_factsBefore = None, mi_persist = True, mi_preferExisting = False,
     mi_preferLatestExisting = False\<rparr>"

text \<open>The public view between freeze and end.\<close>

definition readFrozen ::
  "js_math \<Rightarrow> scoreboard_contest_state \<Rightarrow> read_scoreboard_input \<Rightarrow> millis \<Rightarrow> millis
    \<Rightarrow> scoreboard_projection action" where
  "readFrozen m contest input freezeAt now_at =
     (let key = scopeKeyFor (ri_scope input); contestId = st_contestId contest in
      abind (query (\<lambda>db rows. readLatestSnapshotVersion rows contestId PublicView key)) (\<lambda>version.
      abind (case version of None \<Rightarrow> act None
        | Some v \<Rightarrow> query (\<lambda>db rows. readSnapshot rows contestId PublicView key v)) (\<lambda>existing.
      case existing of Some s \<Rightarrow> act (projection s Frozen (st_freezeAt contest))
      | None \<Rightarrow>
        abind (readLatestFrozen contest (ri_scope input)) (\<lambda>winner.
        case winner of Some p \<Rightarrow> act p
        | None \<Rightarrow> materialize m ((materialize_of contest input Frozen now_at)
            \<lparr>mi_version := None, mi_factsBefore := Some freezeAt, mi_preferLatestExisting := True\<rparr>)))))"

definition read_permitted :: "scoreboard_contest_state \<Rightarrow> read_scoreboard_input \<Rightarrow> view_error + unit" where
  "read_permitted contest input =
     (if ri_view input = InternalView
      then ensure (ri_viewerRole input = ViewerOrganizer \<or> ri_viewerRole input = ViewerAdmin)
             (ScoreboardViewServiceError InternalForbidden)
      else ensure (\<not> (st_publicationStatus contest = Draft \<or> st_visibility contest \<noteq> PublicContest))
             (ScoreboardViewServiceError BoardNotFound))"

definition lift_result :: "view_error + 'a \<Rightarrow> 'a action" where
  "lift_result r = (\<lambda>w. (r, w))"

definition read_current ::
  "js_math \<Rightarrow> scoreboard_contest_state \<Rightarrow> read_scoreboard_input \<Rightarrow> millis \<Rightarrow> scoreboard_projection action" where
  "read_current m contest input now_at =
     (if ri_view input = InternalView then materialize m (materialize_of contest input Live now_at)
      else if st_publicationStatus contest = Archived \<or> st_endAt contest \<le> now_at
      then cachedMaterialize m (materialize_of contest input Settled now_at) (st_currentVersion contest)
      else (case st_freezeAt contest of
          Some freezeAt \<Rightarrow> if freezeAt \<le> now_at then readFrozen m contest input freezeAt now_at
            else cachedMaterialize m (materialize_of contest input Live now_at) (st_currentVersion contest)
        | None \<Rightarrow> cachedMaterialize m (materialize_of contest input Live now_at) (st_currentVersion contest)))"

definition read_scoreboard ::
  "js_math \<Rightarrow> read_scoreboard_input \<Rightarrow> js_date \<Rightarrow> scoreboard_projection action" where
  "read_scoreboard m input now =
     (case now of InvalidDate \<Rightarrow> fail (ScoreboardViewServiceError TimeInvalid)
      | Date now_at \<Rightarrow>
      abind (query (\<lambda>db rows. map_error (\<lambda>e. if e = ScoreboardContestNotFound
          then ScoreboardViewServiceError BoardNotFound else e) (readContestState db (ri_contestId input))))
        (\<lambda>contest.
      abind (lift_result (read_permitted contest input)) (\<lambda>_.
      abind (case ri_scope input of Overall \<Rightarrow> act ()
        | Division d \<Rightarrow> query (\<lambda>db rows. ensure (divisionExists db (ri_contestId input) d)
            (ScoreboardViewServiceError ScopeInvalid))) (\<lambda>_.
      read_current m contest input now_at))))"

end
