(* ===== verification/Scoreboard_View_Facts.thy ===== *)
theory Scoreboard_View_Facts
  imports Scoreboard_View
begin

text \<open>
  What reading a scoreboard guarantees under any interleaving with other requests, as triples over
  the snapshot table: stored snapshots never change, every board served is a stored one, and hence
  readers of one version see one board.
\<close>

section \<open>The snapshot table\<close>

definition snapshot_key :: "'p snapshot_row \<Rightarrow> uuid \<times> scoreboard_view \<times> string \<times> int" where
  "snapshot_key r = (sn_contest_id r, sn_view r, sn_scope_key r, sn_version r)"

text \<open>The unique index on contest, view, scope key and version.\<close>

definition table_ok :: "'p snapshot_row list \<Rightarrow> bool" where
  "table_ok rows \<longleftrightarrow> distinct (map snapshot_key rows)"

text \<open>Rows are only added, and no key twice.\<close>

definition table_grows :: "'p snapshot_row list \<Rightarrow> 'p snapshot_row list \<Rightarrow> bool" where
  "table_grows rows rows' \<longleftrightarrow> (\<exists>new. rows' = rows @ new) \<and> table_ok rows'"

lemma table_grows_refl: "table_ok rows \<Longrightarrow> table_grows rows rows"
  by (simp add: table_grows_def)

lemma table_grows_trans: "table_grows a b \<Longrightarrow> table_grows b c \<Longrightarrow> table_grows a c"
  by (auto simp: table_grows_def)

lemma table_grows_ok: "table_grows a b \<Longrightarrow> table_ok b"
  by (simp add: table_grows_def)

text \<open>The other requests only add snapshots too.\<close>

definition others_add :: "world \<Rightarrow> bool" where
  "others_add w \<longleftrightarrow> (\<forall>f\<in>set (wd_others w). \<forall>db rows. table_ok rows \<longrightarrow> table_grows rows (snd (f (db, rows))))"

lemma others_commit_grows:
  assumes "others_add w" and "table_ok (wd_snapshots w)"
  shows "table_grows (wd_snapshots w) (wd_snapshots (others_commit w)) \<and> others_add (others_commit w)"
proof (cases "wd_others w")
  case Nil
  with assms show ?thesis by (simp add: others_commit_def table_grows_refl)
next
  case (Cons f fs)
  obtain db rows where f: "f (wd_db w, wd_snapshots w) = (db, rows)" by (cases "f (wd_db w, wd_snapshots w)")
  have "table_grows (wd_snapshots w) (snd (f (wd_db w, wd_snapshots w)))"
    using assms Cons by (auto simp: others_add_def)
  with assms(1) Cons f show ?thesis by (simp add: others_commit_def others_add_def)
qed

lemma exact_row_None:
  "exact_row c v k n rows = None \<longleftrightarrow> (c, v, k, n) \<notin> snapshot_key ` set rows"
  by (auto simp: exact_row_def find_None_iff of_key_def snapshot_key_def)

lemma insert_snapshot_grows:
  assumes "insert_snapshot ident db s rows = Inr (row, rows')" and "table_ok rows"
  shows "table_grows rows rows' \<and> (\<forall>r. row = Some r \<longrightarrow> r \<in> set rows')"
  using assms
  by (auto simp: insert_snapshot_def ebind_Inr_iff exact_row_None table_grows_def table_ok_def
      row_of_record_def snapshot_key_def simp del: constraints.simps split: if_splits)

section \<open>Triples\<close>

text \<open>
  From a table with \<open>P\<close> the action only adds snapshots, and where it returns a value, \<open>Q\<close> holds of it
  and the table.
\<close>

definition triple ::
  "(snapshot_table \<Rightarrow> bool) \<Rightarrow> 'a action \<Rightarrow> ('a \<Rightarrow> snapshot_table \<Rightarrow> bool) \<Rightarrow> bool" where
  "triple P A Q \<longleftrightarrow> (\<forall>w r w'. others_add w \<and> table_ok (wd_snapshots w) \<and> P (wd_snapshots w) \<and> A w = (r, w')
     \<longrightarrow> others_add w' \<and> table_grows (wd_snapshots w) (wd_snapshots w')
       \<and> (\<forall>a. r = Inr a \<longrightarrow> Q a (wd_snapshots w')))"

text \<open>What stays true when snapshots are added.\<close>

definition stable :: "(snapshot_table \<Rightarrow> bool) \<Rightarrow> bool" where
  "stable P \<longleftrightarrow> (\<forall>rows rows'. P rows \<and> table_grows rows rows' \<longrightarrow> P rows')"

named_theorems triples

lemma triple_act [triples]: "(\<And>rows. P rows \<Longrightarrow> Q a rows) \<Longrightarrow> triple P (act a) Q"
  by (auto simp: triple_def act_def table_grows_refl)

lemma triple_fail [triples]: "triple P (fail e) Q"
  by (auto simp: triple_def fail_def table_grows_refl)

lemma triple_lift [triples]: "(\<And>a rows. P rows \<Longrightarrow> r = Inr a \<Longrightarrow> Q a rows) \<Longrightarrow> triple P (lift_result r) Q"
  by (auto simp: triple_def lift_result_def table_grows_refl)

lemma triple_bind:
  assumes "triple P x R" and "\<And>a. triple (R a) (f a) Q"
  shows "triple P (abind x f) Q"
  unfolding triple_def
proof (intro allI impI)
  fix w r w' assume a: "others_add w \<and> table_ok (wd_snapshots w) \<and> P (wd_snapshots w) \<and> abind x f w = (r, w')"
  obtain r1 w1 where x: "x w = (r1, w1)" by (cases "x w")
  with a assms(1) have 1: "others_add w1" "table_grows (wd_snapshots w) (wd_snapshots w1)"
    "\<forall>b. r1 = Inr b \<longrightarrow> R b (wd_snapshots w1)" unfolding triple_def by blast+
  show "others_add w' \<and> table_grows (wd_snapshots w) (wd_snapshots w') \<and> (\<forall>b. r = Inr b \<longrightarrow> Q b (wd_snapshots w'))"
  proof (cases r1)
    case (Inl e)
    with a x 1 show ?thesis by (auto simp: abind_def)
  next
    case (Inr b)
    with a x have "f b w1 = (r, w')" by (simp add: abind_def)
    with assms(2) [of b] 1 Inr table_grows_ok have "others_add w' \<and> table_grows (wd_snapshots w1) (wd_snapshots w')
      \<and> (\<forall>b. r = Inr b \<longrightarrow> Q b (wd_snapshots w'))" unfolding triple_def by blast
    with 1(2) show ?thesis by (blast intro: table_grows_trans)
  qed
qed

lemma triple_catch:
  assumes "triple P x Q" and "\<And>e. triple (\<lambda>_. True) (h e) Q"
  shows "triple P (catch_with x h) Q"
  unfolding triple_def
proof (intro allI impI)
  fix w r w' assume a: "others_add w \<and> table_ok (wd_snapshots w) \<and> P (wd_snapshots w) \<and> catch_with x h w = (r, w')"
  obtain r1 w1 where x: "x w = (r1, w1)" by (cases "x w")
  with a assms(1) have 1: "others_add w1" "table_grows (wd_snapshots w) (wd_snapshots w1)"
    "\<forall>b. r1 = Inr b \<longrightarrow> Q b (wd_snapshots w1)" unfolding triple_def by blast+
  show "others_add w' \<and> table_grows (wd_snapshots w) (wd_snapshots w') \<and> (\<forall>b. r = Inr b \<longrightarrow> Q b (wd_snapshots w'))"
  proof (cases r1)
    case (Inl e)
    with a x have "h e w1 = (r, w')" by (simp add: catch_with_def)
    with assms(2) [of e] 1 table_grows_ok have "others_add w' \<and> table_grows (wd_snapshots w1) (wd_snapshots w')
      \<and> (\<forall>b. r = Inr b \<longrightarrow> Q b (wd_snapshots w'))" unfolding triple_def by blast
    with 1(2) show ?thesis by (blast intro: table_grows_trans)
  next
    case (Inr b)
    with a x 1 show ?thesis by (auto simp: catch_with_def)
  qed
qed

lemma triple_query [triples]:
  assumes "stable P" and "\<And>db rows a. P rows \<Longrightarrow> q db rows = Inr a \<Longrightarrow> Q a rows"
  shows "triple P (query q) Q"
  unfolding triple_def
proof (intro allI impI)
  fix w r w' assume a: "others_add w \<and> table_ok (wd_snapshots w) \<and> P (wd_snapshots w) \<and> query q w = (r, w')"
  then have w': "w' = others_commit w" "r = q (wd_db w') (wd_snapshots w')" by (auto simp: query_def Let_def)
  with a others_commit_grows have g: "table_grows (wd_snapshots w) (wd_snapshots w')" "others_add w'" by blast+
  then have "P (wd_snapshots w')" using assms(1) a unfolding stable_def by blast
  with g assms(2) w'(2) show "others_add w' \<and> table_grows (wd_snapshots w) (wd_snapshots w')
      \<and> (\<forall>b. r = Inr b \<longrightarrow> Q b (wd_snapshots w'))" by auto
qed

lemma stable_True [triples]: "stable (\<lambda>_. True)"
  by (simp add: stable_def)

section \<open>Boards served\<close>

definition stored :: "scoreboard_snapshot_record \<Rightarrow> snapshot_table \<Rightarrow> bool" where
  "stored s rows \<longleftrightarrow> (\<exists>row\<in>set rows. snapshotRecord row = Inr s)"

lemma stable_stored [triples]: "stable (stored s)"
  by (auto simp: stable_def stored_def table_grows_def)

lemma snapshotRecord_Inr:
  assumes "snapshotRecord row = Inr s"
  shows "snapshot_key row = (ssr_contestId s, ssr_view s, ssr_scopeKey s, ssr_version s)"
    and "sn_payload row = Some (ssr_board s)" and "sn_built_at row = Date (ssr_builtAt s)"
  using assms
  by (auto simp: snapshotRecord_def snapshot_key_def ebind_Inr_iff safeVersion_def
      split: option.splits if_splits js_date.splits)

text \<open>One row per key: two stored snapshots of one key are the same.\<close>

lemma stored_unique:
  assumes "stored s rows" and "stored t rows" and "table_ok rows"
    and "(ssr_contestId s, ssr_view s, ssr_scopeKey s, ssr_version s)
      = (ssr_contestId t, ssr_view t, ssr_scopeKey t, ssr_version t)"
  shows "ssr_board s = ssr_board t \<and> ssr_builtAt s = ssr_builtAt t"
proof -
  from assms(1,2) obtain row row' where r: "row \<in> set rows" "snapshotRecord row = Inr s"
    "row' \<in> set rows" "snapshotRecord row' = Inr t" by (auto simp: stored_def)
  have "snapshot_key row = snapshot_key row'"
    unfolding snapshotRecord_Inr(1) [OF r(2)] snapshotRecord_Inr(1) [OF r(4)] by (rule assms(4))
  then have "row = row'" using r(1,3) assms(3) by (auto simp: table_ok_def distinct_map dest: inj_onD)
  with snapshotRecord_Inr(2,3) [OF r(2)] snapshotRecord_Inr(2,3) [OF r(4)] show ?thesis by simp
qed

text \<open>A stored snapshot of what the reader asked for.\<close>

definition keyed :: "uuid \<Rightarrow> scoreboard_view \<Rightarrow> string \<Rightarrow> scoreboard_snapshot_record \<Rightarrow> snapshot_table \<Rightarrow> bool" where
  "keyed c v k s rows \<longleftrightarrow> stored s rows \<and> ssr_contestId s = c \<and> ssr_view s = v \<and> ssr_scopeKey s = k"

lemma record_of_row_keyed:
  assumes "record_of_row row = Inr (Some s)" and "\<And>r. row = Some r \<Longrightarrow> r \<in> set rows \<and> of_key c v k r"
  shows "keyed c v k s rows"
proof -
  from assms(1) obtain r where r: "row = Some r" "snapshotRecord r = Inr s"
    by (auto simp: record_of_row_def ebind_Inr_iff split: option.splits)
  with assms(2) snapshotRecord_Inr(1) [OF r(2)] show ?thesis
    by (auto simp: keyed_def stored_def of_key_def snapshot_key_def)
qed

lemma exact_row_Some: "exact_row c v k n rows = Some r \<Longrightarrow> r \<in> set rows \<and> of_key c v k r \<and> sn_version r = n"
  by (auto simp: exact_row_def find_Some_iff)

lemma latest_row_Some: "latest_row c v k rows = Some r \<Longrightarrow> r \<in> set rows \<and> of_key c v k r"
proof -
  assume "latest_row c v k rows = Some r"
  then have "r \<in> set (sort_key (\<lambda>r. - sn_version r) (filter (of_key c v k) rows))"
    unfolding latest_row_def by (simp del: set_sort split: list.splits)
  then show ?thesis by simp
qed

lemma readSnapshot_keyed: "readSnapshot rows c v k n = Inr (Some s) \<Longrightarrow> keyed c v k s rows"
  unfolding readSnapshot_def by (rule record_of_row_keyed) (auto dest: exact_row_Some)

lemma readLatestSnapshot_keyed: "readLatestSnapshot rows c v k = Inr (Some s) \<Longrightarrow> keyed c v k s rows"
  unfolding readLatestSnapshot_def by (rule record_of_row_keyed) (auto dest: latest_row_Some)

text \<open>The projection shows the board of a stored snapshot for the key.\<close>

definition serves :: "uuid \<Rightarrow> scoreboard_view \<Rightarrow> string \<Rightarrow> scoreboard_projection \<Rightarrow> snapshot_table \<Rightarrow> bool" where
  "serves c v k p rows \<longleftrightarrow> (\<exists>s. keyed c v k s rows \<and> pj_contestId p = c \<and> pj_view p = v
     \<and> pj_version p = ssr_version s \<and> pj_board p = ssr_board s \<and> pj_builtAt p = Iso (ssr_builtAt s))"

lemma serves_projection: "keyed c v k s rows \<Longrightarrow> serves c v k (projection_with f s state freezeAt) rows"
  by (auto simp: serves_def projection_with_def keyed_def)

definition if_found :: "('a \<Rightarrow> snapshot_table \<Rightarrow> bool) \<Rightarrow> 'a option \<Rightarrow> snapshot_table \<Rightarrow> bool" where
  "if_found Q found rows \<longleftrightarrow> (\<forall>a. found = Some a \<longrightarrow> Q a rows)"

lemma triple_insert:
  "triple (\<lambda>_. True) (insert_statement s) (\<lambda>inserted rows. \<forall>row. inserted = Some row \<longrightarrow>
     row \<in> set rows \<and> snapshot_key row = (ssr_contestId s, ssr_view s, ssr_scopeKey s, ssr_version s))"
  unfolding triple_def
proof (intro allI impI)
  fix w w' :: world and r
  assume a: "others_add w \<and> table_ok (wd_snapshots w) \<and> True \<and> insert_statement s w = (r, w')"
  let ?w = "others_commit w" and ?new = "row_of_record (wd_uuid (others_commit w) 0) s"
  from a others_commit_grows have g: "table_grows (wd_snapshots w) (wd_snapshots ?w)" "others_add ?w" by blast+
  show "others_add w' \<and> table_grows (wd_snapshots w) (wd_snapshots w') \<and> (\<forall>inserted. r = Inr inserted \<longrightarrow>
      (\<forall>row. inserted = Some row \<longrightarrow> row \<in> set (wd_snapshots w')
        \<and> snapshot_key row = (ssr_contestId s, ssr_view s, ssr_scopeKey s, ssr_version s)))"
  proof (cases "insert_snapshot (wd_uuid ?w 0) (wd_db ?w) s (wd_snapshots ?w)")
    case (Inl e)
    with a g show ?thesis by (auto simp: insert_statement_def Let_def)
  next
    case (Inr result)
    obtain row rows where i: "insert_snapshot (wd_uuid ?w 0) (wd_db ?w) s (wd_snapshots ?w) = Inr (row, rows)"
      using Inr by (cases result) simp
    have "row = None \<or> row = Some ?new"
      using i by (auto simp: insert_snapshot_def ebind_Inr_iff simp del: constraints.simps split: if_splits)
    moreover have "r = Inr row" "wd_snapshots w' = rows" "wd_others w' = wd_others ?w"
      using a i by (auto simp: insert_statement_def Let_def)
    moreover have "others_add w'" using g(2) calculation(4) by (simp add: others_add_def)
    ultimately show ?thesis
      using insert_snapshot_grows [OF i table_grows_ok [OF g(1)]] table_grows_trans [OF g(1)]
      by (auto simp: row_of_record_def snapshot_key_def)
  qed
qed

lemma triple_inserted:
  assumes "\<And>a rows. P rows \<Longrightarrow> r = Inr a \<Longrightarrow> Q a rows"
  shows "triple P (\<lambda>w. (r, w)) Q"
  using triple_lift [OF assms] by (simp add: lift_result_def)

lemma triple_write [triples]:
  "triple (\<lambda>_. True) (writeSnapshot s) (keyed (ssr_contestId s) (ssr_view s) (ssr_scopeKey s))"
  unfolding writeSnapshot_def
proof (rule triple_bind [OF triple_insert], rule triple_bind)
  fix inserted
  show "triple (\<lambda>rows. \<forall>row. inserted = Some row \<longrightarrow> row \<in> set rows
      \<and> snapshot_key row = (ssr_contestId s, ssr_view s, ssr_scopeKey s, ssr_version s))
    (case inserted of
       Some row \<Rightarrow> (\<lambda>w. (ebind (snapshotRecord row) (\<lambda>r. Inr (Some r)), w))
     | None \<Rightarrow> query (\<lambda>db rows. readSnapshot rows (ssr_contestId s) (ssr_view s) (ssr_scopeKey s) (ssr_version s)))
    (if_found (keyed (ssr_contestId s) (ssr_view s) (ssr_scopeKey s)))"
  proof (cases inserted)
    case None
    then show ?thesis
      by (auto intro!: triple_query stable_True simp: if_found_def readSnapshot_keyed)
  next
    case (Some row)
    have "keyed (ssr_contestId s) (ssr_view s) (ssr_scopeKey s) t rows"
      if "row \<in> set rows" "snapshot_key row = (ssr_contestId s, ssr_view s, ssr_scopeKey s, ssr_version s)"
        "snapshotRecord row = Inr t" for rows t
      using that snapshotRecord_Inr(1) [OF that(3)] by (auto simp: keyed_def stored_def)
    then show ?thesis unfolding Some
      by (auto intro!: triple_inserted simp: if_found_def ebind_Inr_iff)
  qed
next
  fix found
  show "triple (if_found (keyed (ssr_contestId s) (ssr_view s) (ssr_scopeKey s)) found)
    (case found of None \<Rightarrow> fail ScoreboardSnapshotConflict
     | Some r \<Rightarrow> if ssr_board r \<noteq> ssr_board s then fail ScoreboardSnapshotConflict else act r)
    (keyed (ssr_contestId s) (ssr_view s) (ssr_scopeKey s))"
    by (auto simp: if_found_def intro!: triple_fail triple_act split: option.splits)
qed

text \<open>Reading statements.\<close>

lemma triple_found:
  assumes "\<And>db rows s. q db rows = Inr (Some s) \<Longrightarrow> keyed c v k s rows"
  shows "triple (\<lambda>_. True) (query q) (if_found (keyed c v k))"
  by (rule triple_query [OF stable_True]) (auto simp: if_found_def assms)

lemmas found_statements [triples] =
  triple_found [OF readSnapshot_keyed] triple_found [OF readLatestSnapshot_keyed]

lemma triple_none [triples]: "triple P (act None) (if_found Q)"
  by (rule triple_act) (simp add: if_found_def)

lemma triple_weaken: "triple P A R \<Longrightarrow> (\<And>rows. P' rows \<Longrightarrow> P rows) \<Longrightarrow> (\<And>a rows. R a rows \<Longrightarrow> Q a rows) \<Longrightarrow> triple P' A Q"
  unfolding triple_def by blast

text \<open>\<open>const found = ...; if (found) return ...; otherwise ...\<close>\<close>

lemma triple_or_else:
  assumes "triple P x (if_found R)" and "\<And>a. triple (R a) (f a) Q" and "triple (\<lambda>_. True) y Q"
  shows "triple P (abind x (\<lambda>found. case found of Some a \<Rightarrow> f a | None \<Rightarrow> y)) Q"
proof (rule triple_bind [OF assms(1)])
  fix found
  show "triple (if_found R found) (case found of Some a \<Rightarrow> f a | None \<Rightarrow> y) Q"
  proof (cases found)
    case None
    with assms(3) show ?thesis by (auto intro: triple_weaken)
  next
    case (Some a)
    with triple_weaken [OF assms(2) [of a], of "if_found R found" Q] show ?thesis
      by (simp add: if_found_def)
  qed
qed

lemma triple_served [triples]: "triple (keyed c v k s) (act (projection_with f s state freezeAt)) (serves c v k)"
  by (rule triple_act) (rule serves_projection)

lemma triple_act_id [triples]: "triple (Q a) (act a) Q"
  by (rule triple_act)

section \<open>The service\<close>

definition input_key :: "materialize_input \<Rightarrow> scoreboard_projection \<Rightarrow> snapshot_table \<Rightarrow> bool" where
  "input_key input = serves (st_contestId (mi_contest input)) (mi_view input) (scopeKeyFor (mi_scope input))"

lemma build_scopeKey: "build r scope = Inr board \<Longrightarrow> rm_scopeKey board = scopeKeyFor scope \<and> rm_scope board = scope"
  by (auto simp: build_Inr_iff)

lemma triple_rebuild:
  assumes "mi_persist input"
  shows "triple (\<lambda>_. True) (rebuild m input) (input_key input)"
  unfolding rebuild_def
proof (rule triple_bind [where R = "\<lambda>_ _. True"])
  show "triple (\<lambda>_. True) (replay_source m (st_contestId (mi_contest input)) (mi_factsBefore input)) (\<lambda>_ _. True)"
    unfolding replay_source_def by (rule triple_query [OF stable_True]) simp
  fix replay
  have "triple (\<lambda>_. True) (abind (writeSnapshot (generated input replay board)) (\<lambda>s.
      act (projection s (mi_state input) (st_freezeAt (mi_contest input))))) (input_key input)"
    if "build replay (mi_scope input) = Inr board" for board
    by (rule triple_bind [OF triple_write])
      (use build_scopeKey [OF that] in \<open>simp add: input_key_def triple_served generated_def\<close>)
  with assms show "triple (\<lambda>_. True) (if mi_version input \<noteq> None \<and> mi_version input \<noteq> Some (r_factVersion replay)
     then fail ScoreboardSnapshotConflict
     else (case build replay (mi_scope input) of Inl e \<Rightarrow> fail (ScoreboardBuildInput e)
       | Inr board \<Rightarrow>
         abind (if mi_persist input then writeSnapshot (generated input replay board)
                else act (generated input replay board)) (\<lambda>s.
         act (projection s (mi_state input) (st_freezeAt (mi_contest input)))))) (input_key input)"
    by (auto simp: triple_fail split: sum.split)
qed

lemma triple_materialize [triples]:
  assumes "mi_persist input"
  shows "triple (\<lambda>_. True) (materialize m input) (input_key input)"
proof -
  let ?c = "st_contestId (mi_contest input)" and ?k = "scopeKeyFor (mi_scope input)"
  let ?q = "keyed ?c (mi_view input) ?k"
  have found: "triple (?q s) (act (projection s (mi_state input) (st_freezeAt (mi_contest input)))) (input_key input)" for s
    by (simp add: input_key_def triple_served)
  have latest: "triple (\<lambda>_. True) (if b then query (\<lambda>db rows. readLatestSnapshot rows ?c (mi_view input) ?k) else act None)
      (if_found ?q)" for b
    using found_statements(2) triple_none by (cases b) auto
  have exact: "triple (\<lambda>_. True) (if b then (case mi_version input of None \<Rightarrow> fail ScoreboardSnapshotConflict
      | Some v \<Rightarrow> query (\<lambda>db rows. readSnapshot rows ?c (mi_view input) ?k v)) else act None) (if_found ?q)" for b
    by (cases b; cases "mi_version input") (simp_all add: triple_fail triple_none found_statements(1))
  show ?thesis
    unfolding materialize_def Let_def
    by (intro triple_or_else [OF latest found] triple_or_else [OF exact found] triple_rebuild assms)
qed

lemma triple_optional:
  assumes "triple (\<lambda>_. True) x (if_found (keyed c v k))"
  shows "triple (\<lambda>_. True) (abind x (\<lambda>found. act (map_option (\<lambda>s. projection_with f s state freezeAt) found)))
    (if_found (serves c v k))"
proof (rule triple_bind [OF assms])
  fix found
  show "triple (if_found (keyed c v k) found) (act (map_option (\<lambda>s. projection_with f s state freezeAt) found))
      (if_found (serves c v k))"
    by (rule triple_act) (auto simp: if_found_def serves_projection)
qed

lemma triple_stored_projection [triples]:
  "triple (\<lambda>_. True) (readStoredProjection contest scope version state)
     (if_found (serves (st_contestId contest) PublicView (scopeKeyFor scope)))"
  unfolding readStoredProjection_def by (intro triple_optional found_statements)

lemma triple_latest_frozen [triples]:
  "triple (\<lambda>_. True) (readLatestFrozen contest scope)
     (if_found (serves (st_contestId contest) PublicView (scopeKeyFor scope)))"
  unfolding readLatestFrozen_def by (intro triple_optional found_statements)

lemma triple_stale [triples]:
  "triple (\<lambda>_. True) (readStaleProjection contest scope state)
     (if_found (serves (st_contestId contest) PublicView (scopeKeyFor scope)))"
  unfolding readStaleProjection_def
  by (rule triple_bind [OF found_statements(2)])
    (auto simp: if_found_def serves_projection intro!: triple_act split: option.split)

lemma triple_cached [triples]:
  assumes "mi_persist input" and "mi_view input = PublicView"
  shows "triple (\<lambda>_. True) (cachedMaterialize m input version) (input_key input)"
proof -
  have fallback: "triple (\<lambda>_. True) (rebuildOrFallback m input version) (input_key input)"
    unfolding rebuildOrFallback_def
    using triple_stored_projection [of "mi_contest input" "mi_scope input"]
      triple_stale [of "mi_contest input" "mi_scope input"] triple_materialize [OF assms(1)]
    by (intro triple_or_else [where R = "input_key input"] triple_catch triple_act_id triple_fail)
      (simp_all add: input_key_def assms(2))
  show ?thesis
    unfolding cachedMaterialize_def
    using triple_stored_projection [of "mi_contest input" "mi_scope input"] fallback
    by (intro triple_or_else [where R = "input_key input"] triple_act_id)
      (simp_all add: input_key_def assms(2))
qed

definition input_serves :: "read_scoreboard_input \<Rightarrow> scoreboard_projection \<Rightarrow> snapshot_table \<Rightarrow> bool" where
  "input_serves input = serves (ri_contestId input) (ri_view input) (scopeKeyFor (ri_scope input))"

lemma input_key_of [simp]:
  "st_contestId contest = ri_contestId input \<Longrightarrow> input_key (materialize_of contest input state t) = input_serves input"
  by (simp add: input_key_def input_serves_def materialize_of_def)

lemma materialize_of_fields [simp]: "mi_persist (materialize_of contest input state t)"
  "mi_view (materialize_of contest input state t) = ri_view input"
  by (simp_all add: materialize_of_def)

lemma triple_frozen:
  assumes "st_contestId contest = ri_contestId input" and "ri_view input = PublicView"
  shows "triple (\<lambda>_. True) (readFrozen m contest input freezeAt t) (input_serves input)"
proof -
  let ?k = "scopeKeyFor (ri_scope input)"
  have version: "triple (\<lambda>_. True) (query (\<lambda>db rows. readLatestSnapshotVersion rows (st_contestId contest) PublicView ?k))
      (\<lambda>_ _. True)" by (rule triple_query [OF stable_True]) simp
  have existing: "triple (\<lambda>_. True) (case v of None \<Rightarrow> act None
      | Some v \<Rightarrow> query (\<lambda>db rows. readSnapshot rows (st_contestId contest) PublicView ?k v))
      (if_found (keyed (st_contestId contest) PublicView ?k))" for v
    by (cases v) (simp_all add: triple_none found_statements(1))
  have last: "triple (\<lambda>_. True) (materialize m ((materialize_of contest input Frozen t)
      \<lparr>mi_version := None, mi_factsBefore := Some freezeAt, mi_preferLatestExisting := True\<rparr>)) (input_serves input)"
    using triple_materialize [of "(materialize_of contest input Frozen t)
      \<lparr>mi_version := None, mi_factsBefore := Some freezeAt, mi_preferLatestExisting := True\<rparr>" m] assms(1)
    by (simp add: materialize_of_def input_key_def input_serves_def)
  have found: "triple (keyed (st_contestId contest) PublicView ?k s)
      (act (projection s Frozen (st_freezeAt contest))) (input_serves input)" for s
    using triple_served assms by (simp add: input_serves_def)
  have winner: "triple (\<lambda>_. True) (readLatestFrozen contest (ri_scope input)) (if_found (input_serves input))"
    using triple_latest_frozen [of contest "ri_scope input"] assms by (simp add: input_serves_def)
  show ?thesis
    unfolding readFrozen_def Let_def
    by (intro triple_bind [OF version] triple_or_else [OF existing found]
        triple_or_else [OF winner triple_act_id] last)
qed

lemma triple_read_current:
  assumes "st_contestId contest = ri_contestId input"
  shows "triple (\<lambda>_. True) (read_current m contest input t) (input_serves input)"
proof -
  have live: "triple (\<lambda>_. True) (materialize m (materialize_of contest input Live t)) (input_serves input)"
    using triple_materialize [of "materialize_of contest input Live t" m] assms
    by simp
  have cached: "triple (\<lambda>_. True) (cachedMaterialize m (materialize_of contest input state t) (st_currentVersion contest))
      (input_serves input)" if "ri_view input \<noteq> InternalView" for state
    using triple_cached [of "materialize_of contest input state t" m] assms that
    by (cases "ri_view input") simp_all
  have frozen: "triple (\<lambda>_. True) (readFrozen m contest input freezeAt t) (input_serves input)"
    if "ri_view input \<noteq> InternalView" for freezeAt
    using triple_frozen [OF assms] that by (cases "ri_view input") simp_all
  show ?thesis
    using live cached frozen by (auto simp: read_current_def split: option.split)
qed

lemma triple_read:
  "triple (\<lambda>_. True) (read_scoreboard m input now) (input_serves input)"
proof (cases now)
  case (Date t)
  have contest: "triple (\<lambda>_. True) (query (\<lambda>db rows. map_error (\<lambda>e. if e = ScoreboardContestNotFound
      then ScoreboardViewServiceError BoardNotFound else e) (readContestState db (ri_contestId input))))
      (\<lambda>contest rows. st_contestId contest = ri_contestId input)"
    by (rule triple_query [OF stable_True])
      (auto simp: readContestState_def ebind_Inr_iff find_Some_iff split: option.splits)
  have division: "triple (\<lambda>_. st_contestId contest = ri_contestId input) (case ri_scope input of Overall \<Rightarrow> act ()
      | Division d \<Rightarrow> query (\<lambda>db rows. ensure (divisionExists db (ri_contestId input) d)
          (ScoreboardViewServiceError ScopeInvalid))) (\<lambda>_ _. st_contestId contest = ri_contestId input)" for contest
    by (cases "ri_scope input") (auto intro!: triple_act triple_query simp: stable_def)
  have current: "triple (\<lambda>_. st_contestId contest = ri_contestId input) (read_current m contest input t)
      (input_serves input)" for contest
    using triple_read_current [of contest input m t] unfolding triple_def by blast
  show ?thesis
    by (auto simp: read_scoreboard_def Date intro!: triple_bind [OF contest] triple_bind [OF triple_lift]
        triple_bind [OF division] current)
qed (simp add: read_scoreboard_def triple_fail)

section \<open>A quiet world\<close>

text \<open>Without other requests a statement reads the table as it is.\<close>

definition quiet :: "world \<Rightarrow> bool" where
  "quiet w \<longleftrightarrow> wd_others w = []"

lemma quiet_others [simp]: "quiet w \<Longrightarrow> others_commit w = w"
  by (simp add: quiet_def others_commit_def)

lemma query_quiet [simp]: "quiet w \<Longrightarrow> query q w = (q (wd_db w) (wd_snapshots w), w)"
  by (simp add: query_def)

lemma abind_Inr: "abind x f w = (Inr b, w') \<longleftrightarrow> (\<exists>a w1. x w = (Inr a, w1) \<and> f a w1 = (Inr b, w'))"
  by (auto simp: abind_def split: prod.splits sum.splits)

lemma act_Inr [simp]: "act a w = (Inr b, w') \<longleftrightarrow> b = a \<and> w' = w"
  by (auto simp: act_def)

lemma fail_Inr [simp]: "fail e w \<noteq> (Inr b, w')"
  by (simp add: fail_def)

text \<open>The board the facts give, up to a cutoff.\<close>

definition board_of ::
  "js_math \<Rightarrow> database \<Rightarrow> uuid \<Rightarrow> scoreboard_scope \<Rightarrow> millis option \<Rightarrow> int \<Rightarrow> scoreboard_read_model \<Rightarrow> bool" where
  "board_of m db contestId scope cutoff version board \<longleftrightarrow> (\<exists>r. replay_contest m db contestId (map_option Date cutoff) = Inr r
     \<and> r_factVersion r = version \<and> build r scope = Inr board)"

lemma writeSnapshot_board: "writeSnapshot s w = (Inr r, w') \<Longrightarrow> ssr_board r = ssr_board s"
  by (auto simp: writeSnapshot_def abind_Inr split: option.splits if_splits)

lemma writeSnapshot_key:
  assumes "writeSnapshot s w = (Inr r, w')"
  shows "ssr_version r = ssr_version s"
proof -
  from assms obtain inserted w1 stored w2 where ins: "insert_statement s w = (Inr inserted, w1)"
    and mid: "(case inserted of Some row \<Rightarrow> (\<lambda>w. (ebind (snapshotRecord row) (\<lambda>r. Inr (Some r)), w))
       | None \<Rightarrow> query (\<lambda>db rows. readSnapshot rows (ssr_contestId s) (ssr_view s) (ssr_scopeKey s) (ssr_version s))) w1
      = (Inr stored, w2)"
    and last: "(case stored of None \<Rightarrow> fail ScoreboardSnapshotConflict
       | Some r \<Rightarrow> if ssr_board r \<noteq> ssr_board s then fail ScoreboardSnapshotConflict else act r) w2 = (Inr r, w')"
    unfolding writeSnapshot_def abind_Inr by blast
  from last have stored: "stored = Some r" by (cases stored) (auto split: if_splits)
  show ?thesis
  proof (cases inserted)
    case None
    with mid stored obtain rows where "readSnapshot rows (ssr_contestId s) (ssr_view s) (ssr_scopeKey s) (ssr_version s) = Inr (Some r)"
      by (auto simp: query_def Let_def)
    then obtain row where "exact_row (ssr_contestId s) (ssr_view s) (ssr_scopeKey s) (ssr_version s) rows = Some row"
      and "snapshotRecord row = Inr r"
      by (auto simp: readSnapshot_def record_of_row_def ebind_Inr_iff split: option.splits)
    then show ?thesis using exact_row_Some snapshotRecord_Inr(1) by (fastforce simp: snapshot_key_def)
  next
    case (Some row)
    with ins have "snapshot_key row = (ssr_contestId s, ssr_view s, ssr_scopeKey s, ssr_version s)"
      by (auto simp: insert_statement_def insert_snapshot_def ebind_Inr_iff Let_def row_of_record_def snapshot_key_def
          simp del: constraints.simps split: sum.splits prod.splits if_splits)
    moreover have "snapshotRecord row = Inr r" using mid stored Some by (auto simp: ebind_Inr_iff)
    ultimately show ?thesis using snapshotRecord_Inr(1) by fastforce
  qed
qed

lemma rebuild_board:
  assumes "rebuild m input w = (Inr p, w')" and "quiet w" and "mi_persist input"
  shows "board_of m (wd_db w) (st_contestId (mi_contest input)) (mi_scope input) (mi_factsBefore input)
      (pj_version p) (pj_board p) \<and> pj_freshness p = Current
    \<and> (mi_version input = None \<or> mi_version input = Some (pj_version p))"
proof -
  from assms obtain r w1 where r: "replay_contest m (wd_db w) (st_contestId (mi_contest input))
      (map_option Date (mi_factsBefore input)) = Inr r" "w1 = w"
    and version: "mi_version input = None \<or> mi_version input = Some (r_factVersion r)"
    by (auto simp: rebuild_def abind_Inr replay_source_def split: if_splits)
  from assms r version obtain board s' where board: "build r (mi_scope input) = Inr board"
    and written: "writeSnapshot (generated input r board) w = (Inr s', w')"
    and p: "p = projection s' (mi_state input) (st_freezeAt (mi_contest input))"
    by (auto simp: rebuild_def abind_Inr replay_source_def split: sum.splits)
  have "pj_board p = board" "pj_version p = r_factVersion r" "pj_freshness p = Current"
    using writeSnapshot_board [OF written] writeSnapshot_key [OF written] version
    by (auto simp: p projection_with_def generated_def)
  with r board version show ?thesis by (auto simp: board_of_def)
qed

lemma readContestState_row:
  assumes "readContestState db contestId = Inr contest"
  shows "\<exists>c\<in>set (db_contests db). co_id c = contestId \<and> st_contestId contest = contestId
    \<and> st_publicationStatus contest = co_publication_status c \<and> st_visibility contest = co_visibility c
    \<and> st_freezeAt contest = co_scoreboard_freeze_at c \<and> st_endAt contest = co_end_at c"
proof (cases "find (\<lambda>c. co_id c = contestId) (db_contests db)")
  case None
  with assms show ?thesis by (simp add: readContestState_def)
next
  case (Some c)
  then have "c \<in> set (db_contests db)" "co_id c = contestId" by (auto simp: find_Some_iff)
  with assms Some show ?thesis by (intro bexI [of _ c]) (auto simp: readContestState_def ebind_Inr_iff)
qed

lemma projection_fields [simp]: "pj_state (projection_with f s state z) = state"
  "pj_freshness (projection_with f s state z) = f" "pj_version (projection_with f s state z) = ssr_version s"
  "pj_board (projection_with f s state z) = ssr_board s"
  "pj_frozenAt (projection_with f s state z) = (if state = Frozen then map_option Iso z else None)"
  by (simp_all add: projection_with_def)

lemma rebuild_state: "rebuild m input w = (Inr p, w') \<Longrightarrow> pj_state p = mi_state input
    \<and> pj_frozenAt p = (if mi_state input = Frozen then map_option Iso (st_freezeAt (mi_contest input)) else None)"
  by (auto simp: rebuild_def abind_Inr split: if_splits sum.splits)

lemma readSnapshot_version: "readSnapshot rows c v k n = Inr (Some s) \<Longrightarrow> ssr_version s = n"
proof -
  assume "readSnapshot rows c v k n = Inr (Some s)"
  then obtain row where "exact_row c v k n rows = Some row" "snapshotRecord row = Inr s"
    by (auto simp: readSnapshot_def record_of_row_def ebind_Inr_iff split: option.splits)
  then show ?thesis using exact_row_Some snapshotRecord_Inr(1) by (fastforce simp: snapshot_key_def)
qed

text \<open>What a materialisation returns: a stored snapshot or a rebuilt one.\<close>

lemma materialize_cases:
  assumes "materialize m input w = (Inr p, w')" and "quiet w"
  obtains (latest) s where "mi_preferLatestExisting input"
      "readLatestSnapshot (wd_snapshots w) (st_contestId (mi_contest input)) (mi_view input) (scopeKeyFor (mi_scope input))
        = Inr (Some s)" "p = projection s (mi_state input) (st_freezeAt (mi_contest input))"
  | (exact) s v where "mi_version input = Some v"
      "readSnapshot (wd_snapshots w) (st_contestId (mi_contest input)) (mi_view input) (scopeKeyFor (mi_scope input)) v
        = Inr (Some s)" "p = projection s (mi_state input) (st_freezeAt (mi_contest input))"
  | (rebuilt) "rebuild m input w = (Inr p, w')"
      "mi_preferLatestExisting input \<longrightarrow> readLatestSnapshot (wd_snapshots w) (st_contestId (mi_contest input))
        (mi_view input) (scopeKeyFor (mi_scope input)) = Inr None"
proof -
  let ?found = "\<lambda>s. projection s (mi_state input) (st_freezeAt (mi_contest input))"
  from assms(1) obtain found w1 where
    1: "(if mi_preferLatestExisting input
       then query (\<lambda>db rows. readLatestSnapshot rows (st_contestId (mi_contest input)) (mi_view input) (scopeKeyFor (mi_scope input)))
       else act None) w = (Inr found, w1)"
    and 2: "(case found of Some s \<Rightarrow> act (?found s) | None \<Rightarrow>
      abind (if mi_preferExisting input \<or> mi_state input = Settled
             then (case mi_version input of None \<Rightarrow> fail ScoreboardSnapshotConflict
               | Some v \<Rightarrow> query (\<lambda>db rows. readSnapshot rows (st_contestId (mi_contest input)) (mi_view input)
                   (scopeKeyFor (mi_scope input)) v))
             else act None) (\<lambda>existing.
      case existing of Some s \<Rightarrow> act (?found s) | None \<Rightarrow> rebuild m input)) w1 = (Inr p, w')"
    unfolding materialize_def Let_def abind_Inr by blast
  have w1: "w1 = w" and found: "mi_preferLatestExisting input \<Longrightarrow> readLatestSnapshot (wd_snapshots w)
      (st_contestId (mi_contest input)) (mi_view input) (scopeKeyFor (mi_scope input)) = Inr found"
    "\<not> mi_preferLatestExisting input \<Longrightarrow> found = None"
    using 1 assms(2) by (auto split: if_splits)
  show thesis
  proof (cases found)
    case (Some s)
    with 2 have "p = ?found s" by simp
    with Some found latest show thesis by (cases "mi_preferLatestExisting input") auto
  next
    case None
    with 2 w1 assms(2) consider "rebuild m input w = (Inr p, w')"
      | s v where "mi_version input = Some v" "readSnapshot (wd_snapshots w) (st_contestId (mi_contest input))
          (mi_view input) (scopeKeyFor (mi_scope input)) v = Inr (Some s)" "p = ?found s"
      by (auto simp: abind_Inr split: if_splits option.splits)
    then show thesis using rebuilt exact None found(1) by cases auto
  qed
qed

lemma materialize_state: "materialize m input w = (Inr p, w') \<Longrightarrow> quiet w \<Longrightarrow> pj_state p = mi_state input"
  by (erule materialize_cases) (auto dest: rebuild_state)

lemma stored_projection_quiet:
  assumes "readStoredProjection contest scope v state w = (r, w')" and "quiet w"
  shows "w' = w \<and> (\<forall>p. r = Inr (Some p) \<longrightarrow> serves (st_contestId contest) PublicView (scopeKeyFor scope) p (wd_snapshots w)
    \<and> pj_version p = v \<and> pj_state p = state)"
  using assms readSnapshot_keyed readSnapshot_version serves_projection
  by (fastforce simp: readStoredProjection_def abind_def act_def split: sum.splits prod.splits)

lemma stale_projection: "readStaleProjection contest scope state w = (Inr (Some p), w') \<Longrightarrow>
    pj_freshness p = Stale \<and> pj_state p = state"
  by (auto simp: readStaleProjection_def abind_Inr split: option.splits if_splits)

lemma catch_Inr: "catch_with x h w = (Inr a, w') \<longleftrightarrow>
    x w = (Inr a, w') \<or> (\<exists>e w1. x w = (Inl e, w1) \<and> h e w1 = (Inr a, w'))"
  by (auto simp: catch_with_def split: prod.splits sum.splits)

lemma or_else_Inr: "abind x (\<lambda>found. case found of Some a \<Rightarrow> f a | None \<Rightarrow> y) w = (Inr b, w') \<longleftrightarrow>
    (\<exists>w1. (\<exists>a. x w = (Inr (Some a), w1) \<and> f a w1 = (Inr b, w')) \<or> x w = (Inr None, w1) \<and> y w1 = (Inr b, w'))"
  by (auto simp: abind_Inr split: option.splits)

lemma stored_or_else:
  assumes "abind (readStoredProjection contest scope v state) (\<lambda>found. case found of Some a \<Rightarrow> act a | None \<Rightarrow> y) w
      = (Inr p, w')" and "quiet w"
  shows "readStoredProjection contest scope v state w = (Inr (Some p), w) \<or> y w = (Inr p, w')"
proof -
  from assms(1) obtain w1 where "(\<exists>a. readStoredProjection contest scope v state w = (Inr (Some a), w1) \<and> act a w1 = (Inr p, w'))
      \<or> (readStoredProjection contest scope v state w = (Inr None, w1) \<and> y w1 = (Inr p, w'))"
    unfolding or_else_Inr by blast
  with stored_projection_quiet [OF _ assms(2)] show ?thesis by (metis act_Inr)
qed

lemma stale_or_fail:
  assumes "abind (readStaleProjection contest scope state)
      (\<lambda>stale. case stale of Some q \<Rightarrow> act q | None \<Rightarrow> fail error) w1 = (Inr p, w')"
  shows "readStaleProjection contest scope state w1 = (Inr (Some p), w')"
  using assms unfolding or_else_Inr by auto

lemma rebuild_or_fallback:
  assumes "rebuildOrFallback m input v w = (Inr p, w')" and "quiet w"
  shows "readStoredProjection (mi_contest input) (mi_scope input) v (mi_state input) w = (Inr (Some p), w)
    \<or> materialize m input w = (Inr p, w')
    \<or> (\<exists>w1. readStaleProjection (mi_contest input) (mi_scope input) (mi_state input) w1 = (Inr (Some p), w'))"
proof (rule disjE [OF stored_or_else [OF assms(1) [unfolded rebuildOrFallback_def Let_def] assms(2)]])
  assume "catch_with (materialize m input) (\<lambda>error. abind (readStaleProjection (mi_contest input) (mi_scope input)
      (mi_state input)) (\<lambda>stale. case stale of Some q \<Rightarrow> act q | None \<Rightarrow> fail error)) w = (Inr p, w')"
  then show ?thesis unfolding catch_Inr using stale_or_fail by blast
qed simp

lemma cached_quiet:
  assumes "cachedMaterialize m input v w = (Inr p, w')" and "quiet w" and "mi_persist input"
    and "mi_view input = PublicView" and "mi_version input = Some v" and "mi_factsBefore input = None"
    and "\<not> mi_preferLatestExisting input"
  shows "pj_state p = mi_state input \<and> (pj_freshness p = Current \<longrightarrow> pj_version p = v
    \<and> (serves (st_contestId (mi_contest input)) PublicView (scopeKeyFor (mi_scope input)) p (wd_snapshots w)
       \<or> board_of m (wd_db w) (st_contestId (mi_contest input)) (mi_scope input) None v (pj_board p)))"
proof -
  let ?stored = "readStoredProjection (mi_contest input) (mi_scope input) v (mi_state input)"
  have quiet_stored: "w1 = w \<and> (\<forall>q. r = Inr (Some q) \<longrightarrow>
      serves (st_contestId (mi_contest input)) PublicView (scopeKeyFor (mi_scope input)) q (wd_snapshots w)
      \<and> pj_version q = v \<and> pj_state q = mi_state input)" if "?stored w = (r, w1)" for r w1
    by (rule stored_projection_quiet [OF that assms(2)])
  have fallback: "?stored w = (Inr (Some p), w) \<or> rebuildOrFallback m input v w = (Inr p, w')"
    using stored_or_else [OF _ assms(2)] assms(1) unfolding cachedMaterialize_def by blast
  then have "?stored w = (Inr (Some p), w) \<or> materialize m input w = (Inr p, w')
      \<or> (\<exists>w1. readStaleProjection (mi_contest input) (mi_scope input) (mi_state input) w1 = (Inr (Some p), w'))"
    using rebuild_or_fallback [OF _ assms(2)] by blast
  then consider (hit) "?stored w = (Inr (Some p), w)"
    | (built) "materialize m input w = (Inr p, w')"
    | (stale) w1 where "readStaleProjection (mi_contest input) (mi_scope input) (mi_state input) w1 = (Inr (Some p), w')"
    by blast
  then show ?thesis
  proof cases
    case hit
    with quiet_stored [OF hit] show ?thesis by auto
  next
    case built
    from materialize_state [OF this assms(2)] have state: "pj_state p = mi_state input" .
    from built assms(2) show ?thesis
    proof (cases rule: materialize_cases)
      case (exact s v')
      with assms(4,5) readSnapshot_version [OF exact(2)] serves_projection [OF readSnapshot_keyed [OF exact(2)]]
      show ?thesis by auto
    next
      case rebuilt
      from rebuild_board [OF rebuilt(1) assms(2,3)] assms(5,6) state show ?thesis by auto
    qed (use assms(7) in auto)
  next
    case stale
    from stale_projection [OF this] show ?thesis by simp
  qed
qed

lemma frozen_state:
  assumes "readFrozen m contest input freezeAt t w = (Inr p, w')" and "quiet w" and "table_ok (wd_snapshots w)"
    and "ri_view input = PublicView" and "st_freezeAt contest = Some freezeAt"
  shows "pj_state p = Frozen \<and> pj_frozenAt p = Some (Iso freezeAt)
    \<and> (case latest_row (st_contestId contest) PublicView (scopeKeyFor (ri_scope input)) (wd_snapshots w) of
         Some row \<Rightarrow> sn_payload row = Some (pj_board p) \<and> sn_version row = pj_version p
       | None \<Rightarrow> board_of m (wd_db w) (st_contestId contest) (ri_scope input) (Some freezeAt) (pj_version p) (pj_board p))"
proof (cases "latest_row (st_contestId contest) PublicView (scopeKeyFor (ri_scope input)) (wd_snapshots w)")
  case None
  let ?input = "(materialize_of contest input Frozen t)
      \<lparr>mi_version := None, mi_factsBefore := Some freezeAt, mi_preferLatestExisting := True\<rparr>"
  have "readLatestFrozen contest (ri_scope input) w = (Inr None, w)"
    using assms(2) None
    by (simp add: readLatestFrozen_def abind_def act_def readLatestSnapshot_def record_of_row_def)
  then have "materialize m ?input w = (Inr p, w')"
    using assms(1,2) None
    by (simp add: readFrozen_def abind_def act_def readLatestSnapshotVersion_def Let_def)
  then have "rebuild m ?input w = (Inr p, w')"
    using assms(2)
  proof (cases rule: materialize_cases)
    case (latest s)
    with None assms(4) show ?thesis
      by (simp add: readLatestSnapshot_def record_of_row_def materialize_of_def)
  qed (simp_all add: materialize_of_def)
  from rebuild_board [OF this assms(2)] rebuild_state [OF this] None assms(5) show ?thesis
    by (simp add: materialize_of_def)
next
  case (Some row)
  let ?key = "scopeKeyFor (ri_scope input)"
  note row = latest_row_Some [OF Some]
  obtain row' where exact: "exact_row (st_contestId contest) PublicView ?key (sn_version row) (wd_snapshots w) = Some row'"
    using row by (cases "exact_row (st_contestId contest) PublicView ?key (sn_version row) (wd_snapshots w)")
      (auto simp: exact_row_None snapshot_key_def of_key_def image_iff)
  note row' = exact_row_Some [OF exact]
  have "snapshot_key row' = snapshot_key row"
    using row row' by (auto simp: of_key_def snapshot_key_def)
  moreover have "inj_on snapshot_key (set (wd_snapshots w))"
    using assms(3) by (simp add: table_ok_def distinct_map)
  ultimately have "row' = row"
    using row row' by (auto dest: inj_onD)
  with exact have read: "readSnapshot (wd_snapshots w) (st_contestId contest) PublicView ?key (sn_version row)
      = ebind (snapshotRecord row) (\<lambda>s. Inr (Some s))"
    by (simp add: readSnapshot_def record_of_row_def)
  have "readLatestSnapshotVersion (wd_snapshots w) (st_contestId contest) PublicView ?key
      = ebind (safeVersion (sn_version row)) (\<lambda>v. Inr (Some v))"
    by (simp add: readLatestSnapshotVersion_def Some)
  with assms(1,2) read obtain s where s: "snapshotRecord row = Inr s" "p = projection s Frozen (st_freezeAt contest)"
    by (auto simp: readFrozen_def abind_Inr Let_def ebind_Inr_iff safeVersion_def split: if_splits)
  with snapshotRecord_Inr(1,2) [OF s(1)] show ?thesis
    by (simp add: Some assms(5) snapshot_key_def)
qed

section \<open>Properties\<close>



text \<open>An ordinary viewer never gets the internal board, nor anyone the public board of a draft or private contest.\<close>

theorem board_access:
  assumes "read_scoreboard m input now w = (Inr p, w')"
  shows "(ri_view input = InternalView \<longrightarrow> ri_viewerRole input \<noteq> ViewerUser)
    \<and> (ri_view input = PublicView \<longrightarrow> (\<exists>c\<in>set (db_contests (wd_db (others_commit w))). co_id c = ri_contestId input
         \<and> co_publication_status c \<noteq> Draft \<and> co_visibility c = PublicContest))"
proof -
  from assms obtain contest where
    state: "readContestState (wd_db (others_commit w)) (ri_contestId input) = Inr contest"
    and ok: "read_permitted contest input = Inr ()"
    by (auto simp: read_scoreboard_def abind_Inr query_def lift_result_def Let_def split: js_date.splits)
  from readContestState_row [OF state] obtain c where "c \<in> set (db_contests (wd_db (others_commit w)))"
    "co_id c = ri_contestId input" "st_publicationStatus contest = co_publication_status c"
    "st_visibility contest = co_visibility c" by blast
  with ok show ?thesis by (auto simp: read_permitted_def split: if_splits)
qed


text \<open>
  In a quiet world a public read during the freeze shows the latest board stored, or, when there is
  none, the board of the facts before the freeze.
\<close>

theorem frozen_read_board:
  assumes "quiet w" and "table_ok (wd_snapshots w)"
    and "read_scoreboard m input (Date t) w = (Inr p, w')" and "pj_state p = Frozen"
  shows "\<exists>contest freezeAt. readContestState (wd_db w) (ri_contestId input) = Inr contest
    \<and> st_freezeAt contest = Some freezeAt \<and> freezeAt \<le> t \<and> t < st_endAt contest
    \<and> pj_frozenAt p = Some (Iso freezeAt)
    \<and> (case latest_row (ri_contestId input) PublicView (scopeKeyFor (ri_scope input)) (wd_snapshots w) of
         Some row \<Rightarrow> sn_payload row = Some (pj_board p) \<and> sn_version row = pj_version p
       | None \<Rightarrow> board_of m (wd_db w) (ri_contestId input) (ri_scope input) (Some freezeAt) (pj_version p) (pj_board p))"
proof -
  from assms(1,3) obtain contest where
    state: "readContestState (wd_db w) (ri_contestId input) = Inr contest"
    and current: "read_current m contest input t w = (Inr p, w')"
    by (auto simp: read_scoreboard_def abind_Inr lift_result_def split: scoreboard_scope.splits)
  have id: "st_contestId contest = ri_contestId input" using readContestState_row [OF state] by blast
  have "cachedMaterialize m (materialize_of contest input phase t) (st_currentVersion contest) w \<noteq> (Inr p, w')"
    if "phase \<noteq> Frozen" "ri_view input = PublicView" for phase
    using cached_quiet [of m "materialize_of contest input phase t", OF _ assms(1)] that assms(4)
    by (auto simp: materialize_of_def)
  moreover have "materialize m (materialize_of contest input Live t) w \<noteq> (Inr p, w')"
    using materialize_state [OF _ assms(1)] assms(4) by (auto simp: materialize_of_def)
  ultimately obtain freezeAt where f: "st_freezeAt contest = Some freezeAt" "freezeAt \<le> t" "t < st_endAt contest"
    and frozen: "readFrozen m contest input freezeAt t w = (Inr p, w')" and view: "ri_view input = PublicView"
    using current by (cases "ri_view input") (auto simp: read_current_def split: if_splits option.splits)
  from frozen_state [OF frozen assms(1,2) view f(1), unfolded id] f state show ?thesis by blast
qed

end
