(* ===== verification/Service_Scenario.thy ===== *)
theory Service_Scenario
  imports Scenario Service_System Scoreboard_View_Facts
begin

text \<open>
  The properties of the services applied on a small running contest.
\<close>

section \<open>Submitting through the service\<close>

text \<open>A digest that is quick to compute: the length of the text.\<close>

definition length_crypto :: crypto where
  "length_crypto = plain_crypto\<lparr>cr_sha256 := (\<lambda>x. (length x mod 256) # replicate 31 0)\<rparr>"

lemma length_crypto_documented: "digests_documented length_crypto" "aead_documented length_crypto"
  using plain_crypto_documented by (simp_all add: length_crypto_def digests_documented_def aead_documented_def)

text \<open>A running contest of three teams, two accepted, each with a correct submission, and a challenge with a registered validator.\<close>

definition entered :: "uuid \<Rightarrow> uuid \<Rightarrow> uuid \<Rightarrow> participation_row" where
  "entered p team user = \<lparr>pa_id = p, pa_contest_id = ''cup'', pa_team_id = team, pa_division_id = None, pa_status = Accepted,
     pa_registered_by = user, pa_reviewed_by = None, pa_review_reason = None, pa_invite_digest_verified = None,
     pa_registered_at = 5, pa_reviewed_at = None, pa_withdrawn_at = None, pa_version = 1, pa_updated_at = 5\<rparr>"

definition scored :: "uuid \<Rightarrow> uuid \<Rightarrow> uuid \<Rightarrow> millis \<Rightarrow> submission_row" where
  "scored s p user t = \<lparr>su_id = s, su_contest_id = ''cup'', su_challenge_id = ''w'', su_participation_id = p, su_user_id = user,
     su_mode = Official, su_result = Correct, su_answer_digest = [], su_answer_ciphertext = [], su_request_id = s,
     su_submitted_at = t\<rparr>"

definition solved :: "uuid \<Rightarrow> uuid \<Rightarrow> int \<Rightarrow> millis \<Rightarrow> solve_row" where
  "solved s p n t = \<lparr>so_id = s, so_submission_id = s, so_contest_id = ''cup'', so_challenge_id = ''w'', so_participation_id = p,
     so_mode = Official, so_awarded_score = 100, so_solve_order = n, so_solved_at = t\<rparr>"

definition open_cup :: database where
  "open_cup = \<lparr>db_users = map account [''a'', ''b'', ''c''],
     db_teams = [\<lparr>te_id = ''r'', te_name = ''Red'', te_name_normalized = ''red'', te_created_by = ''a'', te_version = 1, te_updated_at = 1\<rparr>,
       \<lparr>te_id = ''b'', te_name = ''Blue'', te_name_normalized = ''blue'', te_created_by = ''b'', te_version = 1, te_updated_at = 1\<rparr>,
       \<lparr>te_id = ''g'', te_name = ''Green'', te_name_normalized = ''green'', te_created_by = ''c'', te_version = 1, te_updated_at = 1\<rparr>],
     db_team_members = [\<lparr>tm_id = ''m'', tm_team_id = ''r'', tm_user_id = ''a'', tm_role = Captain, tm_joined_at = 1\<rparr>,
       \<lparr>tm_id = ''n'', tm_team_id = ''b'', tm_user_id = ''b'', tm_role = Captain, tm_joined_at = 1\<rparr>,
       \<lparr>tm_id = ''o'', tm_team_id = ''g'', tm_user_id = ''c'', tm_role = Captain, tm_joined_at = 1\<rparr>],
     db_team_invites = [], db_contests = [cup], db_divisions = [],
     db_participations = [entered ''p'' ''r'' ''a'', entered ''q'' ''b'' ''b''],
     db_contest_challenges = [warmup\<lparr>ch_id := ''w'', ch_flag_policy := SynchronousFlag ''echo''\<rparr>],
     db_submissions = [scored ''s'' ''p'' ''a'' 2000, scored ''t'' ''q'' ''b'' 3000],
     db_solves = [solved ''s'' ''p'' 1 2000, solved ''t'' ''q'' 2 3000],
     db_score_adjustments = [], db_cheat_clues = [],
     db_scoreboard_versions = [\<lparr>bv_contest_id = ''cup'', bv_version = 2, bv_updated_at = 3000\<rparr>],
     db_contest_events = [], db_audit_events = []\<rparr>"

definition subject :: "uuid \<Rightarrow> global_role \<Rightarrow> session_subject" where
  "subject user role = \<lparr>sj_userId = user, sj_role = role, sj_emailVerified = True, sj_mustChangePassword = False\<rparr>"

definition service :: "(millis \<times> millis, window_table, rate_limit_error) submission_service" where
  "service = \<lparr>sv_crypto = length_crypto, sv_keyring = Map.empty, sv_validators = [''echo'' \<mapsto> \<lambda>i. ReturnsBoolean (vi_submittedFlag i = ''flag{a}'')],
     sv_limiter = pg_limiter length_crypto, sv_answers = \<lparr>ap_encryptionKey = replicate 32 3, ap_digestKey = replicate 32 4\<rparr>\<rparr>"

definition flag_entry :: verify_flag_input where
  "flag_entry = \<lparr>vf_contestId = ''cup'', vf_challengeId = ''w'', vf_submittedFlag = ''flag{a}'', vf_requestId = ''q9''\<rparr>"

text \<open>Between the two checks the table of windows is purged.\<close>

definition flag_entry_call :: "(millis \<times> millis, window_table) flag_call" where
  "flag_entry_call = \<lparr>fc_user_clock = (2000, 2000), fc_admit_at = 2000, fc_meanwhile = (\<lambda>(s, db). (Map.empty, db)), fc_team_clock = (2001, 2001),
     fc_nonce = replicate 12 5, fc_append_at = 2002, fc_tx = draw ''v'' 2002\<rparr>"

lemma entry_fields: "sv_crypto service = length_crypto" "sv_limiter service = pg_limiter length_crypto"
  "vf_contestId flag_entry = ''cup''" "vf_challengeId flag_entry = ''w''" "vf_submittedFlag flag_entry = ''flag{a}''"
  "vf_requestId flag_entry = ''q9''" "fc_user_clock flag_entry_call = (2000, 2000)" "fc_team_clock flag_entry_call = (2001, 2001)"
  "fc_meanwhile flag_entry_call = (\<lambda>(s, db). (Map.empty, db))" "fc_append_at flag_entry_call = 2002"
  "fc_admit_at flag_entry_call = 2000" "fc_tx flag_entry_call = draw ''v'' 2002" "fc_nonce flag_entry_call = replicate 12 5" "sj_userId (subject u role) = u"
  by (simp_all add: service_def flag_entry_def flag_entry_call_def subject_def)

text \<open>The limiter and the service unfolded, for evaluation.\<close>

lemma bucket_length: "length (utf8 (rateLimitBucket length_crypto scope identity action)) = utf8_length scope + utf8_length action + 66"
  by (simp add: rateLimitBucket_def length_utf8 utf8_length_hex length_crypto_def plain_crypto_def)

lemma length_digests: "hex (cr_sha256 length_crypto x) = hex (cr_sha256 length_crypto y) \<longleftrightarrow> length x mod 256 = length y mod 256"
  by (subst hex_inj) (auto simp: length_crypto_def)

lemma bucket_given: "rateLimitBucket c scope identity action \<noteq> []"
  by (simp add: rateLimitBucket_def)

lemmas limit_simps = user_limits_def team_limits_def policy_of_def row_key_def digestBucket_def positiveInteger_def
  safe_integer_def max_safe_integer_def minute_def length_digests bucket_length bucket_given utf8_length_def

lemma enforce_pg: "enforceLimits (pg_limiter c) t inputs s = (case pg_consumeMany c t (map (policy_of c) inputs) s of
     (Inl e, s') \<Rightarrow> (Inl (LimiterFailed e), s')
   | (Inr ds, s') \<Rightarrow> (if 0 < largest_delay (map limit_decision ds)
       then Inl (SubmissionServiceError CodeRateLimited (largest_delay (map limit_decision ds))) else Inr (), s'))"
  by (simp add: enforceLimits_def consumeInputs_def pg_limiter_def RateLimitStoreSubmissionLimiter_def
      split: prod.splits sum.splits)

lemma service_fields: "sv_keyring service = Map.empty" "sv_validators service = [''echo'' \<mapsto> \<lambda>i. ReturnsBoolean (vi_submittedFlag i = ''flag{a}'')]"
  "sv_answers service = \<lparr>ap_encryptionKey = replicate 32 3, ap_digestKey = replicate 32 4\<rparr>"
  by (simp_all add: service_def)

definition entry_admission :: submission_admission where
  "entry_admission = (case admit open_cup \<lparr>sac_userId = ''a'', sac_contestId = ''cup'', sac_challengeId = ''w'',
     sac_at = 2000\<rparr> of Inr adm \<Rightarrow> adm)"

lemma entry_admitted: "admit open_cup \<lparr>sac_userId = ''a'', sac_contestId = ''cup'', sac_challengeId = ''w'',
    sac_at = 2000\<rparr> = Inr entry_admission"
proof -
  have "succeeds (admit open_cup \<lparr>sac_userId = ''a'', sac_contestId = ''cup'', sac_challengeId = ''w'', sac_at = 2000\<rparr>)"
    by code_simp
  then show ?thesis by (auto simp: entry_admission_def succeeds_def split: sum.splits)
qed

text \<open>On an empty table every counter starts at one.\<close>

definition first_decision :: "millis \<times> millis \<Rightarrow> rate_limit_policy \<Rightarrow> rate_limit_decision" where
  "first_decision t p = decision_of (rp_limit p) 1 (max 1 (window_start (fst t) (rp_windowMs p) + rp_windowMs p - snd t))"

lemma pg_rows_fresh:
  "distinct (map (row_key c (fst t)) ps) \<Longrightarrow> \<forall>p\<in>set ps. table (row_key c (fst t) p) = None \<Longrightarrow>
     fst (pg_consume_rows c t ps table) = map (first_decision t) ps"
proof (induction ps arbitrary: table)
  case (Cons p ps)
  obtain d table1 where 1: "pg_consume c t p table = (d, table1)" by fastforce
  then have "d = first_decision t p" "table1 = table(row_key c (fst t) p \<mapsto>
      \<lparr>rw_expires_at = window_start (fst t) (rp_windowMs p) + rp_windowMs p, rw_request_count = 1\<rparr>)"
    using Cons.prems(2) by (auto simp: pg_consume_def row_key_def first_decision_def Let_def)
  with Cons.prems have "\<forall>p\<in>set ps. table1 (row_key c (fst t) p) = None" by (auto simp: image_iff)
  with Cons.IH Cons.prems(1) have "fst (pg_consume_rows c t ps table1) = map (first_decision t) ps" by simp
  with 1 \<open>d = first_decision t p\<close> show ?case by (simp add: split_beta)
qed simp

lemma enforce_pg_allows:
  assumes "inputs \<noteq> []"
    and input: "case emap (\<lambda>p. ebind (digestBucket c (rp_bucket p)) (\<lambda>digest.
      ebind (positiveInteger (rp_limit p)) (\<lambda>_.
      ebind (positiveInteger (rp_windowMs p)) (\<lambda>windowMs. Inr (digest, windowMs))))) (map (policy_of c) inputs) of
        Inl e \<Rightarrow> False | Inr input \<Rightarrow> distinct input"
    and distinct: "distinct (map (row_key c (fst t)) (map (policy_of c) inputs))"
    and "list_all (\<lambda>p. rp_limit p < 2147483648) (map (policy_of c) inputs)"
    and delay: "largest_delay (map limit_decision (map (first_decision t) (map (policy_of c) inputs))) = 0"
  shows "\<exists>s. enforceLimits (pg_limiter c) t inputs Map.empty = (Inr (), s)"
proof -
  let ?ps = "map (policy_of c) inputs"
  obtain ds table where rows: "pg_consume_rows c t ?ps Map.empty = (ds, table)" by fastforce
  with pg_rows_fresh [OF distinct, of Map.empty] have ds: "ds = map (first_decision t) ?ps" by simp
  obtain i where "emap (\<lambda>p. ebind (digestBucket c (rp_bucket p)) (\<lambda>digest.
      ebind (positiveInteger (rp_limit p)) (\<lambda>_.
      ebind (positiveInteger (rp_windowMs p)) (\<lambda>windowMs. Inr (digest, windowMs))))) ?ps = Inr i" "distinct i"
    using input by (auto split: sum.splits)
  with rows assms(1,4) distinct have "pg_consumeMany c t ?ps Map.empty = (Inr ds, table)"
    by (simp add: pg_consumeMany_def)
  with delay show ?thesis by (simp add: enforce_pg ds)
qed

lemma user_rows: "distinct (map (row_key length_crypto (fst (2000, 2000))) (map (policy_of length_crypto) (user_limits ''a'' ''w'')))"
  by (simp add: limit_simps)

lemma team_rows: "distinct (map (row_key length_crypto (fst (2001, 2001))) (map (policy_of length_crypto) (team_limits ''r'' ''w'')))"
  by (simp add: limit_simps)

lemma user_input: "case emap (\<lambda>p. ebind (digestBucket length_crypto (rp_bucket p)) (\<lambda>digest.
      ebind (positiveInteger (rp_limit p)) (\<lambda>_.
      ebind (positiveInteger (rp_windowMs p)) (\<lambda>windowMs. Inr (digest, windowMs)))))
      (map (policy_of length_crypto) (user_limits ''a'' ''w'')) of Inl e \<Rightarrow> False | Inr input \<Rightarrow> distinct input"
  by (simp add: limit_simps)

lemma entry_user_limits: "\<exists>s. enforceLimits (pg_limiter length_crypto) (2000, 2000) (user_limits ''a'' ''w'') Map.empty = (Inr (), s)"
  by (rule enforce_pg_allows [OF _ user_input user_rows])
    (simp add: user_limits_def, simp add: user_limits_def policy_of_def,
     simp add: user_limits_def policy_of_def first_decision_def decision_of_def limit_decision_def largest_delay_def)

lemma team_input: "case emap (\<lambda>p. ebind (digestBucket length_crypto (rp_bucket p)) (\<lambda>digest.
      ebind (positiveInteger (rp_limit p)) (\<lambda>_.
      ebind (positiveInteger (rp_windowMs p)) (\<lambda>windowMs. Inr (digest, windowMs)))))
      (map (policy_of length_crypto) (team_limits ''r'' ''w'')) of Inl e \<Rightarrow> False | Inr input \<Rightarrow> distinct input"
  by (simp add: limit_simps)

lemma entry_team_limits: "\<exists>s. enforceLimits (pg_limiter length_crypto) (2001, 2001)
    (team_limits (adm_teamId entry_admission) ''w'') Map.empty = (Inr (), s)"
proof -
  have team: "adm_teamId entry_admission = ''r''" by code_simp
  show ?thesis unfolding team
    by (rule enforce_pg_allows [OF _ team_input team_rows])
      (simp add: team_limits_def, simp add: team_limits_def policy_of_def,
       simp add: team_limits_def policy_of_def first_decision_def decision_of_def limit_decision_def largest_delay_def)
qed

lemma entry_verified: "verify length_crypto Map.empty [''echo'' \<mapsto> \<lambda>i. ReturnsBoolean (vi_submittedFlag i = ''flag{a}'')] (verifier_input flag_entry entry_admission) = Inr True"
proof -
  have "adm_flagPolicy entry_admission = SynchronousFlag ''echo''" "adm_flagFormat entry_admission = None"
    by code_simp+
  then show ?thesis
    by (simp add: verify_def verifier_input_def entry_fields within_input_limit_def flagMatchesFormat_def has_format_def
        maximumFlagBytes_def length_utf8 utf8_length_def constantTimeEqual_def Let_def)
qed

lemma entry_appended: "succeeds (append_submission m (draw ''v'' 2002) (append_command (subject ''a'' UserRole) flag_entry
    entry_admission 2002 True (protect length_crypto \<lparr>ap_encryptionKey = replicate 32 3, ap_digestKey = replicate 32 4\<rparr>
      (replicate 12 5) ''flag{a}'' (answer_context (subject ''a'' UserRole) flag_entry entry_admission))) open_cup)"
  by code_simp

lemma flag_entry_result: "\<exists>r table db. verifyFlag m service flag_entry_call (subject ''a'' UserRole) flag_entry
    (Map.empty, open_cup) = (Inr r, table, db)"
proof -
  have allowed: "allow (subject ''a'' UserRole) FlagSubmit = (Inr () :: rate_limit_error submission_failure + unit)"
    by code_simp
  obtain r where "append_submission m (draw ''v'' 2002) (append_command (subject ''a'' UserRole) flag_entry
      entry_admission 2002 True (protect length_crypto \<lparr>ap_encryptionKey = replicate 32 3, ap_digestKey = replicate 32 4\<rparr>
        (replicate 12 5) ''flag{a}'' (answer_context (subject ''a'' UserRole) flag_entry entry_admission))) open_cup = Inr r"
    using entry_appended [of m] by (auto simp: succeeds_def split: sum.splits)
  then have "\<exists>r. verify_and_append m service flag_entry_call (subject ''a'' UserRole) flag_entry entry_admission open_cup
      = (Inr r :: rate_limit_error submission_failure + _)"
    by (cases r) (simp add: verify_and_append_def entry_fields service_fields entry_verified mapRepository_def Let_def)
  then show ?thesis using entry_user_limits entry_team_limits allowed
    by (auto simp: verifyFlag_def entry_fields entry_admitted mapRepository_def)
qed



definition bonus_input :: score_adjustment_input where
  "bonus_input = \<lparr>si_contestId = ''cup'', si_participationId = ''q'', si_pointsDelta = Some 5,
     si_reason = '' writeup bonus '', si_confirmed = True, si_requestId = ''e''\<rparr>"

lemma bonus_served: "succeeds (serviceRecordScoreAdjustment (draw ''a1'' 5000) 5000 (subject ''b'' OrganizerRole)
    bonus_input open_cup :: unit submission_failure + _)"
  by code_simp

theorem adjustment_guarded_witness:
  "\<exists>row db. readScoreAdjustmentByRequestId db ''e'' = Some row \<and> sa_reason row = ''writeup bonus''
     \<and> sa_created_by row = ''b''"
proof -
  obtain r db where "(serviceRecordScoreAdjustment (draw ''a1'' 5000) 5000 (subject ''b'' OrganizerRole)
      bonus_input open_cup :: unit submission_failure + _) = Inr (r, db)"
    using succeeds_committed [OF bonus_served] by blast
  moreover have "js_trim '' writeup bonus '' = ''writeup bonus''" by code_simp
  ultimately show ?thesis using adjustment_guarded by (fastforce simp: bonus_input_def subject_def)
qed

theorem services_refine_witness:
  "system_inv (snd (run_services exact_math \<lparr>un_nfkc = id, un_lower = id\<rparr> service
     [(draw ''red'' 10, subject ''a'' UserRole, CallCreateTeam (replicate 32 1) ''Red''),
      (draw ''pr'' 30, subject ''a'' UserRole, CallRegister ''cup'' None)] (Map.empty, platform)))"
proof -
  let ?calls = "[(draw ''red'' 10, subject ''a'' UserRole, CallCreateTeam (replicate 32 1) ''Red''),
      (draw ''pr'' 30, subject ''a'' UserRole, CallRegister ''cup'' None)]"
  obtain s' db' where run: "run_services exact_math \<lparr>un_nfkc = id, un_lower = id\<rparr> service ?calls (Map.empty, platform) = (s', db')"
    by (cases "run_services exact_math \<lparr>un_nfkc = id, un_lower = id\<rparr> service ?calls (Map.empty, platform)")
  from services_refine [OF run] fresh_platform_inv [OF platform_fresh] show ?thesis
    unfolding run snd_conv by blast
qed

end
