(* ===== verification/Scoreboard_Scenario.thy ===== *)
theory Scoreboard_Scenario
  imports Service_Scenario
begin

text \<open>
  The properties of the scoreboard applied on the contest of \<open>Service_Scenario\<close>, and the situations
  behind the findings: what a read answers after a late registration, during a freeze and on a retry.
\<close>

section \<open>The builder\<close>

definition cup_replay :: "js_math \<Rightarrow> contest_scoring_replay" where
  "cup_replay m = (case replay_contest m open_cup ''cup'' None of Inr r \<Rightarrow> r)"

lemma cup_replayed: "replay_contest m open_cup ''cup'' None = Inr (cup_replay m)"
proof -
  have "succeeds (replay_contest m open_cup ''cup'' None)" by code_simp
  then show ?thesis by (auto simp: cup_replay_def succeeds_def split: sum.splits)
qed

lemma cup_facts: "\<exists>facts. replayContestScoring m facts = Inr (cup_replay m)"
  using cup_replayed [of m] by (auto simp: replay_contest_def ebind_Inr_iff map_error_Inr)

lemma cup_builds: "succeeds (build (cup_replay m) Overall)" "succeeds (build (cup_replay m) (Division ''d''))"
  by code_simp+

theorem build_total_witness: "\<exists>board. build (cup_replay exact_math) (Division ''d'') = Inr board"
proof -
  have "js_trim ''d'' \<noteq> []" by code_simp
  with cup_facts build_total [of exact_math _ "cup_replay exact_math" "Division ''d''"] show ?thesis by auto
qed

theorem board_agrees_with_summary_witness:
  "\<exists>board. build (cup_replay exact_math) Overall = Inr board
     \<and> map sr_rank (rm_rows board) = map rk_rank (r_rankingSummary (cup_replay exact_math))"
proof -
  obtain facts where facts: "replayContestScoring exact_math facts = Inr (cup_replay exact_math)" using cup_facts by blast
  have "succeeds (build (cup_replay exact_math) Overall)" by (rule cup_builds)
  then obtain board where board: "build (cup_replay exact_math) Overall = Inr board" by (auto simp: succeeds_def split: sum.splits)
  from board_agrees_with_summary [OF facts this] have "map rk_rank (map (\<lambda>row. \<lparr>rk_rank = sr_rank row,
      rk_participationId = sr_participationId row, rk_teamId = sr_teamId row, rk_totalPoints = sr_totalPoints row,
      rk_lastScoringAt = sr_lastScoringAt row\<rparr>) (rm_rows board)) = map rk_rank (r_rankingSummary (cup_replay exact_math))" by simp
  with board show ?thesis by (simp add: comp_def)
qed

theorem division_board_restricts_witness:
  "\<exists>board sub. build (cup_replay exact_math) Overall = Inr board \<and> build (cup_replay exact_math) (Division ''d'') = Inr sub
     \<and> rm_challenges sub = rm_challenges board"
proof -
  have "succeeds (build (cup_replay exact_math) Overall)" "succeeds (build (cup_replay exact_math) (Division ''d''))"
    by (rule cup_builds)+
  then obtain board sub where "build (cup_replay exact_math) Overall = Inr board" "build (cup_replay exact_math) (Division ''d'') = Inr sub"
    by (auto simp: succeeds_def split: sum.splits)
  with division_board_restricts show ?thesis by blast
qed

section \<open>Reading\<close>

definition viewing :: "scoreboard_view \<Rightarrow> viewer_role \<Rightarrow> read_scoreboard_input" where
  "viewing view role = \<lparr>ri_contestId = ''cup'', ri_view = view, ri_viewerRole = role, ri_scope = Overall\<rparr>"

definition world_of :: "database \<Rightarrow> snapshot_table \<Rightarrow> world" where
  "world_of db rows = \<lparr>wd_db = db, wd_snapshots = rows, wd_others = [], wd_uuid = (\<lambda>k. ''n'' @ replicate k (CHR ''.''))\<rparr>"

lemma world_quiet: "quiet (world_of db rows)" "others_add (world_of db rows)" "wd_snapshots (world_of db rows) = rows"
  "wd_db (world_of db rows) = db"
  by (simp_all add: world_of_def quiet_def others_add_def)

text \<open>A public read while the contest runs: it shows version 2 and stores a row.\<close>

definition showing :: "int \<Rightarrow> projection_state \<Rightarrow> projection_freshness \<Rightarrow> view_error + scoreboard_projection \<Rightarrow> bool" where
  "showing n state freshness r = (case r of Inl _ \<Rightarrow> False
     | Inr p \<Rightarrow> pj_version p = n \<and> pj_state p = state \<and> pj_freshness p = freshness)"

lemma showing_Inr: "showing n state freshness (fst x) \<Longrightarrow> \<exists>p w. x = (Inr p, w) \<and> pj_version p = n \<and> pj_state p = state \<and> pj_freshness p = freshness"
  by (cases x) (auto simp: showing_def split: sum.splits)

lemma live_read: "showing 2 Live Current (fst (read_scoreboard m (viewing PublicView ViewerUser) (Date 6000) (world_of open_cup [])))"
  by code_simp

lemma frozen_read: "showing 2 Frozen Current (fst (read_scoreboard m (viewing PublicView ViewerUser) (Date 8500) (world_of open_cup [])))"
  by code_simp




theorem frozen_read_board_witness:
  "\<exists>p :: scoreboard_projection. pj_frozenAt p = Some (Iso 8000) \<and> board_of exact_math open_cup ''cup'' Overall (Some 8000) 2 (pj_board p)"
proof -
  obtain p w where p: "read_scoreboard exact_math (viewing PublicView ViewerUser) (Date 8500) (world_of open_cup []) = (Inr p, w)"
      "pj_version p = 2" "pj_state p = Frozen" using showing_Inr [OF frozen_read] by blast
  have "table_ok (wd_snapshots (world_of open_cup []))" by (simp add: world_quiet table_ok_def)
  from frozen_read_board [OF world_quiet(1) this p(1,3)] obtain contest z where
    c: "readContestState open_cup ''cup'' = Inr contest" "st_freezeAt contest = Some z" "pj_frozenAt p = Some (Iso z)"
    "board_of exact_math open_cup ''cup'' Overall (Some z) (pj_version p) (pj_board p)"
    by (auto simp: viewing_def scopeKeyFor_def world_quiet latest_row_def)
  from readContestState_row [OF c(1)] c(2) have "z = 8000" by (auto simp: open_cup_def cup_def)
  with c p(2) show ?thesis by auto
qed

end
