(* ===== verification/Divergences.thy ===== *)
theory Divergences
  imports Scoreboard_Scenario
begin

text \<open>
  Concrete situations in which the code departs from what its documentation or its own error handling
  says, on the contest of \<open>Service_Scenario\<close>.
\<close>

section \<open>A registration during the contest\<close>

text \<open>A third team registers and is accepted at once; the scoreboard version stays what it was.\<close>

definition late_cup :: database where
  "late_cup = committed open_cup (register_team (draw ''z'' 5500) ''c'' ''cup'' None open_cup)"

lemma late_cup_registered: "length (filter (\<lambda>p. pa_status p = Accepted) (db_participations late_cup)) = 3
    \<and> version_of late_cup ''cup'' = version_of open_cup ''cup''"
  by code_simp

text \<open>
  The internal board was stored for the version before. Reading it again replays the facts, gets a board
  with one more row, and fails on the stored one.
\<close>

theorem internal_read_conflicts:
  "case fst (read_scoreboard m (viewing InternalView ViewerAdmin) (Date 6000)
       ((snd (read_scoreboard m (viewing InternalView ViewerAdmin) (Date 5000) (world_of open_cup [])))\<lparr>wd_db := late_cup\<rparr>)) of
     Inl ScoreboardSnapshotConflict \<Rightarrow> True | _ \<Rightarrow> False"
  by code_simp

text \<open>The public board passes for current without the accepted team.\<close>

theorem public_board_misses_team:
  "case fst (read_scoreboard m (viewing PublicView ViewerUser) (Date 6000)
       ((snd (read_scoreboard m (viewing PublicView ViewerUser) (Date 5000) (world_of open_cup [])))\<lparr>wd_db := late_cup\<rparr>)) of
     Inr p \<Rightarrow> pj_freshness p = Current \<and> length (rm_rows (pj_board p)) = 2 | _ \<Rightarrow> False"
  by code_simp

section \<open>The freeze\<close>

text \<open>The contest as it was after the first solve.\<close>

definition early_cup :: database where
  "early_cup = open_cup\<lparr>db_submissions := [scored ''s'' ''p'' ''a'' 2000], db_solves := [solved ''s'' ''p'' 1 2000],
     db_scoreboard_versions := [\<lparr>bv_contest_id = ''cup'', bv_version = 1, bv_updated_at = 2000\<rparr>]\<rparr>"

text \<open>
  The public board was last read, and stored, after the first solve; the second solve came before the
  freeze. The frozen view shows version 1, the facts at the freeze are version 2.
\<close>

theorem frozen_view_lags:
  "showing 1 Frozen Current (fst (read_scoreboard m (viewing PublicView ViewerUser) (Date 8500)
     ((snd (read_scoreboard m (viewing PublicView ViewerUser) (Date 2500) (world_of early_cup [])))\<lparr>wd_db := open_cup\<rparr>)))
   \<and> showing 2 Frozen Current (fst (read_scoreboard m (viewing PublicView ViewerUser) (Date 8500) (world_of open_cup [])))"
  by code_simp

section \<open>A retried submission\<close>

text \<open>
  The only attempt the challenge allows has been stored. Repeating the request finds the stored
  submission in the repository, but the service refuses the request before it gets there.
\<close>

definition last_attempt :: database where
  "last_attempt = open_cup\<lparr>db_contest_challenges := map (\<lambda>c. c\<lparr>ch_submission_limit := Some 1\<rparr>) (db_contest_challenges open_cup)\<rparr>"

definition retried :: append_submission_command where
  "retried = \<lparr>sac_userId = ''a'', sac_contestId = ''cup'', sac_challengeId = ''w'', sac_at = 2000, asc_requestId = ''s'',
     asc_result = VerifiedCorrect, asc_answerDigest = [], asc_answerCiphertext = []\<rparr>"

theorem retry_refused:
  "fst (verifyFlag m service flag_entry_call (subject ''a'' UserRole) (flag_entry\<lparr>vf_requestId := ''s''\<rparr>) (Map.empty, last_attempt))
     = Inl (SubmissionServiceError CodeChallengeSubmissionLimitReached 0)
   \<and> succeeds (append_submission m (draw ''v'' 2002) retried last_attempt)"
proof
  have "case admit last_attempt \<lparr>sac_userId = ''a'', sac_contestId = ''cup'', sac_challengeId = ''w'', sac_at = 2000\<rparr> of
      Inl SubmissionLimitReached \<Rightarrow> True | _ \<Rightarrow> False" by code_simp
  then have "admit last_attempt \<lparr>sac_userId = ''a'', sac_contestId = ''cup'', sac_challengeId = ''w'', sac_at = 2000\<rparr>
      = Inl SubmissionLimitReached" by (auto split: sum.splits submission_error.splits)
  moreover have "allow (subject ''a'' UserRole) FlagSubmit = (Inr () :: rate_limit_error submission_failure + unit)"
    by code_simp
  ultimately show "fst (verifyFlag m service flag_entry_call (subject ''a'' UserRole) (flag_entry\<lparr>vf_requestId := ''s''\<rparr>)
      (Map.empty, last_attempt)) = Inl (SubmissionServiceError CodeChallengeSubmissionLimitReached 0)"
    using entry_user_limits by (auto simp: verifyFlag_def entry_fields mapRepository_def)
  show "succeeds (append_submission m (draw ''v'' 2002) retried last_attempt)" by code_simp
qed

section \<open>Ties\<close>

definition tied :: "uuid \<Rightarrow> uuid \<Rightarrow> replayed_participation_score" where
  "tied team p = \<lparr>ps_participationId = p, ps_teamId = team, ps_teamName = team, ps_divisionId = None, ps_status = Accepted,
     ps_solves = [], ps_officialSolveCount = 1, ps_solvePoints = 100, ps_adjustmentPoints = 0, ps_totalPoints = 100,
     ps_lastScoringAt = Some (Iso 2000)\<rparr>"

text \<open>Two participations tied on points and time are ordered by their team, against their own identifiers.\<close>

theorem tie_broken_by_team:
  "compareReplayedParticipationScores (tied ''a'' ''z'') (tied ''b'' ''y'') < 0 \<and> ''y'' < ''z''"
  by code_simp

end
