(* ===== verification/Contest_Tables.thy ===== *)
theory Contest_Tables
  imports Registration_Services System
begin

text \<open>
  The tables the administration of contests works on: contests and contest challenges with all their
  columns (the rows of \<open>Database\<close> are their columns the other repositories read), challenge templates
  with their immutable versions, assets, hints and content objects, with the constraints and triggers
  of \<open>server/db/schema.ts\<close> and of \<open>server/db/migrations\<close>. The whole platform is these tables and
  the rest of the database; \<open>db_of\<close> is the database the other components see.
\<close>

text \<open>\<open>x ?? d\<close>.\<close>

definition or_default :: "'a option \<Rightarrow> 'a \<Rightarrow> 'a" where
  "or_default x d = (case x of None \<Rightarrow> d | Some y \<Rightarrow> y)"

section \<open>Rows\<close>

datatype content_object_status = Temporary | Committed | Quarantined | ObjectDeleted

datatype challenge_category = Web | Pwn | Crypto | Reverse | Misc | Forensics

record managed_contest = contest_row +
  mc_slug :: string
  mc_description :: string
  mc_writeup_required :: bool
  mc_writeup_deadline_at :: "millis option"
  mc_published_at :: "millis option"
  mc_archived_at :: "millis option"
  mc_created_by :: uuid
  mc_version :: int
  mc_updated_at :: millis

record managed_challenge = contest_challenge_row +
  mh_source_template_id :: uuid
  mh_source_version_id :: uuid
  mh_snapshot_revision :: int
  mh_title :: string
  mh_category :: challenge_category
  mh_description :: string
  mh_instance_policy :: instance_policy
  mh_sort_order :: int
  mh_version :: int
  mh_created_at :: millis
  mh_updated_at :: millis

record content_object_row =
  ob_id :: uuid
  ob_status :: content_object_status
  ob_committed_at :: "millis option"

record template_row =
  tp_id :: uuid
  tp_name :: string
  tp_slug :: string
  tp_created_by :: uuid
  tp_latest_version :: int
  tp_version :: int
  tp_created_at :: millis
  tp_updated_at :: millis

record template_version_row =
  tv_id :: uuid
  tv_template_id :: uuid
  tv_version_number :: int
  tv_title :: string
  tv_category :: challenge_category
  tv_description :: string
  tv_flag_format :: "string option"
  tv_flag_policy :: flag_policy
  tv_scoring_policy :: scoring_policy
  tv_instance_policy :: instance_policy
  tv_created_by :: uuid
  tv_created_at :: millis

text \<open>Assets and hints; the owner is a template version or a contest challenge.\<close>

record asset_row =
  as_id :: uuid
  as_owner :: uuid
  as_content_object_id :: uuid
  as_display_name :: string
  as_sort_order :: int

record 'release hint_row =
  hi_id :: uuid
  hi_owner :: uuid
  hi_title :: string
  hi_content :: string
  hi_release :: "'release option"      \<comment> \<open>seconds after publication, or the time of release\<close>
  hi_sort_order :: int

section \<open>The platform\<close>

record platform =
  pl_rest :: database
  pl_contests :: "managed_contest list"
  pl_challenges :: "managed_challenge list"
  pl_assets :: "asset_row list"
  pl_hints :: "millis hint_row list"
  pl_templates :: "template_row list"
  pl_template_versions :: "template_version_row list"
  pl_template_assets :: "asset_row list"
  pl_template_hints :: "int hint_row list"
  pl_objects :: "content_object_row list"

definition db_of :: "platform \<Rightarrow> database" where
  "db_of p = (pl_rest p)\<lparr>db_contests := map contest_row.truncate (pl_contests p),
     db_contest_challenges := map contest_challenge_row.truncate (pl_challenges p)\<rparr>"

definition with_db :: "platform \<Rightarrow> database \<Rightarrow> platform" where
  "with_db p db = p\<lparr>pl_rest := db\<rparr>"

text \<open>What a statement raises: a constraint, or a trigger's refusal with SQLSTATE 55000.\<close>

datatype statement_error =
    Constraint pg_error
  | NotInState string

definition checked :: "pg_error + 'a \<Rightarrow> statement_error + 'a" where
  "checked x = map_error Constraint x"

definition audit :: "audit_event_row \<Rightarrow> platform \<Rightarrow> statement_error + platform" where
  "audit e p = ebind (checked (insert_audit_event e (db_of p))) (\<lambda>db. Inr (with_db p db))"

section \<open>Contests\<close>

text \<open>\<open>lower\<close> and \<open>toLowerCase\<close> on code units below 256.\<close>

definition lower_unit :: "char \<Rightarrow> char" where
  "lower_unit c = (let n = of_char c :: nat in
     if (65 \<le> n \<and> n \<le> 90) \<or> (192 \<le> n \<and> n \<le> 222 \<and> n \<noteq> 215) then char_of (n + 32) else c)"

definition toLowerCase :: "string \<Rightarrow> string" where
  "toLowerCase s = map lower_unit s"

text \<open>The shape of the \<open>registration_constraints\<close> column.\<close>

definition constraints_shape :: "json \<Rightarrow> bool" where
  "constraints_shape v = (case v of
     JObj obj \<Rightarrow> list_all (\<lambda>(k, _). k = ''allowed_email_domains'') obj
       \<and> (case map_of obj ''allowed_email_domains'' of None \<Rightarrow> True
          | Some (JArr _) \<Rightarrow> True | Some _ \<Rightarrow> False)
   | _ \<Rightarrow> False)"

definition contest_checks :: "managed_contest \<Rightarrow> (pg_error \<times> bool) list" where
  "contest_checks r = [
      (CheckViolation ''contests_slug_normalized'', mc_slug r = toLowerCase (mc_slug r)),
      (CheckViolation ''contests_time_window'', co_start_at r < co_end_at r),
      (CheckViolation ''contests_freeze_window'',
        (case co_scoreboard_freeze_at r of None \<Rightarrow> True
         | Some t \<Rightarrow> co_start_at r \<le> t \<and> t \<le> co_end_at r)),
      (CheckViolation ''contests_writeup_deadline'',
        (case mc_writeup_deadline_at r of None \<Rightarrow> True | Some t \<Rightarrow> co_end_at r \<le> t)),
      (CheckViolation ''contests_writeup_configuration'',
        mc_writeup_required r \<or> mc_writeup_deadline_at r = None),
      (CheckViolation ''contests_invite_configuration'',
        (co_invite_required r \<longrightarrow> co_invite_digest r \<noteq> None)
        \<and> (case co_invite_digest r of None \<Rightarrow> True | Some d \<Rightarrow> length d = 32)),
      (CheckViolation ''contests_team_size'',
        0 < co_min_team_size r \<and> co_min_team_size r \<le> co_max_team_size r \<and> co_max_team_size r \<le> 100),
      (CheckViolation ''contests_registration_constraints_shape'',
        constraints_shape (co_registration_constraints r)),
      (CheckViolation ''contests_publication_timestamps'',
        (case co_publication_status r of
           Draft \<Rightarrow> mc_published_at r = None \<and> mc_archived_at r = None
         | Published \<Rightarrow> mc_published_at r \<noteq> None \<and> mc_archived_at r = None
         | Archived \<Rightarrow> mc_published_at r \<noteq> None \<and> mc_archived_at r \<noteq> None)),
      (CheckViolation ''contests_version_positive'', 0 < mc_version r)]"

definition insert_contest :: "managed_contest \<Rightarrow> platform \<Rightarrow> pg_error + platform" where
  "insert_contest r p = ebind (constraints (contest_checks r @ [
      (UniqueViolation ''contests_pkey'', \<not> known co_id (pl_contests p) (co_id r)),
      (UniqueViolation ''contests_slug_unique'', \<not> known mc_slug (pl_contests p) (mc_slug r)),
      (ForeignKeyViolation ''contests_created_by'', known us_id (db_users (pl_rest p)) (mc_created_by r))]))
    (\<lambda>_. Inr (p\<lparr>pl_contests := pl_contests p @ [r]\<rparr>))"

text \<open>\<open>UPDATE contests SET ... WHERE id = $1\<close>; the updates keep the identifier and the creator.\<close>

definition update_contest ::
  "uuid \<Rightarrow> (managed_contest \<Rightarrow> managed_contest) \<Rightarrow> platform \<Rightarrow> pg_error + platform" where
  "update_contest ident f p = ebind (constraints
      (concat (map (\<lambda>r. contest_checks (f r) @ [(UniqueViolation ''contests_slug_unique'',
            \<not> known mc_slug (filter (\<lambda>q. co_id q \<noteq> ident) (pl_contests p)) (mc_slug (f r)))])
        (filter (\<lambda>r. co_id r = ident) (pl_contests p)))))
    (\<lambda>_. Inr (p\<lparr>pl_contests := map (\<lambda>r. if co_id r = ident then f r else r) (pl_contests p)\<rparr>))"

section \<open>Content objects, templates and their versions\<close>

text \<open>The trigger \<open>require_committed_content_object\<close>.\<close>

definition committed_object :: "platform \<Rightarrow> uuid \<Rightarrow> bool" where
  "committed_object p i \<longleftrightarrow> (case find (\<lambda>r. ob_id r = i) (pl_objects p) of
     None \<Rightarrow> False | Some r \<Rightarrow> ob_status r = Committed)"

definition insert_template :: "template_row \<Rightarrow> platform \<Rightarrow> pg_error + platform" where
  "insert_template r p = ebind (constraints [
      (CheckViolation ''challenge_templates_slug_normalized'', tp_slug r = toLowerCase (tp_slug r)),
      (CheckViolation ''challenge_templates_latest_version_nonnegative'', 0 \<le> tp_latest_version r),
      (CheckViolation ''challenge_templates_version_positive'', 0 < tp_version r),
      (UniqueViolation ''challenge_templates_pkey'', \<not> known tp_id (pl_templates p) (tp_id r)),
      (UniqueViolation ''challenge_templates_slug_unique'', \<not> known tp_slug (pl_templates p) (tp_slug r)),
      (ForeignKeyViolation ''challenge_templates_created_by'',
        known us_id (db_users (pl_rest p)) (tp_created_by r))])
    (\<lambda>_. Inr (p\<lparr>pl_templates := pl_templates p @ [r]\<rparr>))"

definition insert_template_version :: "template_version_row \<Rightarrow> platform \<Rightarrow> pg_error + platform" where
  "insert_template_version r p = ebind (constraints [
      (CheckViolation ''challenge_template_versions_number_positive'', 0 < tv_version_number r),
      (CheckViolation ''challenge_template_versions_title_not_empty'', tv_title r \<noteq> ''''),
      (CheckViolation ''challenge_template_versions_description_not_empty'', tv_description r \<noteq> ''''),
      (UniqueViolation ''challenge_template_versions_pkey'',
        \<not> known tv_id (pl_template_versions p) (tv_id r)),
      (UniqueViolation ''challenge_template_versions_number_unique'',
        \<not> known (\<lambda>v. (tv_template_id v, tv_version_number v)) (pl_template_versions p)
            (tv_template_id r, tv_version_number r)),
      (ForeignKeyViolation ''challenge_template_versions_template_id'',
        known tp_id (pl_templates p) (tv_template_id r)),
      (ForeignKeyViolation ''challenge_template_versions_created_by'',
        known us_id (db_users (pl_rest p)) (tv_created_by r))])
    (\<lambda>_. Inr (p\<lparr>pl_template_versions := pl_template_versions p @ [r]\<rparr>))"

definition insert_template_asset :: "asset_row \<Rightarrow> platform \<Rightarrow> pg_error + platform" where
  "insert_template_asset r p = ebind (constraints [
      (CheckViolation ''require_committed_content_object'', committed_object p (as_content_object_id r)),
      (CheckViolation ''challenge_template_assets_display_name_not_empty'',
        btrim (as_display_name r) \<noteq> ''''),
      (UniqueViolation ''challenge_template_assets_pkey'', \<not> known as_id (pl_template_assets p) (as_id r)),
      (UniqueViolation ''challenge_template_assets_version_object_unique'',
        \<not> known (\<lambda>a. (as_owner a, as_content_object_id a)) (pl_template_assets p)
            (as_owner r, as_content_object_id r)),
      (ForeignKeyViolation ''challenge_template_assets_template_version_id'',
        known tv_id (pl_template_versions p) (as_owner r))])
    (\<lambda>_. Inr (p\<lparr>pl_template_assets := pl_template_assets p @ [r]\<rparr>))"

definition insert_template_hint :: "int hint_row \<Rightarrow> platform \<Rightarrow> pg_error + platform" where
  "insert_template_hint r p = ebind (constraints [
      (CheckViolation ''challenge_template_hints_title_not_empty'', btrim (hi_title r) \<noteq> ''''),
      (CheckViolation ''challenge_template_hints_content_not_empty'', btrim (hi_content r) \<noteq> ''''),
      (CheckViolation ''challenge_template_hints_release_nonnegative'',
        (case hi_release r of None \<Rightarrow> True | Some s \<Rightarrow> 0 \<le> s)),
      (UniqueViolation ''challenge_template_hints_pkey'', \<not> known hi_id (pl_template_hints p) (hi_id r)),
      (ForeignKeyViolation ''challenge_template_hints_template_version_id'',
        known tv_id (pl_template_versions p) (hi_owner r))])
    (\<lambda>_. Inr (p\<lparr>pl_template_hints := pl_template_hints p @ [r]\<rparr>))"

section \<open>Contest challenges\<close>

definition status_of :: "platform \<Rightarrow> uuid \<Rightarrow> contest_publication_status option" where
  "status_of p contestId = map_option co_publication_status (find (\<lambda>r. co_id r = contestId) (pl_contests p))"

definition challenge_checks :: "managed_challenge \<Rightarrow> (pg_error \<times> bool) list" where
  "challenge_checks r = [
      (CheckViolation ''contest_challenges_snapshot_revision_positive'', 0 < mh_snapshot_revision r),
      (CheckViolation ''contest_challenges_publish_window'',
        (case (ch_close_at r, ch_publish_at r) of (Some c, Some t) \<Rightarrow> t < c | _ \<Rightarrow> True)),
      (CheckViolation ''contest_challenges_submission_limit_positive'',
        (case ch_submission_limit r of None \<Rightarrow> True | Some n \<Rightarrow> 0 < n)),
      (CheckViolation ''contest_challenges_version_positive'', 0 < mh_version r)]"

text \<open>Insertion with the trigger \<open>guard_contest_challenge_snapshot_change\<close> before it.\<close>

definition insert_challenge :: "managed_challenge \<Rightarrow> platform \<Rightarrow> statement_error + platform" where
  "insert_challenge r p =
     (case status_of p (ch_contest_id r) of
        None \<Rightarrow> Inl (Constraint (ForeignKeyViolation ''contest_challenges_snapshot_guard''))
      | Some status \<Rightarrow>
          if status \<noteq> Draft then Inl (NotInState ''contest_challenges_snapshot_guard'')
          else ebind (checked (constraints (challenge_checks r @ [
              (UniqueViolation ''contest_challenges_pkey'', \<not> known ch_id (pl_challenges p) (ch_id r)),
              (UniqueViolation ''contest_challenges_contest_title_unique'',
                \<not> known (\<lambda>c. (ch_contest_id c, mh_title c)) (pl_challenges p)
                    (ch_contest_id r, mh_title r)),
              (ForeignKeyViolation ''contest_challenges_source_template_id'',
                known tp_id (pl_templates p) (mh_source_template_id r)),
              (ForeignKeyViolation ''contest_challenges_source_version_fk'',
                known (\<lambda>v. (tv_template_id v, tv_id v)) (pl_template_versions p)
                  (mh_source_template_id r, mh_source_version_id r))])))
            (\<lambda>_. Inr (p\<lparr>pl_challenges := pl_challenges p @ [r]\<rparr>)))"

text \<open>The columns the trigger compares on a published contest.\<close>

definition fair_columns :: "managed_challenge \<Rightarrow> managed_challenge" where
  "fair_columns r = r\<lparr>mh_snapshot_revision := 0, mh_version := 0, mh_created_at := 0, mh_updated_at := 0\<rparr>"

text \<open>
  The guard of an update; \<open>revision\<close> says whether the transaction has set
  \<open>sauryctf.challenge_revision\<close> to \<open>allowed\<close>.
\<close>

definition snapshot_guard ::
  "bool \<Rightarrow> platform \<Rightarrow> managed_challenge \<Rightarrow> managed_challenge \<Rightarrow> statement_error + unit" where
  "snapshot_guard revision p old new =
     (case status_of p (ch_contest_id new) of
        None \<Rightarrow> Inl (Constraint (ForeignKeyViolation ''contest_challenges_snapshot_guard''))
      | Some status \<Rightarrow>
          if ch_contest_id new \<noteq> ch_contest_id old \<or> mh_source_template_id new \<noteq> mh_source_template_id old
             \<or> mh_source_version_id new \<noteq> mh_source_version_id old
          then Inl (NotInState ''contest_challenges_snapshot_guard'')
          else if status = Archived then Inl (NotInState ''contest_challenges_snapshot_guard'')
          else if status = Published \<and> \<not> revision \<and> fair_columns new \<noteq> fair_columns old
          then Inl (NotInState ''contest_challenges_snapshot_guard'')
          else Inr ())"

definition update_challenge ::
  "bool \<Rightarrow> (managed_challenge \<Rightarrow> bool) \<Rightarrow> (managed_challenge \<Rightarrow> managed_challenge) \<Rightarrow> platform
    \<Rightarrow> statement_error + (nat \<times> platform)" where
  "update_challenge revision sel f p =
     (let hit = filter sel (pl_challenges p) in
      ebind (emap (\<lambda>r. snapshot_guard revision p r (f r)) hit) (\<lambda>_.
      ebind (checked (constraints (concat (map (\<lambda>r. challenge_checks (f r) @ [
          (UniqueViolation ''contest_challenges_contest_title_unique'',
            \<not> known (\<lambda>c. (ch_contest_id c, mh_title c)) (filter (\<lambda>c. ch_id c \<noteq> ch_id r) (pl_challenges p))
                (ch_contest_id (f r), mh_title (f r)))]) hit)))) (\<lambda>_.
      Inr (length hit, p\<lparr>pl_challenges := map (\<lambda>r. if sel r then f r else r) (pl_challenges p)\<rparr>))))"

text \<open>The trigger \<open>guard_contest_challenge_child_change\<close> of the assets and hints of a challenge.\<close>

definition child_guard :: "bool \<Rightarrow> platform \<Rightarrow> uuid \<Rightarrow> statement_error + unit" where
  "child_guard revision p challengeId =
     (let status = (case find (\<lambda>c. ch_id c = challengeId) (pl_challenges p) of
          None \<Rightarrow> None | Some c \<Rightarrow> status_of p (ch_contest_id c)) in
      if status = Some Archived then Inl (NotInState ''challenge_assets_snapshot_guard'')
      else if status = Some Published \<and> \<not> revision then Inl (NotInState ''challenge_assets_snapshot_guard'')
      else Inr ())"

definition insert_asset :: "bool \<Rightarrow> asset_row \<Rightarrow> platform \<Rightarrow> statement_error + platform" where
  "insert_asset revision r p = ebind (checked (constraints [
      (CheckViolation ''require_committed_content_object'', committed_object p (as_content_object_id r))]))
    (\<lambda>_. ebind (child_guard revision p (as_owner r)) (\<lambda>_. ebind (checked (constraints [
      (CheckViolation ''challenge_assets_display_name_not_empty'', as_display_name r \<noteq> ''''),
      (UniqueViolation ''challenge_assets_pkey'', \<not> known as_id (pl_assets p) (as_id r)),
      (UniqueViolation ''challenge_assets_challenge_object_unique'',
        \<not> known (\<lambda>a. (as_owner a, as_content_object_id a)) (pl_assets p)
            (as_owner r, as_content_object_id r)),
      (ForeignKeyViolation ''challenge_assets_contest_challenge_id'',
        known ch_id (pl_challenges p) (as_owner r))]))
    (\<lambda>_. Inr (p\<lparr>pl_assets := pl_assets p @ [r]\<rparr>))))"

definition insert_hint :: "bool \<Rightarrow> millis hint_row \<Rightarrow> platform \<Rightarrow> statement_error + platform" where
  "insert_hint revision r p = ebind (child_guard revision p (hi_owner r)) (\<lambda>_.
    ebind (checked (constraints [
      (CheckViolation ''challenge_hints_content_not_empty'', hi_content r \<noteq> ''''),
      (UniqueViolation ''challenge_hints_pkey'', \<not> known hi_id (pl_hints p) (hi_id r)),
      (ForeignKeyViolation ''challenge_hints_contest_challenge_id'',
        known ch_id (pl_challenges p) (hi_owner r))]))
    (\<lambda>_. Inr (p\<lparr>pl_hints := pl_hints p @ [r]\<rparr>)))"

text \<open>The deletions of a revision; the guard runs for each row deleted.\<close>

definition delete_assets :: "bool \<Rightarrow> uuid \<Rightarrow> platform \<Rightarrow> statement_error + platform" where
  "delete_assets revision challengeId p =
     ebind (emap (\<lambda>a. child_guard revision p (as_owner a))
       (filter (\<lambda>a. as_owner a = challengeId) (pl_assets p))) (\<lambda>_.
     Inr (p\<lparr>pl_assets := filter (\<lambda>a. as_owner a \<noteq> challengeId) (pl_assets p)\<rparr>))"

definition delete_hints :: "bool \<Rightarrow> uuid \<Rightarrow> platform \<Rightarrow> statement_error + platform" where
  "delete_hints revision challengeId p =
     ebind (emap (\<lambda>h. child_guard revision p (hi_owner h))
       (filter (\<lambda>h. hi_owner h = challengeId) (pl_hints p))) (\<lambda>_.
     Inr (p\<lparr>pl_hints := filter (\<lambda>h. hi_owner h \<noteq> challengeId) (pl_hints p)\<rparr>))"

section \<open>What a successful statement has done\<close>

lemma checked_Inr [simp]: "checked x = Inr a \<longleftrightarrow> x = Inr a"
  by (simp add: checked_def)

lemma with_db_simps [simp]:
  "pl_rest (with_db p db) = db" "pl_contests (with_db p db) = pl_contests p"
  "pl_challenges (with_db p db) = pl_challenges p" "pl_assets (with_db p db) = pl_assets p"
  "pl_hints (with_db p db) = pl_hints p" "pl_templates (with_db p db) = pl_templates p"
  "pl_template_versions (with_db p db) = pl_template_versions p"
  "pl_template_assets (with_db p db) = pl_template_assets p"
  "pl_template_hints (with_db p db) = pl_template_hints p" "pl_objects (with_db p db) = pl_objects p"
  by (simp_all add: with_db_def)

end
