(* ===== verification/Contest_Repository.thy ===== *)
theory Contest_Repository
  imports Contest_Tables
begin

text \<open>
  \<open>server/infrastructure/db/contest-repository.ts\<close> with the records and errors of
  \<open>server/domains/contests/repository.ts\<close>: drafts and their optimistic updates, the check before
  publication, publication and archiving. Times in audit entries are their time values, and Chinese texts are
  rendered in English.
\<close>

section \<open>Records, commands and errors\<close>

record contest_record =
  cn_id :: uuid
  cn_title :: string
  cn_slug :: string
  cn_description :: string
  cn_publicationStatus :: contest_publication_status
  cn_phase :: "contest_time_phase option"
  cn_visibility :: contest_visibility
  cn_inviteRequired :: bool
  cn_inviteConfigured :: bool
  cn_registrationStrategy :: registration_strategy
  cn_startAt :: millis
  cn_endAt :: millis
  cn_scoreboardFreezeAt :: "millis option"
  cn_practiceEnabled :: bool
  cn_writeupRequired :: bool
  cn_writeupDeadlineAt :: "millis option"
  cn_minTeamSize :: int
  cn_maxTeamSize :: int
  cn_allowedEmailDomains :: "string list"
  cn_publishedAt :: "millis option"
  cn_archivedAt :: "millis option"
  cn_version :: int

text \<open>The columns both commands set.\<close>

record contest_settings =
  cs_title :: string
  cs_slug :: string
  cs_description :: string
  cs_visibility :: contest_visibility
  cs_inviteRequired :: bool
  cs_inviteDigest :: "bytes option"
  cs_registrationStrategy :: registration_strategy
  cs_startAt :: millis
  cs_endAt :: millis
  cs_scoreboardFreezeAt :: "millis option"
  cs_practiceEnabled :: bool
  cs_writeupRequired :: bool
  cs_writeupDeadlineAt :: "millis option"
  cs_minTeamSize :: int
  cs_maxTeamSize :: int
  cs_allowedEmailDomains :: "string list"

record create_draft_command = contest_settings +
  cdc_actorId :: uuid
  cdc_requestId :: string

record update_draft_command = contest_settings +
  udc_actorId :: uuid
  udc_requestId :: string
  udc_contestId :: uuid
  udc_expectedVersion :: int
  udc_reason :: string
  udc_replaceInviteDigest :: bool

record contest_lifecycle_command =
  clc_actorId :: uuid
  clc_requestId :: string
  clc_contestId :: uuid
  clc_reason :: string

text \<open>
  The issues of the check before publication: code, resource and its title (\<open>None\<close>: blank). The
  field below a policy that the schema library reports is not part of the model.
\<close>

datatype publication_issue =
    ChallengeRequired uuid
  | TitleMissing uuid "string option"
  | DescriptionMissing uuid "string option"
  | PublicationTimeInvalid uuid "string option"
  | FlagPolicyInvalid uuid "string option"
  | ScoringPolicyInvalid uuid "string option"
  | InstancePolicyInvalid uuid "string option"
  | AssetUnavailable uuid uuid string      \<comment> \<open>challenge, asset, display name\<close>

record publication_check =
  pk_ready :: bool
  pk_issues :: "publication_issue list"

datatype contest_error =
    ContestNotFound
  | ContestSlugConflict
  | ContestTransitionInvalid
  | ContestNotEnded
  | ContestConfigurationLocked
  | ContestVersionConflict
  | ContestPublicationCheckFailed "publication_issue list"    \<comment> \<open>of a check that is not ready\<close>
  | ContestConstraintsMalformed            \<comment> \<open>the \<open>TypeError\<close> of \<open>registrationConstraints\<close>\<close>
  | ContestDatabaseError statement_error

definition cpg :: "statement_error + 'a \<Rightarrow> contest_error + 'a" where
  "cpg x = map_error ContestDatabaseError x"

section \<open>Reading\<close>

fun json_text :: "json \<Rightarrow> string option" where
  "json_text (JStr s) = Some s"
| "json_text _ = None"

definition registrationConstraints :: "json \<Rightarrow> contest_error + string list" where
  "registrationConstraints v =
     (case v of
        JObj obj \<Rightarrow>
          (case map_of obj ''allowed_email_domains'' of
             Some (JArr ds) \<Rightarrow>
               if \<exists>d\<in>set ds. json_text d = None then Inl ContestConstraintsMalformed
               else Inr (map (\<lambda>d. the (json_text d)) ds)
           | _ \<Rightarrow> Inl ContestConstraintsMalformed)
      | _ \<Rightarrow> Inl ContestConstraintsMalformed)"

definition constraints_json :: "string list \<Rightarrow> json" where
  "constraints_json domains = JObj [(''allowed_email_domains'', JArr (map JStr domains))]"

text \<open>The phase column of the query.\<close>

definition contest_phase :: "tx_env \<Rightarrow> managed_contest \<Rightarrow> contest_time_phase option" where
  "contest_phase env r =
     (case co_publication_status r of
        Draft \<Rightarrow> None
      | Archived \<Rightarrow> Some Ended
      | Published \<Rightarrow> Some (derive_contest_time_phase (co_start_at r) (co_end_at r) (env_now env)))"

definition contest_record_of :: "tx_env \<Rightarrow> managed_contest \<Rightarrow> contest_error + contest_record" where
  "contest_record_of env r =
     ebind (registrationConstraints (co_registration_constraints r)) (\<lambda>domains.
     Inr \<lparr>cn_id = co_id r, cn_title = co_title r, cn_slug = mc_slug r, cn_description = mc_description r,
       cn_publicationStatus = co_publication_status r, cn_phase = contest_phase env r,
       cn_visibility = co_visibility r, cn_inviteRequired = co_invite_required r,
       cn_inviteConfigured = (co_invite_digest r \<noteq> None),
       cn_registrationStrategy = co_registration_strategy r, cn_startAt = co_start_at r,
       cn_endAt = co_end_at r, cn_scoreboardFreezeAt = co_scoreboard_freeze_at r,
       cn_practiceEnabled = co_practice_enabled r, cn_writeupRequired = mc_writeup_required r,
       cn_writeupDeadlineAt = mc_writeup_deadline_at r, cn_minTeamSize = co_min_team_size r,
       cn_maxTeamSize = co_max_team_size r, cn_allowedEmailDomains = domains,
       cn_publishedAt = mc_published_at r, cn_archivedAt = mc_archived_at r, cn_version = mc_version r\<rparr>)"

definition find_contest :: "platform \<Rightarrow> uuid \<Rightarrow> managed_contest option" where
  "find_contest p contestId = find (\<lambda>r. co_id r = contestId) (pl_contests p)"

definition readManaged :: "tx_env \<Rightarrow> platform \<Rightarrow> uuid \<Rightarrow> contest_error + contest_record" where
  "readManaged env p contestId =
     (case find_contest p contestId of None \<Rightarrow> Inl ContestNotFound | Some r \<Rightarrow> contest_record_of env r)"

definition readPublic :: "tx_env \<Rightarrow> platform \<Rightarrow> uuid \<Rightarrow> contest_error + contest_record" where
  "readPublic env p contestId =
     (case find (\<lambda>r. co_id r = contestId \<and> co_visibility r = PublicContest
          \<and> co_publication_status r \<in> {Published, Archived}) (pl_contests p) of
        None \<Rightarrow> Inl ContestNotFound | Some r \<Rightarrow> contest_record_of env r)"

section \<open>The check before publication\<close>

definition resource_title :: "string \<Rightarrow> string option" where
  "resource_title title = (let t = js_trim title in if t = '''' then None else Some t)"

text \<open>\<open>firstChallengePolicyIssue\<close> finds an issue exactly when the schema refuses the policy.\<close>

definition challenge_issues :: "managed_contest \<Rightarrow> managed_challenge \<Rightarrow> publication_issue list" where
  "challenge_issues contest c =
     (let i = ch_id c; t = resource_title (mh_title c) in
      (if js_trim (mh_title c) = '''' then [TitleMissing i t] else [])
      @ (if js_trim (mh_description c) = '''' then [DescriptionMissing i t] else [])
      @ (case ch_publish_at c of
           None \<Rightarrow> []
         | Some time \<Rightarrow> if time < co_start_at contest \<or> co_end_at contest < time
             then [PublicationTimeInvalid i t] else [])
      @ (if challengeFlagPolicySchema (ch_flag_policy c) = None then [FlagPolicyInvalid i t] else [])
      @ (if challengeScoringPolicySchema (ch_scoring_policy c) = None then [ScoringPolicyInvalid i t] else [])
      @ (if challengeInstancePolicySchema (mh_instance_policy c) = None
         then [InstancePolicyInvalid i t] else []))"

definition enabled_challenges :: "platform \<Rightarrow> uuid \<Rightarrow> managed_challenge list" where
  "enabled_challenges p contestId = sort_key (\<lambda>c. (mh_sort_order c, ch_id c))
     (filter (\<lambda>c. ch_contest_id c = contestId \<and> ch_enabled c) (pl_challenges p))"

text \<open>The assets of the enabled challenges joined with their content objects.\<close>

definition contest_assets :: "platform \<Rightarrow> uuid \<Rightarrow> (managed_challenge \<times> asset_row \<times> content_object_row) list" where
  "contest_assets p contestId = sort_key (\<lambda>(c, a, _). (mh_sort_order c, as_sort_order a, as_id a))
     [(c, a, b). a \<leftarrow> pl_assets p, c \<leftarrow> pl_challenges p, b \<leftarrow> pl_objects p, ch_id c = as_owner a,
        ob_id b = as_content_object_id a, ch_contest_id c = contestId, ch_enabled c]"

definition asset_issue :: "managed_challenge \<times> asset_row \<times> content_object_row \<Rightarrow> publication_issue list" where
  "asset_issue = (\<lambda>(c, a, b). if ob_status b = Committed \<and> ob_committed_at b \<noteq> None then []
     else [AssetUnavailable (as_owner a) (as_id a) (as_display_name a)])"

definition publicationCheck :: "platform \<Rightarrow> uuid \<Rightarrow> contest_error + publication_check" where
  "publicationCheck p contestId =
     (case find_contest p contestId of
        None \<Rightarrow> Inl ContestNotFound
      | Some contest \<Rightarrow>
          (let challenges = enabled_challenges p contestId in
           if challenges = []
           then Inr \<lparr>pk_ready = False, pk_issues = [ChallengeRequired contestId]\<rparr>
           else (let issues = concat (map (challenge_issues contest) challenges)
                     @ concat (map asset_issue (contest_assets p contestId)) in
             Inr \<lparr>pk_ready = (issues = []), pk_issues = issues\<rparr>)))"

section \<open>Writing\<close>

definition contest_audit ::
  "tx_env \<Rightarrow> nat \<Rightarrow> uuid \<Rightarrow> string \<Rightarrow> uuid \<Rightarrow> string \<Rightarrow> string \<Rightarrow> (string \<times> json) list \<Rightarrow> audit_event_row" where
  "contest_audit env k actorId requestId contestId action reason changes =
     \<lparr>au_id = env_uuid env k, au_actor_user_id = Some actorId, au_action = action,
      au_target_type = ''contest'', au_target_id = Some contestId, au_reason = Some reason,
      au_request_id = requestId, au_changes = changes, au_metadata = [], au_occurred_at = env_now env\<rparr>"

fun publication_text :: "contest_publication_status \<Rightarrow> string" where
  "publication_text Draft = ''draft''"
| "publication_text Published = ''published''"
| "publication_text Archived = ''archived''"

fun visibility_text :: "contest_visibility \<Rightarrow> string" where
  "visibility_text PublicContest = ''public''"
| "visibility_text PrivateContest = ''private''"

fun strategy_text :: "registration_strategy \<Rightarrow> string" where
  "strategy_text Review = ''review''"
| "strategy_text AutoAccept = ''auto_accept''"

definition json_time :: "millis option \<Rightarrow> json" where
  "json_time t = (case t of None \<Rightarrow> JNull | Some t \<Rightarrow> JNum t)"

text \<open>The columns of a settings record on a row; the invitation's digest is set apart.\<close>

definition with_settings :: "'a contest_settings_scheme \<Rightarrow> managed_contest \<Rightarrow> managed_contest" where
  "with_settings s r = r\<lparr>co_title := cs_title s, mc_slug := cs_slug s, mc_description := cs_description s,
     co_visibility := cs_visibility s, co_invite_required := cs_inviteRequired s,
     co_registration_strategy := cs_registrationStrategy s, co_start_at := cs_startAt s,
     co_end_at := cs_endAt s, co_scoreboard_freeze_at := cs_scoreboardFreezeAt s,
     co_practice_enabled := cs_practiceEnabled s, mc_writeup_required := cs_writeupRequired s,
     mc_writeup_deadline_at := cs_writeupDeadlineAt s, co_min_team_size := cs_minTeamSize s,
     co_max_team_size := cs_maxTeamSize s,
     co_registration_constraints := constraints_json (cs_allowedEmailDomains s)\<rparr>"

definition new_draft :: "tx_env \<Rightarrow> create_draft_command \<Rightarrow> managed_contest" where
  "new_draft env command = with_settings command
     \<lparr>co_id = env_uuid env 0, co_title = '''', co_publication_status = Draft,
      co_visibility = PublicContest, co_registration_strategy = Review, co_invite_required = False,
      co_invite_digest = cs_inviteDigest command, co_start_at = 0, co_end_at = 0,
      co_scoreboard_freeze_at = None, co_practice_enabled = False, co_min_team_size = 1,
      co_max_team_size = 5, co_registration_constraints = JObj [], mc_slug = '''', mc_description = '''',
      mc_writeup_required = False, mc_writeup_deadline_at = None, mc_published_at = None,
      mc_archived_at = None, mc_created_by = cdc_actorId command, mc_version = 1,
      mc_updated_at = env_now env\<rparr>"

text \<open>The transaction wrapper: a conflict on the slug has its own error.\<close>

fun map_slug_conflict :: "contest_error \<Rightarrow> contest_error" where
  "map_slug_conflict (ContestDatabaseError (Constraint (UniqueViolation c))) =
     (if c = ''contests_slug_unique'' then ContestSlugConflict
      else ContestDatabaseError (Constraint (UniqueViolation c)))"
| "map_slug_conflict e = e"

definition createDraft ::
  "tx_env \<Rightarrow> create_draft_command \<Rightarrow> platform \<Rightarrow> contest_error + (contest_record \<times> platform)" where
  "createDraft env command p = map_error map_slug_conflict (
     let contestId = env_uuid env 0 in
     ebind (cpg (checked (insert_contest (new_draft env command) p))) (\<lambda>p1.
     ebind (cpg (audit (contest_audit env 1 (cdc_actorId command) (cdc_requestId command) contestId
        ''contest.created'' ''create draft'' [(''publication_status'', JStr ''draft''),
          (''visibility'', JStr (visibility_text (cs_visibility command))),
          (''invite_required'', JBool (cs_inviteRequired command)),
          (''invite_configured'', JBool (cs_inviteDigest command \<noteq> None)),
          (''registration_strategy'', JStr (strategy_text (cs_registrationStrategy command))),
          (''practice_enabled'', JBool (cs_practiceEnabled command)),
          (''writeup_required'', JBool (cs_writeupRequired command))]) p1)) (\<lambda>p2.
     ebind (readManaged env p2 contestId) (\<lambda>r. Inr (r, p2)))))"

definition updated_draft :: "tx_env \<Rightarrow> update_draft_command \<Rightarrow> managed_contest \<Rightarrow> managed_contest" where
  "updated_draft env command r = (with_settings command r)\<lparr>
     co_invite_digest := (if udc_replaceInviteDigest command then cs_inviteDigest command
       else co_invite_digest r),
     mc_version := mc_version r + 1, mc_updated_at := env_now env\<rparr>"

definition update_changes :: "update_draft_command \<Rightarrow> (string \<times> json) list" where
  "update_changes command = [(''title'', JStr (cs_title command)), (''slug'', JStr (cs_slug command)),
     (''visibility'', JStr (visibility_text (cs_visibility command))),
     (''invite_required'', JBool (cs_inviteRequired command)),
     (''invite_replaced'', JBool (udc_replaceInviteDigest command)),
     (''registration_strategy'', JStr (strategy_text (cs_registrationStrategy command))),
     (''start_at'', JNum (cs_startAt command)), (''end_at'', JNum (cs_endAt command)),
     (''scoreboard_freeze_at'', json_time (cs_scoreboardFreezeAt command)),
     (''practice_enabled'', JBool (cs_practiceEnabled command)),
     (''writeup_required'', JBool (cs_writeupRequired command)),
     (''writeup_deadline_at'', json_time (cs_writeupDeadlineAt command)),
     (''min_team_size'', JNum (cs_minTeamSize command)), (''max_team_size'', JNum (cs_maxTeamSize command)),
     (''registration_constraints'', constraints_json (cs_allowedEmailDomains command))]"

definition updateDraft ::
  "tx_env \<Rightarrow> update_draft_command \<Rightarrow> platform \<Rightarrow> contest_error + (contest_record \<times> platform)" where
  "updateDraft env command p = map_error map_slug_conflict (
     case find_contest p (udc_contestId command) of
       None \<Rightarrow> Inl ContestNotFound
     | Some current \<Rightarrow>
         if co_publication_status current \<noteq> Draft then Inl ContestConfigurationLocked
         else if mc_version current \<noteq> udc_expectedVersion command then Inl ContestVersionConflict
         else
           ebind (cpg (checked (update_contest (udc_contestId command) (updated_draft env command) p))) (\<lambda>p1.
           ebind (cpg (audit (contest_audit env 0 (udc_actorId command) (udc_requestId command)
              (udc_contestId command) ''contest.configuration_updated'' (udc_reason command)
              (update_changes command)) p1)) (\<lambda>p2.
           ebind (readManaged env p2 (udc_contestId command)) (\<lambda>r. Inr (r, p2)))))"

datatype lifecycle_target = ToPublished | ToArchived

fun target_status :: "lifecycle_target \<Rightarrow> contest_publication_status" where
  "target_status ToPublished = Published"
| "target_status ToArchived = Archived"

fun source_status :: "lifecycle_target \<Rightarrow> contest_publication_status" where
  "source_status ToPublished = Draft"
| "source_status ToArchived = Published"

fun target_action :: "lifecycle_target \<Rightarrow> string" where
  "target_action ToPublished = ''contest.published''"
| "target_action ToArchived = ''contest.archived''"

fun moved_contest :: "tx_env \<Rightarrow> lifecycle_target \<Rightarrow> managed_contest \<Rightarrow> managed_contest" where
  "moved_contest env ToPublished r = r\<lparr>co_publication_status := Published,
     mc_published_at := Some (env_now env), mc_version := mc_version r + 1, mc_updated_at := env_now env\<rparr>"
| "moved_contest env ToArchived r = r\<lparr>co_publication_status := Archived,
     mc_archived_at := Some (env_now env), mc_version := mc_version r + 1, mc_updated_at := env_now env\<rparr>"

definition check_ready :: "platform \<Rightarrow> uuid \<Rightarrow> contest_error + unit" where
  "check_ready p contestId = ebind (publicationCheck p contestId) (\<lambda>check.
     if pk_ready check then Inr () else Inl (ContestPublicationCheckFailed (pk_issues check)))"

definition transition ::
  "tx_env \<Rightarrow> contest_lifecycle_command \<Rightarrow> lifecycle_target \<Rightarrow> platform
    \<Rightarrow> contest_error + (contest_record \<times> platform)" where
  "transition env command target p =
     (case find_contest p (clc_contestId command) of
        None \<Rightarrow> Inl ContestNotFound
      | Some current \<Rightarrow>
          if co_publication_status current \<noteq> source_status target then Inl ContestTransitionInvalid
          else if target = ToArchived \<and> derive_contest_time_phase (co_start_at current)
              (co_end_at current) (env_now env) \<noteq> Ended then Inl ContestNotEnded
          else ebind (if target = ToPublished then check_ready p (clc_contestId command) else Inr ()) (\<lambda>_.
           ebind (cpg (checked (update_contest (clc_contestId command) (moved_contest env target) p))) (\<lambda>p1.
           ebind (cpg (audit (contest_audit env 0 (clc_actorId command) (clc_requestId command)
              (clc_contestId command) (target_action target) (clc_reason command)
              [(''publication_status'', JStr (publication_text (target_status target)))]) p1)) (\<lambda>p2.
           ebind (readManaged env p2 (clc_contestId command)) (\<lambda>r. Inr (r, p2))))))"

definition publish_contest ::
  "tx_env \<Rightarrow> contest_lifecycle_command \<Rightarrow> platform \<Rightarrow> contest_error + (contest_record \<times> platform)" where
  "publish_contest env command p = transition env command ToPublished p"

definition archive_contest ::
  "tx_env \<Rightarrow> contest_lifecycle_command \<Rightarrow> platform \<Rightarrow> contest_error + (contest_record \<times> platform)" where
  "archive_contest env command p = transition env command ToArchived p"

end
