(* ===== verification/Contest_Service.thy ===== *)
theory Contest_Service
  imports Contest_Repository
begin

text \<open>
  \<open>server/domains/contests/service.ts\<close> and \<open>server/domains/contests/admission.ts\<close>: what a
  manager may ask for, the defaults of a new draft, the merge of an update with the draft it was
  read from, and the validation of the result. An absent (\<open>undefined\<close>) field is \<open>None\<close>; where the
  field may also be \<open>null\<close> the option is nested. Team sizes are integers (the request schema), and
  visibility and strategy are the enumerations, so those tests have no failing case here.
\<close>

section \<open>Errors\<close>

text \<open>The entries of the error's \<open>fields\<close>, each one field with one message.\<close>

datatype configuration_issue =
    StartAtInvalid
  | EndAtNotAfterStart
  | FreezeOutsideWindow
  | WriteupDeadlineNotRequired
  | WriteupDeadlineBeforeEnd
  | MinTeamSizeInvalid
  | MaxTeamSizeInvalid
  | InviteCodeMissing
  | InviteCodeMalformed
  | EmailDomainInvalid nat

datatype contest_failure =
    ConfigurationInvalid "configuration_issue list"
  | ConfigurationLocked
  | NotEnded
  | ContestMissing
  | SlugConflict
  | ContestTransitionRefused
  | PublicationCheckFailed "publication_issue list"
  | ContestResourceVersionConflict
  | ContestCapabilityRefused capability_error
  | ContestRequestFailed "statement_error option"    \<comment> \<open>rethrown; \<open>None\<close>: the \<open>TypeError\<close>\<close>

fun map_contest_error :: "contest_error \<Rightarrow> contest_failure" where
  "map_contest_error ContestConfigurationLocked = ConfigurationLocked"
| "map_contest_error ContestNotEnded = NotEnded"
| "map_contest_error ContestNotFound = ContestMissing"
| "map_contest_error ContestSlugConflict = SlugConflict"
| "map_contest_error ContestTransitionInvalid = ContestTransitionRefused"
| "map_contest_error ContestVersionConflict = ContestResourceVersionConflict"
| "map_contest_error (ContestPublicationCheckFailed issues) = PublicationCheckFailed issues"
| "map_contest_error ContestConstraintsMalformed = ContestRequestFailed None"
| "map_contest_error (ContestDatabaseError e) = ContestRequestFailed (Some e)"

interpretation contest_errors: service_errors ContestCapabilityRefused map_contest_error
proof
  fix e e' :: contest_error
  show "map_contest_error e = map_contest_error e' \<Longrightarrow> e = e'" by (cases e; cases e') simp_all
  show "ContestCapabilityRefused x \<noteq> map_contest_error e" for x by (cases e) simp_all
qed simp

abbreviation contest_guarded where
  "contest_guarded \<equiv> guarded ContestCapabilityRefused map_contest_error"

definition require_manager :: "session_subject \<Rightarrow> contest_failure + unit" where
  "require_manager actor = map_error ContestCapabilityRefused (requireIdentityCapability actor ContestManage)"

section \<open>Validation\<close>

record contest_configuration =
  cg_visibility :: contest_visibility
  cg_inviteRequired :: bool
  cg_inviteConfigured :: bool
  cg_registrationStrategy :: registration_strategy
  cg_startAt :: js_date
  cg_endAt :: js_date
  cg_scoreboardFreezeAt :: "js_date option"
  cg_practiceEnabled :: bool
  cg_writeupRequired :: bool
  cg_writeupDeadlineAt :: "js_date option"
  cg_minTeamSize :: int
  cg_maxTeamSize :: int
  cg_allowedEmailDomains :: "string list"

text \<open>Comparisons of time values: with \<open>NaN\<close> they are false.\<close>

fun time_less :: "js_date \<Rightarrow> js_date \<Rightarrow> bool" where
  "time_less (Date a) (Date b) = (a < b)"
| "time_less _ _ = False"

fun time_less_eq :: "js_date \<Rightarrow> js_date \<Rightarrow> bool" where
  "time_less_eq (Date a) (Date b) = (a \<le> b)"
| "time_less_eq _ _ = False"

definition alnum :: "char \<Rightarrow> bool" where
  "alnum c \<longleftrightarrow> lower_alnum c \<or> (let n = of_char c :: nat in 65 \<le> n \<and> n \<le> 90)"

text \<open>\<open>inviteCodePattern\<close>: 32 to 128 safe characters.\<close>

definition inviteCodePattern :: "string \<Rightarrow> bool" where
  "inviteCodePattern s \<longleftrightarrow> 32 \<le> length s \<and> length s \<le> 128
     \<and> list_all (\<lambda>c. alnum c \<or> c \<in> set ''._:-'') s"

text \<open>The labels of a domain, split at the dots.\<close>

fun labels :: "string \<Rightarrow> string list" where
  "labels [] = [[]]"
| "labels (c # cs) = (if c = CHR ''.'' then [] # labels cs
     else (case labels cs of [] \<Rightarrow> [[c]] | l # ls \<Rightarrow> (c # l) # ls))"

definition domain_label :: "string \<Rightarrow> bool" where
  "domain_label l \<longleftrightarrow> l \<noteq> [] \<and> length l \<le> 63 \<and> alnum (hd l) \<and> alnum (last l)
     \<and> list_all (\<lambda>c. alnum c \<or> c = CHR ''-'') l"

text \<open>\<open>emailDomainPattern\<close>: at most 253 characters, labels of at most 63.\<close>

definition emailDomainPattern :: "string \<Rightarrow> bool" where
  "emailDomainPattern s \<longleftrightarrow> 1 \<le> length s \<and> length s \<le> 253 \<and> list_all domain_label (labels s)"

definition window_issues :: "contest_configuration \<Rightarrow> configuration_issue list" where
  "window_issues c =
     (if \<not> valid_date (cg_startAt c) then [StartAtInvalid] else [])
     @ (if \<not> valid_date (cg_endAt c) \<or> time_less_eq (cg_endAt c) (cg_startAt c)
        then [EndAtNotAfterStart] else [])
     @ (case cg_scoreboardFreezeAt c of
          None \<Rightarrow> []
        | Some f \<Rightarrow> if \<not> valid_date f \<or> time_less f (cg_startAt c) \<or> time_less (cg_endAt c) f
            then [FreezeOutsideWindow] else [])
     @ (case cg_writeupDeadlineAt c of
          None \<Rightarrow> []
        | Some d \<Rightarrow> if \<not> cg_writeupRequired c then [WriteupDeadlineNotRequired]
            else if \<not> valid_date d \<or> time_less d (cg_endAt c) then [WriteupDeadlineBeforeEnd] else [])"

definition size_issues :: "contest_configuration \<Rightarrow> configuration_issue list" where
  "size_issues c =
     (if cg_minTeamSize c < 1 \<or> 100 < cg_minTeamSize c then [MinTeamSizeInvalid] else [])
     @ (if cg_maxTeamSize c < 1 \<or> 100 < cg_maxTeamSize c \<or> cg_maxTeamSize c < cg_minTeamSize c
        then [MaxTeamSizeInvalid] else [])"

definition invite_issues :: "contest_configuration \<Rightarrow> string option \<Rightarrow> bool \<Rightarrow> configuration_issue list" where
  "invite_issues c inviteCode replacingInvite =
     (if cg_inviteRequired c \<and> \<not> cg_inviteConfigured c then [InviteCodeMissing] else [])
     @ (case inviteCode of
          None \<Rightarrow> []
        | Some code \<Rightarrow> if replacingInvite \<and> \<not> inviteCodePattern code then [InviteCodeMalformed] else [])"

definition domain_issues :: "contest_configuration \<Rightarrow> configuration_issue list" where
  "domain_issues c = concat (map (\<lambda>(i, d). if emailDomainPattern d then [] else [EmailDomainInvalid i])
     (enumerate 0 (cg_allowedEmailDomains c)))"

definition validateConfiguration ::
  "contest_configuration \<Rightarrow> string option \<Rightarrow> bool \<Rightarrow> contest_failure + unit" where
  "validateConfiguration c inviteCode replacingInvite =
     (let issues = window_issues c @ size_issues c @ invite_issues c inviteCode replacingInvite
          @ domain_issues c in
      if issues = [] then Inr () else Inl (ConfigurationInvalid issues))"

definition normalizeDomains :: "string list \<Rightarrow> string list" where
  "normalizeDomains domains = js_unique (map (\<lambda>d. toLowerCase (js_trim d)) domains)"

text \<open>The time value of a date that has passed the validation.\<close>

fun time_of :: "js_date \<Rightarrow> millis" where
  "time_of (Date t) = t"
| "time_of InvalidDate = 0"

text \<open>\<open>Boolean(inviteCode)\<close> of the trimmed code.\<close>

definition present :: "string option \<Rightarrow> bool" where
  "present code \<longleftrightarrow> code \<noteq> None \<and> code \<noteq> Some ''''"

definition settings_of ::
  "crypto \<Rightarrow> string \<Rightarrow> string \<Rightarrow> string \<Rightarrow> string option \<Rightarrow> contest_configuration \<Rightarrow> contest_settings" where
  "settings_of c title slug description inviteCode g =
     \<lparr>cs_title = title, cs_slug = slug, cs_description = description, cs_visibility = cg_visibility g,
      cs_inviteRequired = cg_inviteRequired g,
      cs_inviteDigest = (if present inviteCode then Some (code_digest c (the inviteCode)) else None),
      cs_registrationStrategy = cg_registrationStrategy g, cs_startAt = time_of (cg_startAt g),
      cs_endAt = time_of (cg_endAt g), cs_scoreboardFreezeAt = map_option time_of (cg_scoreboardFreezeAt g),
      cs_practiceEnabled = cg_practiceEnabled g, cs_writeupRequired = cg_writeupRequired g,
      cs_writeupDeadlineAt = map_option time_of (cg_writeupDeadlineAt g),
      cs_minTeamSize = cg_minTeamSize g, cs_maxTeamSize = cg_maxTeamSize g,
      cs_allowedEmailDomains = cg_allowedEmailDomains g\<rparr>"

section \<open>Drafts\<close>

text \<open>The optional fields both requests have.\<close>

record contest_options =
  ci_requestId :: string
  ci_visibility :: "contest_visibility option"
  ci_inviteRequired :: "bool option"
  ci_registrationStrategy :: "registration_strategy option"
  ci_scoreboardFreezeAt :: "js_date option option"
  ci_practiceEnabled :: "bool option"
  ci_writeupRequired :: "bool option"
  ci_writeupDeadlineAt :: "js_date option option"
  ci_minTeamSize :: "int option"
  ci_maxTeamSize :: "int option"
  ci_allowedEmailDomains :: "string list option"

record create_contest_input = contest_options +
  cci_title :: string
  cci_slug :: string
  cci_description :: string
  cci_inviteCode :: "string option"
  cci_startAt :: js_date
  cci_endAt :: js_date

record update_contest_input = contest_options +
  uci_contestId :: uuid
  uci_expectedVersion :: int
  uci_reason :: string
  uci_title :: "string option"
  uci_slug :: "string option"
  uci_description :: "string option"
  uci_inviteCode :: "string option option"
  uci_startAt :: "js_date option"
  uci_endAt :: "js_date option"

definition create_configuration :: "create_contest_input \<Rightarrow> contest_configuration" where
  "create_configuration input =
     \<lparr>cg_visibility = or_default (ci_visibility input) PublicContest,
      cg_inviteRequired = or_default (ci_inviteRequired input) False,
      cg_inviteConfigured = present (map_option js_trim (cci_inviteCode input)),
      cg_registrationStrategy = or_default (ci_registrationStrategy input) Review,
      cg_startAt = cci_startAt input, cg_endAt = cci_endAt input,
      cg_scoreboardFreezeAt = or_default (ci_scoreboardFreezeAt input) None,
      cg_practiceEnabled = or_default (ci_practiceEnabled input) False,
      cg_writeupRequired = or_default (ci_writeupRequired input) False,
      cg_writeupDeadlineAt = or_default (ci_writeupDeadlineAt input) None,
      cg_minTeamSize = or_default (ci_minTeamSize input) 1,
      cg_maxTeamSize = or_default (ci_maxTeamSize input) 5,
      cg_allowedEmailDomains = normalizeDomains (or_default (ci_allowedEmailDomains input) [])\<rparr>"

definition create_command ::
  "crypto \<Rightarrow> session_subject \<Rightarrow> create_contest_input \<Rightarrow> create_draft_command" where
  "create_command c actor input = contest_settings.extend
     (settings_of c (js_trim (cci_title input)) (cci_slug input) (cci_description input)
       (map_option js_trim (cci_inviteCode input)) (create_configuration input))
     (create_draft_command.fields (sj_userId actor) (ci_requestId input))"

definition contest_createDraft ::
  "crypto \<Rightarrow> tx_env \<Rightarrow> session_subject \<Rightarrow> create_contest_input \<Rightarrow> platform
    \<Rightarrow> contest_failure + (contest_record \<times> platform)" where
  "contest_createDraft c env actor input p =
     ebind (require_manager actor) (\<lambda>_.
     ebind (validateConfiguration (create_configuration input)
       (map_option js_trim (cci_inviteCode input)) True) (\<lambda>_.
     map_error map_contest_error (createDraft env (create_command c actor input) p)))"

definition update_configuration :: "contest_record \<Rightarrow> update_contest_input \<Rightarrow> contest_configuration" where
  "update_configuration current input =
     \<lparr>cg_visibility = or_default (ci_visibility input) (cn_visibility current),
      cg_inviteRequired = or_default (ci_inviteRequired input) (cn_inviteRequired current),
      cg_inviteConfigured = (case uci_inviteCode input of
          None \<Rightarrow> cn_inviteConfigured current
        | Some code \<Rightarrow> present (map_option js_trim code)),
      cg_registrationStrategy = or_default (ci_registrationStrategy input) (cn_registrationStrategy current),
      cg_startAt = or_default (uci_startAt input) (Date (cn_startAt current)),
      cg_endAt = or_default (uci_endAt input) (Date (cn_endAt current)),
      cg_scoreboardFreezeAt = or_default (ci_scoreboardFreezeAt input)
        (map_option Date (cn_scoreboardFreezeAt current)),
      cg_practiceEnabled = or_default (ci_practiceEnabled input) (cn_practiceEnabled current),
      cg_writeupRequired = or_default (ci_writeupRequired input) (cn_writeupRequired current),
      cg_writeupDeadlineAt = or_default (ci_writeupDeadlineAt input)
        (map_option Date (cn_writeupDeadlineAt current)),
      cg_minTeamSize = or_default (ci_minTeamSize input) (cn_minTeamSize current),
      cg_maxTeamSize = or_default (ci_maxTeamSize input) (cn_maxTeamSize current),
      cg_allowedEmailDomains = (case ci_allowedEmailDomains input of
          None \<Rightarrow> cn_allowedEmailDomains current
        | Some ds \<Rightarrow> normalizeDomains ds)\<rparr>"

text \<open>The trimmed invitation code of an update: \<open>undefined\<close> and \<open>null\<close> give none.\<close>

definition update_code :: "update_contest_input \<Rightarrow> string option" where
  "update_code input = (case uci_inviteCode input of
     None \<Rightarrow> None | Some None \<Rightarrow> None | Some (Some code) \<Rightarrow> Some (js_trim code))"

definition update_command ::
  "crypto \<Rightarrow> session_subject \<Rightarrow> contest_record \<Rightarrow> update_contest_input \<Rightarrow> update_draft_command" where
  "update_command c actor current input = contest_settings.extend
     (settings_of c (or_default (map_option js_trim (uci_title input)) (cn_title current))
       (or_default (uci_slug input) (cn_slug current))
       (or_default (uci_description input) (cn_description current))
       (update_code input) (update_configuration current input))
     (update_draft_command.fields (sj_userId actor) (ci_requestId input) (uci_contestId input)
       (uci_expectedVersion input) (js_trim (uci_reason input)) (uci_inviteCode input \<noteq> None))"

text \<open>
  The first half of \<open>updateDraft\<close>: the draft is read, merged and validated. The second half is the
  repository's transaction, which other transactions may precede.
\<close>

definition prepare_update ::
  "crypto \<Rightarrow> tx_env \<Rightarrow> session_subject \<Rightarrow> update_contest_input \<Rightarrow> platform
    \<Rightarrow> contest_failure + update_draft_command" where
  "prepare_update c env actor input p =
     ebind (require_manager actor) (\<lambda>_.
     ebind (map_error map_contest_error (readManaged env p (uci_contestId input))) (\<lambda>current.
     if cn_version current \<noteq> uci_expectedVersion input then Inl ContestResourceVersionConflict
     else ebind (validateConfiguration (update_configuration current input) (update_code input)
            (uci_inviteCode input \<noteq> None)) (\<lambda>_.
          Inr (update_command c actor current input))))"

definition contest_updateDraft ::
  "crypto \<Rightarrow> tx_env \<Rightarrow> tx_env \<Rightarrow> session_subject \<Rightarrow> update_contest_input \<Rightarrow> platform \<Rightarrow> platform
    \<Rightarrow> contest_failure + (contest_record \<times> platform)" where
  "contest_updateDraft c read_env env actor input seen p =
     ebind (prepare_update c read_env actor input seen) (\<lambda>command.
     map_error map_contest_error (updateDraft env command p))"

section \<open>The other operations\<close>

definition contest_readManaged ::
  "tx_env \<Rightarrow> session_subject \<Rightarrow> uuid \<Rightarrow> platform \<Rightarrow> contest_failure + contest_record" where
  "contest_readManaged env actor contestId p =
     contest_guarded actor ContestManage (readManaged env p contestId)"

definition contest_readPublic :: "tx_env \<Rightarrow> uuid \<Rightarrow> platform \<Rightarrow> contest_failure + contest_record" where
  "contest_readPublic env contestId p = map_error map_contest_error (readPublic env p contestId)"

definition contest_checkPublication ::
  "session_subject \<Rightarrow> uuid \<Rightarrow> platform \<Rightarrow> contest_failure + publication_check" where
  "contest_checkPublication actor contestId p =
     contest_guarded actor ContestManage (publicationCheck p contestId)"

record contest_lifecycle_input =
  cli_requestId :: string
  cli_contestId :: uuid
  cli_reason :: string

definition lifecycle_command :: "session_subject \<Rightarrow> contest_lifecycle_input \<Rightarrow> contest_lifecycle_command" where
  "lifecycle_command actor input = \<lparr>clc_actorId = sj_userId actor, clc_requestId = cli_requestId input,
     clc_contestId = cli_contestId input, clc_reason = js_trim (cli_reason input)\<rparr>"

definition contest_publish ::
  "tx_env \<Rightarrow> session_subject \<Rightarrow> contest_lifecycle_input \<Rightarrow> platform
    \<Rightarrow> contest_failure + (contest_record \<times> platform)" where
  "contest_publish env actor input p =
     contest_guarded actor ContestManage (publish_contest env (lifecycle_command actor input) p)"

definition contest_archive ::
  "tx_env \<Rightarrow> session_subject \<Rightarrow> contest_lifecycle_input \<Rightarrow> platform
    \<Rightarrow> contest_failure + (contest_record \<times> platform)" where
  "contest_archive env actor input p =
     contest_guarded actor ContestManage (archive_contest env (lifecycle_command actor input) p)"

section \<open>Admission of payloads\<close>

text \<open>\<open>assertImplicitJeopardyContestPayload\<close>: the error carries the field that declares a mode.\<close>

datatype admission_source = FromApi | FromImport

fun json_record :: "json \<Rightarrow> (string \<times> json) list option" where
  "json_record (JObj obj) = Some obj"
| "json_record _ = None"

definition rejectModeKeys :: "(string \<times> json) list \<Rightarrow> string \<Rightarrow> string + unit" where
  "rejectModeKeys obj path =
     (case find (\<lambda>k. map_of obj k \<noteq> None) [''mode'', ''contest_mode'', ''competition_mode''] of
        None \<Rightarrow> Inr () | Some k \<Rightarrow> Inl (path @ k))"

definition rejectFeature :: "(string \<times> json) list \<Rightarrow> (string \<times> json) list option \<Rightarrow> string \<Rightarrow> string + unit" where
  "rejectFeature payload contest key =
     (if map_of payload key \<noteq> None then Inl key
      else case contest of
        None \<Rightarrow> Inr ()
      | Some obj \<Rightarrow> if map_of obj key \<noteq> None then Inl (''contest.'' @ key) else Inr ())"

definition assertImplicitJeopardyContestPayload :: "json \<Rightarrow> admission_source \<Rightarrow> string + unit" where
  "assertImplicitJeopardyContestPayload payload source =
     (case json_record payload of
        None \<Rightarrow> Inr ()
      | Some obj \<Rightarrow>
          ebind (rejectModeKeys obj '''') (\<lambda>_.
          if source \<noteq> FromImport then Inr ()
          else let contest = (case map_of obj ''contest'' of None \<Rightarrow> None | Some v \<Rightarrow> json_record v) in
            ebind (case contest of None \<Rightarrow> Inr () | Some inner \<Rightarrow> rejectModeKeys inner ''contest.'') (\<lambda>_.
            efold (\<lambda>key _. rejectFeature obj contest key)
              [''services'', ''ticks'', ''vpn'', ''checkers'', ''terminal''] ())))"

end
