(* ===== verification/Contest_Facts.thy ===== *)
theory Contest_Facts
  imports Contest_Service
begin

text \<open>
  What the operations on contests do: the effect of each successful statement and transaction, the
  invariant of the contests table, the life cycle of a contest and the meaning of its version.
\<close>

section \<open>Statements\<close>

lemma db_of_simps [simp]:
  "db_users (db_of p) = db_users (pl_rest p)" "db_audit_events (db_of p) = db_audit_events (pl_rest p)"
  "db_contests (db_of p) = map contest_row.truncate (pl_contests p)"
  "db_contest_challenges (db_of p) = map contest_challenge_row.truncate (pl_challenges p)"
  by (simp_all add: db_of_def)

text \<open>The administrative part of a platform: everything but the database's other tables.\<close>

definition same_administration :: "platform \<Rightarrow> platform \<Rightarrow> bool" where
  "same_administration p q \<longleftrightarrow> (\<exists>db. q = p\<lparr>pl_rest := db\<rparr>)"

lemma same_administration_tables:
  assumes "same_administration p q"
  shows "pl_contests q = pl_contests p" "pl_challenges q = pl_challenges p" "pl_assets q = pl_assets p"
    "pl_hints q = pl_hints p" "pl_templates q = pl_templates p"
    "pl_template_versions q = pl_template_versions p" "pl_template_assets q = pl_template_assets p"
    "pl_template_hints q = pl_template_hints p" "pl_objects q = pl_objects p"
  using assms by (auto simp: same_administration_def)

text \<open>The database without its audit log, contests and challenges.\<close>

definition core :: "database \<Rightarrow> database" where
  "core db = db\<lparr>db_audit_events := [], db_contests := [], db_contest_challenges := []\<rparr>"

definition rest_kept :: "platform \<Rightarrow> platform \<Rightarrow> bool" where
  "rest_kept p q \<longleftrightarrow> core (pl_rest q) = core (pl_rest p)"

lemma core_tables:
  assumes "core db' = core db"
  shows "db_users db' = db_users db" "db_teams db' = db_teams db" "db_team_members db' = db_team_members db"
    "db_team_invites db' = db_team_invites db" "db_divisions db' = db_divisions db"
    "db_participations db' = db_participations db" "db_submissions db' = db_submissions db"
    "db_solves db' = db_solves db" "db_score_adjustments db' = db_score_adjustments db"
    "db_cheat_clues db' = db_cheat_clues db" "db_scoreboard_versions db' = db_scoreboard_versions db"
    "db_contest_events db' = db_contest_events db"
  using arg_cong [OF assms, of db_users] arg_cong [OF assms, of db_teams]
    arg_cong [OF assms, of db_team_members] arg_cong [OF assms, of db_team_invites]
    arg_cong [OF assms, of db_divisions] arg_cong [OF assms, of db_participations]
    arg_cong [OF assms, of db_submissions] arg_cong [OF assms, of db_solves]
    arg_cong [OF assms, of db_score_adjustments] arg_cong [OF assms, of db_cheat_clues]
    arg_cong [OF assms, of db_scoreboard_versions] arg_cong [OF assms, of db_contest_events]
  by (simp_all add: core_def)

lemma rest_kept_refl [simp]: "pl_rest q = pl_rest p \<Longrightarrow> rest_kept p q"
  by (simp add: rest_kept_def)

lemma rest_kept_trans: "rest_kept p q \<Longrightarrow> rest_kept q r \<Longrightarrow> rest_kept p r"
  by (simp add: rest_kept_def)

lemma audit_Inr:
  assumes "audit e p = Inr q"
  shows "same_administration p q" and "rest_kept p q"
    and "db_audit_events (pl_rest q) = db_audit_events (pl_rest p) @ [e]"
proof -
  have q: "q = with_db p ((db_of p)\<lparr>db_audit_events := db_audit_events (db_of p) @ [e]\<rparr>)"
    using assms by (auto simp: audit_def ebind_Inr_iff dest!: insert_audit_event_Inr)
  show "same_administration p q" by (auto simp: q same_administration_def with_db_def)
  show "rest_kept p q" by (simp add: q rest_kept_def db_of_def core_def)
  show "db_audit_events (pl_rest q) = db_audit_events (pl_rest p) @ [e]" by (simp add: q)
qed

lemma cpg_Inr [simp]: "cpg x = Inr a \<longleftrightarrow> x = Inr a"
  by (simp add: cpg_def)

lemma insert_contest_Inr:
  "insert_contest r p = Inr q \<Longrightarrow> list_all snd (contest_checks r)
     \<and> co_id r \<notin> co_id ` set (pl_contests p) \<and> mc_slug r \<notin> mc_slug ` set (pl_contests p)
     \<and> q = p\<lparr>pl_contests := pl_contests p @ [r]\<rparr>"
  by (simp add: insert_contest_def ebind_Inr_iff known_def del: constraints.simps)

lemma find_unique:
  assumes "distinct (map f xs)" and "find (\<lambda>x. f x = k) xs = Some y" and "x \<in> set xs" and "f x = k"
  shows "x = y"
  using assms by (metis (mono_tags, lifting) distinct_map find_Some_iff inj_onD nth_mem)

text \<open>The contest of an identifier after an update.\<close>

lemma find_map_key:
  assumes "\<And>x. f (g x) = f x"
  shows "find (\<lambda>x. f x = k) (map (\<lambda>x. if f x = i then g x else x) xs)
    = (if k = i then map_option g (find (\<lambda>x. f x = k) xs) else find (\<lambda>x. f x = k) xs)"
  using assms by (induction xs) auto

definition contest_update :: "(managed_contest \<Rightarrow> managed_contest) \<Rightarrow> bool" where
  "contest_update f \<longleftrightarrow> (\<forall>r. co_id (f r) = co_id r)"

lemma update_contest_Inr:
  assumes "update_contest i f p = Inr q"
  shows "\<forall>r\<in>set (pl_contests p). co_id r = i \<longrightarrow> list_all snd (contest_checks (f r))
      \<and> mc_slug (f r) \<notin> mc_slug ` {s \<in> set (pl_contests p). co_id s \<noteq> i}"
    and "q = p\<lparr>pl_contests := map (\<lambda>r. if co_id r = i then f r else r) (pl_contests p)\<rparr>"
  using assms by (auto simp: update_contest_def ebind_Inr_iff list_all_iff known_def
      simp del: constraints.simps)

lemma find_contest_id: "find_contest p i = Some r \<Longrightarrow> co_id r = i \<and> r \<in> set (pl_contests p)"
  by (auto simp: find_contest_def find_Some_iff)

lemma find_contest_update:
  assumes "update_contest i f p = Inr q" and "contest_update f"
  shows "find_contest q k = (if k = i then map_option f (find_contest p k) else find_contest p k)"
  unfolding update_contest_Inr(2) [OF assms(1)] find_contest_def
  using find_map_key [of co_id f] assms(2) by (simp add: contest_update_def)

section \<open>Transactions\<close>

lemma map_slug_conflict_Inr [simp]: "map_error map_slug_conflict x = Inr a \<longleftrightarrow> x = Inr a"
  by simp

lemma co_id_with_settings [simp]: "co_id (with_settings s r) = co_id r"
  by (simp add: with_settings_def)

lemma contest_updates [simp]:
  "contest_update (updated_draft env command)" "contest_update (moved_contest env target)"
  by (auto simp: contest_update_def updated_draft_def) (cases target; simp)

text \<open>A committed transaction on contests inserts one draft or rewrites one row.\<close>

definition contest_inserted :: "managed_contest \<Rightarrow> platform \<Rightarrow> platform \<Rightarrow> bool" where
  "contest_inserted r p q \<longleftrightarrow> (\<exists>p1. insert_contest r p = Inr p1 \<and> same_administration p1 q \<and> rest_kept p q)"

definition contest_rewritten ::
  "uuid \<Rightarrow> (managed_contest \<Rightarrow> managed_contest) \<Rightarrow> platform \<Rightarrow> platform \<Rightarrow> bool" where
  "contest_rewritten i f p q \<longleftrightarrow>
     (\<exists>p1. update_contest i f p = Inr p1 \<and> same_administration p1 q \<and> rest_kept p q)"

lemma createDraft_Inr:
  assumes "createDraft env command p = Inr (r, q)"
  shows "contest_inserted (new_draft env command) p q" and "readManaged env q (env_uuid env 0) = Inr r"
proof -
  from assms obtain p1 e where p1: "insert_contest (new_draft env command) p = Inr p1"
    and q: "audit e p1 = Inr q" and r: "readManaged env q (env_uuid env 0) = Inr r"
    by (auto simp: createDraft_def Let_def ebind_Inr_iff)
  have "rest_kept p p1" using insert_contest_Inr [OF p1] by simp
  then show "contest_inserted (new_draft env command) p q"
    using p1 audit_Inr(1,2) [OF q] rest_kept_trans unfolding contest_inserted_def by blast
  show "readManaged env q (env_uuid env 0) = Inr r" by (rule r)
qed

lemma rewritten_audit:
  assumes "update_contest i f p = Inr p1" and "audit e p1 = Inr q"
  shows "contest_rewritten i f p q"
proof -
  have "rest_kept p p1" using update_contest_Inr(2) [OF assms(1)] by simp
  then show ?thesis
    using assms(1) audit_Inr(1,2) [OF assms(2)] rest_kept_trans unfolding contest_rewritten_def by blast
qed

lemma updateDraft_Inr:
  assumes "updateDraft env command p = Inr (r, q)"
  obtains current where "find_contest p (udc_contestId command) = Some current"
    and "co_publication_status current = Draft" and "mc_version current = udc_expectedVersion command"
    and "contest_rewritten (udc_contestId command) (updated_draft env command) p q"
    and "readManaged env q (udc_contestId command) = Inr r"
proof -
  from assms obtain current p1 where cur: "find_contest p (udc_contestId command) = Some current"
    "co_publication_status current = Draft" "mc_version current = udc_expectedVersion command"
    and p1: "update_contest (udc_contestId command) (updated_draft env command) p = Inr p1"
    and q: "audit (contest_audit env 0 (udc_actorId command) (udc_requestId command)
      (udc_contestId command) ''contest.configuration_updated'' (udc_reason command)
      (update_changes command)) p1 = Inr q"
    and r: "readManaged env q (udc_contestId command) = Inr r"
    by (auto simp: updateDraft_def ebind_Inr_iff split: option.splits if_splits)
  show thesis by (rule that [OF cur rewritten_audit [OF p1 q] r])
qed

lemma transition_Inr:
  assumes "transition env command target p = Inr (r, q)"
  obtains current where "find_contest p (clc_contestId command) = Some current"
    and "co_publication_status current = source_status target"
    and "target = ToArchived \<Longrightarrow> co_end_at current \<le> env_now env"
    and "target = ToPublished \<Longrightarrow> check_ready p (clc_contestId command) = Inr ()"
    and "contest_rewritten (clc_contestId command) (moved_contest env target) p q"
    and "readManaged env q (clc_contestId command) = Inr r"
proof -
  from assms obtain current p1 e where cur: "find_contest p (clc_contestId command) = Some current"
    "co_publication_status current = source_status target"
    and ended: "target = ToArchived \<longrightarrow> derive_contest_time_phase (co_start_at current)
              (co_end_at current) (env_now env) = Ended"
    and ready: "(if target = ToPublished then check_ready p (clc_contestId command) else Inr ()) = Inr ()"
    and p1: "update_contest (clc_contestId command) (moved_contest env target) p = Inr p1"
    and q: "audit e p1 = Inr q" and r: "readManaged env q (clc_contestId command) = Inr r"
    by (auto simp: transition_def ebind_Inr_iff split: option.splits if_splits)
  show thesis
  proof (rule that [OF cur _ _ rewritten_audit [OF p1 q] r])
    show "target = ToArchived \<Longrightarrow> co_end_at current \<le> env_now env"
      using ended by (auto simp: derive_contest_time_phase_def split: if_splits)
    show "target = ToPublished \<Longrightarrow> check_ready p (clc_contestId command) = Inr ()"
      using ready by simp
  qed
qed

section \<open>The contests table\<close>

text \<open>The domain lists the service stores: valid, in lower case, without repetition.\<close>

definition admissible_domains :: "string list \<Rightarrow> bool" where
  "admissible_domains ds \<longleftrightarrow> list_all emailDomainPattern ds \<and> map toLowerCase ds = ds \<and> distinct ds"

definition contests_inv :: "platform \<Rightarrow> bool" where
  "contests_inv p \<longleftrightarrow> distinct (map co_id (pl_contests p)) \<and> distinct (map mc_slug (pl_contests p))
     \<and> (\<forall>r\<in>set (pl_contests p). list_all snd (contest_checks r)
          \<and> (\<exists>ds. co_registration_constraints r = constraints_json ds \<and> admissible_domains ds))"

lemma contests_inv_cong: "pl_contests q = pl_contests p \<Longrightarrow> contests_inv q = contests_inv p"
  by (simp add: contests_inv_def)

lemma contests_inv_inserted:
  assumes "contests_inv p" and "contest_inserted r p q"
    and "\<exists>ds. co_registration_constraints r = constraints_json ds \<and> admissible_domains ds"
  shows "contests_inv q"
proof -
  obtain p1 where p1: "insert_contest r p = Inr p1" and q: "pl_contests q = pl_contests p1"
    using assms(2) same_administration_tables(1) by (auto simp: contest_inserted_def)
  show ?thesis using assms(1,3) insert_contest_Inr [OF p1] by (auto simp: contests_inv_def q)
qed

text \<open>Rewriting the one row of a key keeps keys distinct when the new value meets no other row's.\<close>

lemma distinct_map_rewrite:
  assumes "distinct (map key xs)" and "distinct (map h xs)"
    and "\<And>x. x \<in> set xs \<Longrightarrow> key x = i \<Longrightarrow> h (f x) \<notin> h ` {y \<in> set xs. key y \<noteq> i}"
  shows "distinct (map h (map (\<lambda>x. if key x = i then f x else x) xs))"
  using assms
proof (induction xs)
  case (Cons x xs)
  have "distinct (map h (map (\<lambda>x. if key x = i then f x else x) xs))"
    using Cons.prems by (intro Cons.IH) auto
  moreover have "h (if key x = i then f x else x) \<notin> set (map h (map (\<lambda>x. if key x = i then f x else x) xs))"
  proof (cases "key x = i")
    case True
    then have "\<forall>y\<in>set xs. key y \<noteq> i"
      using Cons.prems(1) by (metis distinct.simps(2) image_eqI list.set_map list.simps(9))
    then show ?thesis using True Cons.prems(3) [of x] by auto
  next
    case False
    have "h x \<in> h ` {y \<in> set (x # xs). key y \<noteq> i}" using False by (intro imageI) simp
    then have "h x \<noteq> h (f y)" if "y \<in> set xs" "key y = i" for y
      using Cons.prems(3) [of y] that by (metis list.set_intros(2))
    moreover have "h x \<noteq> h y" if "y \<in> set xs" for y
      using Cons.prems(2) that by (metis distinct.simps(2) image_eqI list.set_map list.simps(9))
    ultimately have "\<forall>y\<in>set xs. h x \<noteq> h (if key y = i then f y else y)" by simp
    then show ?thesis using False by (simp add: image_iff)
  qed
  ultimately show ?case by (simp only: list.map distinct.simps simp_thms)
qed simp

lemma distinct_map_same:
  assumes "\<And>x. h (f x) = h x"
  shows "map h (map (\<lambda>x. if key x = i then f x else x) xs) = map h xs"
  using assms by simp

lemma contests_inv_rewritten:
  assumes inv: "contests_inv p" and upd: "contest_rewritten i f p q" and "contest_update f"
    and cons: "\<And>r. r \<in> set (pl_contests p) \<Longrightarrow> \<exists>ds. co_registration_constraints (f r) = constraints_json ds
      \<and> admissible_domains ds"
  shows "contests_inv q"
proof -
  obtain p1 where p1: "update_contest i f p = Inr p1" and "pl_contests q = pl_contests p1"
    using upd same_administration_tables(1) by (auto simp: contest_rewritten_def)
  then have q: "pl_contests q = map (\<lambda>r. if co_id r = i then f r else r) (pl_contests p)"
    using update_contest_Inr(2) [OF p1] by simp
  have "distinct (map co_id (pl_contests q))"
    unfolding q using assms(3) inv
    by (subst distinct_map_same) (simp_all add: contests_inv_def contest_update_def)
  moreover have "distinct (map mc_slug (pl_contests q))"
    unfolding q using inv update_contest_Inr(1) [OF p1]
    by (intro distinct_map_rewrite) (auto simp: contests_inv_def)
  moreover have "\<forall>r\<in>set (pl_contests q). list_all snd (contest_checks r)
      \<and> (\<exists>ds. co_registration_constraints r = constraints_json ds \<and> admissible_domains ds)"
    using inv update_contest_Inr(1) [OF p1] cons by (auto simp: q contests_inv_def)
  ultimately show ?thesis by (simp add: contests_inv_def)
qed

section \<open>The life of a contest\<close>

text \<open>What is configured: everything but the state of publication and the version.\<close>

definition configuration :: "managed_contest \<Rightarrow> managed_contest" where
  "configuration r = r\<lparr>co_publication_status := Draft, mc_published_at := None, mc_archived_at := None,
     mc_version := 0, mc_updated_at := 0\<rparr>"

inductive contest_edge :: "managed_contest option \<Rightarrow> managed_contest option \<Rightarrow> bool" where
  drafted: "co_publication_status r = Draft \<Longrightarrow> mc_version r = 1 \<Longrightarrow> contest_edge None (Some r)"
| edited: "co_publication_status r = Draft \<Longrightarrow> co_publication_status s = Draft \<Longrightarrow>
     mc_version s = mc_version r + 1 \<Longrightarrow> contest_edge (Some r) (Some s)"
| published: "co_publication_status r = Draft \<Longrightarrow> co_publication_status s = Published \<Longrightarrow>
     configuration s = configuration r \<Longrightarrow> mc_version s = mc_version r + 1 \<Longrightarrow>
     contest_edge (Some r) (Some s)"
| archived: "co_publication_status r = Published \<Longrightarrow> co_publication_status s = Archived \<Longrightarrow>
     configuration s = configuration r \<Longrightarrow> mc_version s = mc_version r + 1 \<Longrightarrow>
     contest_edge (Some r) (Some s)"

inductive_cases contest_edge_Some: "contest_edge (Some r) x"
inductive_cases contest_edge_None: "contest_edge None x"

text \<open>A transaction moves at most one contest, along an edge.\<close>

definition contest_moves :: "platform \<Rightarrow> platform \<Rightarrow> bool" where
  "contest_moves p q \<longleftrightarrow> (\<exists>i. contest_edge (find_contest p i) (find_contest q i)
     \<and> (\<forall>k. k \<noteq> i \<longrightarrow> find_contest q k = find_contest p k))"

lemma inserted_find:
  assumes "contest_inserted r p q"
  shows "find_contest p (co_id r) = None"
    and "find_contest q k = (if k = co_id r then Some r else find_contest p k)"
proof -
  obtain p1 where p1: "insert_contest r p = Inr p1" and q: "pl_contests q = pl_contests p1"
    using assms same_administration_tables(1) by (auto simp: contest_inserted_def)
  have fresh: "\<forall>s\<in>set (pl_contests p). co_id s \<noteq> co_id r" using insert_contest_Inr [OF p1] by (metis imageI)
  then show none: "find_contest p (co_id r) = None" by (auto simp: find_contest_def find_None_iff)
  have "find P (xs @ [x]) = (case find P xs of None \<Rightarrow> if P x then Some x else None | Some y \<Rightarrow> Some y)"
    for P and xs :: "managed_contest list" and x by (induction xs) auto
  then show "find_contest q k = (if k = co_id r then Some r else find_contest p k)"
    using insert_contest_Inr [OF p1] none by (auto simp: find_contest_def q split: option.splits)
qed

lemma rewritten_find:
  assumes "contest_rewritten i f p q" and "contest_update f"
  shows "find_contest q k = (if k = i then map_option f (find_contest p k) else find_contest p k)"
proof -
  obtain p1 where p1: "update_contest i f p = Inr p1" and q: "pl_contests q = pl_contests p1"
    using assms(1) same_administration_tables(1) by (auto simp: contest_rewritten_def)
  show ?thesis using find_contest_update [OF p1 assms(2), of k] q by (simp add: find_contest_def)
qed

lemma moved_status:
  "co_publication_status (moved_contest env t r) = target_status t"
  "mc_version (moved_contest env t r) = mc_version r + 1"
  "configuration (moved_contest env t r) = configuration r"
  by (cases t; simp add: configuration_def)+

lemma createDraft_moves:
  assumes "createDraft env command p = Inr (r, q)"
  shows "contest_moves p q"
proof -
  note ins = createDraft_Inr(1) [OF assms]
  let ?r = "new_draft env command"
  have "contest_edge None (Some ?r)" by (rule drafted) (simp_all add: new_draft_def with_settings_def)
  then show ?thesis unfolding contest_moves_def
    using inserted_find [OF ins] by (intro exI [of _ "co_id ?r"]) simp
qed

lemma updateDraft_moves:
  assumes "updateDraft env command p = Inr (r, q)"
  shows "contest_moves p q"
  using assms
proof (rule updateDraft_Inr)
  fix current
  assume cur: "find_contest p (udc_contestId command) = Some current" "co_publication_status current = Draft"
    and w: "contest_rewritten (udc_contestId command) (updated_draft env command) p q"
  have "contest_edge (Some current) (Some (updated_draft env command current))"
    using cur(2) by (intro edited) (simp_all add: updated_draft_def with_settings_def)
  then show ?thesis unfolding contest_moves_def
    using cur(1) rewritten_find [OF w] by (intro exI [of _ "udc_contestId command"]) simp
qed

lemma transition_moves:
  assumes "transition env command target p = Inr (r, q)"
  shows "contest_moves p q"
  using assms
proof (rule transition_Inr)
  fix current
  assume cur: "find_contest p (clc_contestId command) = Some current"
      "co_publication_status current = source_status target"
    and w: "contest_rewritten (clc_contestId command) (moved_contest env target) p q"
  have "contest_edge (Some current) (Some (moved_contest env target current))"
    using cur(2)
    by (cases target) (auto intro: published archived simp: moved_status simp del: moved_contest.simps)
  then show ?thesis unfolding contest_moves_def
    using cur(1) rewritten_find [OF w] by (intro exI [of _ "clc_contestId command"]) simp
qed

text \<open>A sequence of edges: the version tells whether anything happened, and what is published is fixed.\<close>

fun rank :: "contest_publication_status \<Rightarrow> nat" where
  "rank Draft = 0"
| "rank Published = 1"
| "rank Archived = 2"

definition contest_later :: "managed_contest option \<Rightarrow> managed_contest option \<Rightarrow> bool" where
  "contest_later x y \<longleftrightarrow> (\<forall>r. x = Some r \<longrightarrow> (\<exists>s. y = Some s \<and> (s = r \<or> mc_version r < mc_version s)
     \<and> rank (co_publication_status r) \<le> rank (co_publication_status s)
     \<and> (co_publication_status r \<noteq> Draft \<longrightarrow> configuration s = configuration r)))"

lemma contest_later_refl [simp]: "contest_later x x"
  by (simp add: contest_later_def)

lemma contest_later_edge: "contest_edge x y \<Longrightarrow> contest_later x y"
  by (auto simp: contest_later_def elim!: contest_edge_Some)

lemma rank_0 [simp]: "rank s = 0 \<longleftrightarrow> s = Draft" "0 < rank s \<longleftrightarrow> s \<noteq> Draft"
  by (cases s; simp)+

lemma contest_later_trans:
  assumes "contest_later x y" and "contest_later y z"
  shows "contest_later x z"
proof (cases x)
  case (Some r)
  with assms(1) obtain s where s: "y = Some s" "s = r \<or> mc_version r < mc_version s"
    "rank (co_publication_status r) \<le> rank (co_publication_status s)"
    "co_publication_status r \<noteq> Draft \<longrightarrow> configuration s = configuration r"
    by (auto simp: contest_later_def)
  with assms(2) obtain t where t: "z = Some t" "t = s \<or> mc_version s < mc_version t"
    "rank (co_publication_status s) \<le> rank (co_publication_status t)"
    "co_publication_status s \<noteq> Draft \<longrightarrow> configuration t = configuration s"
    by (auto simp: contest_later_def)
  have "configuration t = configuration r" if d: "co_publication_status r \<noteq> Draft"
  proof -
    have "0 < rank (co_publication_status s)" using d s(3) rank_0(2) by (metis less_le_trans)
    then show ?thesis using d s(4) t(4) by simp
  qed
  then show ?thesis using Some s t by (auto simp: contest_later_def)
qed (simp add: contest_later_def)

lemma contest_moves_later: "contest_moves p q \<Longrightarrow> contest_later (find_contest p i) (find_contest q i)"
  unfolding contest_moves_def by (metis contest_later_edge contest_later_refl)

end
