(* ===== verification/Contest_Service_Facts.thy ===== *)
theory Contest_Service_Facts
  imports Contest_Facts
begin

text \<open>
  What the validation of the contest service guarantees: the settings it lets through pass every
  check of the table, and a contest it has stored never makes a registration fail for its
  configuration.
\<close>

section \<open>Domains\<close>

lemma labels_Nil [simp]: "labels s \<noteq> []"
  by (cases s) (auto split: list.splits)

lemma labels_chars:
  "list_all (list_all Q) (labels s) \<Longrightarrow> list_all (\<lambda>c. Q c \<or> c = CHR ''.'') s"
  by (induction s) (auto split: if_splits list.splits)

lemma labels_hd: "s \<noteq> [] \<Longrightarrow> hd (labels s) \<noteq> [] \<Longrightarrow> hd (hd (labels s)) = hd s"
  by (cases s) (auto split: if_splits list.splits)

lemma labels_last: "s \<noteq> [] \<Longrightarrow> last (labels s) \<noteq> [] \<Longrightarrow> last (last (labels s)) = last s"
proof (induction s)
  case (Cons c s)
  show ?case
  proof (cases "s = []")
    case True
    then show ?thesis using Cons.prems by (auto split: if_splits)
  next
    case False
    obtain l ls where ls: "labels s = l # ls" using labels_Nil by (cases "labels s") auto
    show ?thesis
    proof (cases "c = CHR ''.''")
      case True
      then show ?thesis using Cons False by simp
    next
      case other: False
      show ?thesis
      proof (cases "ls = []")
        case True
        then have "l \<noteq> []" using False ls by (cases s) (auto split: if_splits list.splits)
        then show ?thesis using Cons.IH False True other ls by simp
      next
        case False
        then show ?thesis using Cons \<open>s \<noteq> []\<close> other ls by simp
      qed
    qed
  qed
qed simp

lemma lower_unit_fixed: "lower_unit c = c \<Longrightarrow> \<not> (65 \<le> (of_char c :: nat) \<and> (of_char c :: nat) \<le> 90)"
proof
  assume l: "lower_unit c = c" and u: "65 \<le> (of_char c :: nat) \<and> (of_char c :: nat) \<le> 90"
  then have "char_of (of_char c + 32 :: nat) = c" by (simp add: lower_unit_def)
  then have "(of_char c + 32 :: nat) mod 256 = of_char c"
    by (metis of_char_of)
  then show False using u by simp
qed

lemma lower_fixed_alnum: "lower_unit c = c \<Longrightarrow> alnum c \<Longrightarrow> lower_alnum c"
  using lower_unit_fixed [of c] by (auto simp: alnum_def Let_def)

lemma ascii_lower_fixed:
  assumes "toLowerCase s = s"
  shows "ascii_lower s = s"
proof -
  have "lower_unit c = c" if "c \<in> set s" for c
    using assms that unfolding toLowerCase_def by (metis map_eq_conv list.map_ident)
  then have "\<not> (CHR ''A'' \<le> c \<and> c \<le> CHR ''Z'')" if "c \<in> set s" for c
    using lower_unit_fixed [of c] that by (simp add: less_eq_char_def)
  then show ?thesis unfolding ascii_lower_def by (intro map_idI) auto
qed

lemma admitted_domain:
  assumes "emailDomainPattern d" and "toLowerCase d = d"
  shows "domain_pattern d"
proof -
  have low: "lower_unit c = c" if "c \<in> set d" for c
    using assms(2) that unfolding toLowerCase_def by (metis map_eq_conv list.map_ident)
  have d: "d \<noteq> []" and lab: "list_all domain_label (labels d)"
    using assms(1) by (auto simp: emailDomainPattern_def)
  have "domain_label (hd (labels d))" "domain_label (last (labels d))"
    using lab labels_Nil by (simp_all add: list_all_iff)
  then have ends: "alnum (hd d)" "alnum (last d)"
    using labels_hd [OF d] labels_last [OF d] by (auto simp: domain_label_def)
  have "list_all (list_all (\<lambda>c. alnum c \<or> c = CHR ''-'')) (labels d)"
    using lab by (auto simp: list_all_iff domain_label_def)
  then have "list_all (\<lambda>c. (alnum c \<or> c = CHR ''-'') \<or> c = CHR ''.'') d" by (rule labels_chars)
  then show ?thesis
    using d ends low lower_fixed_alnum by (auto simp: domain_pattern_def list_all_iff)
qed

lemma js_unique_distinct: "distinct xs \<Longrightarrow> js_unique xs = xs"
  by (simp add: js_unique_def distinct_remdups_id)

lemma distinct_js_unique [simp]: "distinct (js_unique xs)"
  by (simp add: js_unique_def)

lemma set_js_unique [simp]: "set (js_unique xs) = set xs"
  by (simp add: js_unique_def)

text \<open>What registration reads of the constraints is what the service stored.\<close>

lemma constraints_accepted:
  assumes "admissible_domains ds"
  shows "allowedEmailDomains (constraints_json ds) = Inr ds"
proof -
  have j: "json_domain (JStr d) = Some d" if "d \<in> set ds" for d
    using assms that admitted_domain
    by (auto simp: admissible_domains_def list_all_iff) (metis map_eq_conv list.map_ident)
  have "map (\<lambda>d. ascii_lower (the (json_domain (JStr d)))) ds = ds"
  proof (rule map_idI)
    fix d
    assume d: "d \<in> set ds"
    then have "toLowerCase d = d" using assms unfolding admissible_domains_def
      by (metis map_eq_conv list.map_ident)
    then show "ascii_lower (the (json_domain (JStr d))) = d" using j [OF d] ascii_lower_fixed by simp
  qed
  moreover have "distinct ds" using assms by (simp add: admissible_domains_def)
  moreover have "\<not> (\<exists>d\<in>set (map JStr ds). json_domain d = None)" using j by auto
  ultimately show ?thesis
    by (simp add: allowedEmailDomains_def constraints_json_def js_unique_distinct comp_def del: json_domain.simps)
qed

lemma constraints_read [simp]: "registrationConstraints (constraints_json ds) = Inr ds"
  by (simp add: registrationConstraints_def constraints_json_def comp_def)

lemma lower_unit_idem: "lower_unit (lower_unit c) = lower_unit c"
proof (cases "lower_unit c = c")
  case False
  then have c: "lower_unit c = char_of (of_char c + 32 :: nat)"
    "(65 \<le> (of_char c :: nat) \<and> (of_char c :: nat) \<le> 90)
     \<or> (192 \<le> (of_char c :: nat) \<and> (of_char c :: nat) \<le> 222)"
    by (auto simp: lower_unit_def Let_def split: if_splits)
  then have "(of_char (lower_unit c) :: nat) = of_char c + 32" by auto
  then show ?thesis using c(2) by (auto simp: lower_unit_def [of "lower_unit c"] Let_def)
qed simp

lemma toLowerCase_idem [simp]: "toLowerCase (toLowerCase s) = toLowerCase s"
  by (simp add: toLowerCase_def lower_unit_idem)

lemma normalized_domains:
  assumes "list_all emailDomainPattern (normalizeDomains ds)"
  shows "admissible_domains (normalizeDomains ds)"
proof -
  have "map toLowerCase (normalizeDomains ds) = normalizeDomains ds"
    by (rule map_idI) (auto simp: normalizeDomains_def)
  then show ?thesis using assms by (simp add: admissible_domains_def normalizeDomains_def)
qed

section \<open>Validated settings\<close>

lemma validate_Inr:
  "validateConfiguration g code rep = Inr () \<longleftrightarrow> window_issues g = [] \<and> size_issues g = []
     \<and> invite_issues g code rep = [] \<and> domain_issues g = []"
  by (simp add: validateConfiguration_def Let_def)

text \<open>A valid window, in time values.\<close>

definition window_valid :: "millis \<Rightarrow> millis \<Rightarrow> millis option \<Rightarrow> bool \<Rightarrow> millis option \<Rightarrow> bool" where
  "window_valid start_at end_at freeze required deadline \<longleftrightarrow> start_at < end_at
     \<and> (case freeze of None \<Rightarrow> True | Some t \<Rightarrow> start_at \<le> t \<and> t \<le> end_at)
     \<and> (case deadline of None \<Rightarrow> True | Some t \<Rightarrow> end_at \<le> t)
     \<and> (required \<or> deadline = None)"

lemma window_issues_Nil:
  assumes "window_issues g = []"
  shows "cg_startAt g = Date (time_of (cg_startAt g))" and "cg_endAt g = Date (time_of (cg_endAt g))"
    and "window_valid (time_of (cg_startAt g)) (time_of (cg_endAt g))
      (map_option time_of (cg_scoreboardFreezeAt g)) (cg_writeupRequired g)
      (map_option time_of (cg_writeupDeadlineAt g))"
proof -
  obtain s e where s: "cg_startAt g = Date s" and e: "cg_endAt g = Date e"
    using assms by (cases "cg_startAt g"; cases "cg_endAt g") (auto simp: window_issues_def split: if_splits)
  show "cg_startAt g = Date (time_of (cg_startAt g))" "cg_endAt g = Date (time_of (cg_endAt g))"
    by (simp_all add: s e)
  have f: "case map_option time_of (cg_scoreboardFreezeAt g) of None \<Rightarrow> True | Some t \<Rightarrow> s \<le> t \<and> t \<le> e"
  proof (cases "cg_scoreboardFreezeAt g")
    case (Some d)
    then show ?thesis using assms s e by (cases d) (auto simp: window_issues_def split: if_splits)
  qed simp
  have w: "(case map_option time_of (cg_writeupDeadlineAt g) of None \<Rightarrow> True | Some t \<Rightarrow> e \<le> t)
      \<and> (cg_writeupRequired g \<or> map_option time_of (cg_writeupDeadlineAt g) = None)"
  proof (cases "cg_writeupDeadlineAt g")
    case (Some d)
    then show ?thesis using assms s e by (cases d) (auto simp: window_issues_def split: if_splits)
  qed simp
  show "window_valid (time_of (cg_startAt g)) (time_of (cg_endAt g))
      (map_option time_of (cg_scoreboardFreezeAt g)) (cg_writeupRequired g)
      (map_option time_of (cg_writeupDeadlineAt g))"
    using assms f w by (auto simp: window_valid_def s e window_issues_def split: if_splits)
qed

lemma size_issues_Nil:
  "size_issues g = [] \<longleftrightarrow> 0 < cg_minTeamSize g \<and> cg_minTeamSize g \<le> cg_maxTeamSize g \<and> cg_maxTeamSize g \<le> 100"
  by (auto simp: size_issues_def)

lemma domain_issues_Nil: "domain_issues g = [] \<longleftrightarrow> list_all emailDomainPattern (cg_allowedEmailDomains g)"
proof -
  have "concat (map (\<lambda>(i, d). if emailDomainPattern d then [] else [EmailDomainInvalid i]) (enumerate n ds)) = []
    \<longleftrightarrow> list_all emailDomainPattern ds" for n ds
    by (induction ds arbitrary: n) auto
  then show ?thesis by (simp add: domain_issues_def)
qed

lemma present_valid:
  assumes "invite_issues g code rep = []" and "code = Some x" and "rep"
  shows "present code"
  using assms by (auto simp: invite_issues_def present_def inviteCodePattern_def split: if_splits)

text \<open>The settings of a validated configuration on a draft whose digest has the right length.\<close>

lemma settings_checks:
  assumes v: "validateConfiguration g code rep = Inr ()"
    and status: "co_publication_status r = Draft" "mc_published_at r = None" "mc_archived_at r = None"
    and version: "0 < mc_version r"
    and digest: "cg_inviteRequired g \<Longrightarrow> co_invite_digest r \<noteq> None"
      "\<And>d. co_invite_digest r = Some d \<Longrightarrow> length d = 32"
  shows "list_all snd (contest_checks (with_settings (settings_of c title slug description code' g) r))
    \<longleftrightarrow> slug = toLowerCase slug"
proof -
  have w: "window_issues g = []" and z: "size_issues g = []" using v by (simp_all add: validate_Inr)
  have "case co_invite_digest r of None \<Rightarrow> True | Some d \<Rightarrow> length d = 32"
    using digest(2) by (cases "co_invite_digest r") simp_all
  then show ?thesis
    using window_issues_Nil(3) [OF w] z status version digest(1)
    by (simp add: contest_checks_def with_settings_def settings_of_def size_issues_Nil window_valid_def
        constraints_shape_def constraints_json_def cong del: option.case_cong_weak)
qed

end
