(* ===== verification/Challenge_Templates.thy ===== *)
theory Challenge_Templates
  imports Contest_Tables
begin

text \<open>
  \<open>server/infrastructure/db/challenge-template-repository.ts\<close> and
  \<open>server/domains/challenges/service.ts\<close> with the records and errors of
  \<open>server/domains/challenges/repository.ts\<close>: challenge templates whose versions are only ever added.
\<close>

section \<open>Records, commands and errors\<close>

record asset_record =
  ar_id :: uuid
  ar_contentObjectId :: uuid
  ar_displayName :: string
  ar_sortOrder :: int

record 'release hint_record =
  hr_id :: uuid
  hr_title :: string
  hr_content :: string
  hr_release :: "'release option"
  hr_sortOrder :: int

record asset_command =
  am_contentObjectId :: uuid
  am_displayName :: string
  am_sortOrder :: int

record 'release hint_command =
  hm_title :: string
  hm_content :: string
  hm_release :: "'release option"
  hm_sortOrder :: int

record version_snapshot =
  vs_title :: string
  vs_category :: challenge_category
  vs_description :: string
  vs_flagFormat :: "string option"
  vs_flagPolicy :: flag_policy
  vs_scoringPolicy :: scoring_policy
  vs_instancePolicy :: instance_policy
  vs_assets :: "asset_command list"
  vs_hints :: "int hint_command list"

record template_version_record =
  vr_id :: uuid
  vr_templateId :: uuid
  vr_versionNumber :: int
  vr_title :: string
  vr_category :: challenge_category
  vr_description :: string
  vr_flagFormat :: "string option"
  vr_flagPolicy :: flag_policy
  vr_scoringPolicy :: scoring_policy
  vr_instancePolicy :: instance_policy
  vr_assets :: "asset_record list"
  vr_hints :: "int hint_record list"
  vr_createdBy :: uuid
  vr_createdAt :: millis

record template_detail =
  td_template :: template_row
  td_challengeVersion :: template_version_record

record create_template_command =
  ctc_actorId :: uuid
  ctc_requestId :: string
  ctc_templateId :: uuid
  ctc_versionId :: uuid
  ctc_name :: string
  ctc_slug :: string
  ctc_snapshot :: version_snapshot

record create_version_command =
  cvc_actorId :: uuid
  cvc_requestId :: string
  cvc_templateId :: uuid
  cvc_versionId :: uuid
  cvc_expectedVersion :: int
  cvc_reason :: string
  cvc_snapshot :: version_snapshot

datatype template_error =
    TemplateNotFound
  | TemplateSlugConflict
  | TemplateVersionConflict
  | TemplateContentUnavailable "uuid list"
  | TemplateDatabaseError statement_error

definition tpg :: "statement_error + 'a \<Rightarrow> template_error + 'a" where
  "tpg x = map_error TemplateDatabaseError x"

section \<open>The repository\<close>

text \<open>The object is committed and its time of commitment known.\<close>

definition available_object :: "platform \<Rightarrow> uuid \<Rightarrow> bool" where
  "available_object p i \<longleftrightarrow>
     (\<exists>r\<in>set (pl_objects p). ob_id r = i \<and> ob_status r = Committed \<and> ob_committed_at r \<noteq> None)"

definition unavailable_objects :: "platform \<Rightarrow> asset_command list \<Rightarrow> uuid list" where
  "unavailable_objects p assets = filter (\<lambda>i. \<not> available_object p i) (map am_contentObjectId assets)"

definition templateAssetsAvailable :: "platform \<Rightarrow> asset_command list \<Rightarrow> template_error + unit" where
  "templateAssetsAvailable p assets =
     (let unavailable = unavailable_objects p assets in
      if unavailable = [] then Inr () else Inl (TemplateContentUnavailable unavailable))"

definition version_row ::
  "tx_env \<Rightarrow> uuid \<Rightarrow> uuid \<Rightarrow> int \<Rightarrow> uuid \<Rightarrow> version_snapshot \<Rightarrow> template_version_row" where
  "version_row env versionId templateId versionNumber actorId s =
     \<lparr>tv_id = versionId, tv_template_id = templateId, tv_version_number = versionNumber,
      tv_title = vs_title s, tv_category = vs_category s, tv_description = vs_description s,
      tv_flag_format = vs_flagFormat s, tv_flag_policy = vs_flagPolicy s,
      tv_scoring_policy = vs_scoringPolicy s, tv_instance_policy = vs_instancePolicy s,
      tv_created_by = actorId, tv_created_at = env_now env\<rparr>"

text \<open>The rows of assets and hints; their identifiers are drawn from the \<open>k\<close>-th on.\<close>

definition asset_rows :: "tx_env \<Rightarrow> nat \<Rightarrow> uuid \<Rightarrow> asset_command list \<Rightarrow> asset_row list" where
  "asset_rows env k owner assets = map (\<lambda>(i, a). \<lparr>as_id = env_uuid env i, as_owner = owner,
     as_content_object_id = am_contentObjectId a, as_display_name = am_displayName a,
     as_sort_order = am_sortOrder a\<rparr>) (enumerate k assets)"

definition hint_rows :: "tx_env \<Rightarrow> nat \<Rightarrow> uuid \<Rightarrow> 'release hint_command list \<Rightarrow> 'release hint_row list" where
  "hint_rows env k owner hints = map (\<lambda>(i, h). \<lparr>hi_id = env_uuid env i, hi_owner = owner,
     hi_title = hm_title h, hi_content = hm_content h, hi_release = hm_release h,
     hi_sort_order = hm_sortOrder h\<rparr>) (enumerate k hints)"

definition insert_version_content ::
  "tx_env \<Rightarrow> nat \<Rightarrow> template_version_row \<Rightarrow> version_snapshot \<Rightarrow> platform \<Rightarrow> template_error + platform" where
  "insert_version_content env k row s p =
     ebind (tpg (checked (insert_template_version row p))) (\<lambda>p1.
     ebind (tpg (checked (efold insert_template_asset (asset_rows env k (tv_id row) (vs_assets s)) p1))) (\<lambda>p2.
     tpg (checked (efold insert_template_hint
       (hint_rows env (k + length (vs_assets s)) (tv_id row) (vs_hints s)) p2))))"

definition template_audit ::
  "tx_env \<Rightarrow> nat \<Rightarrow> uuid \<Rightarrow> string \<Rightarrow> string \<Rightarrow> string \<Rightarrow> uuid \<Rightarrow> string option \<Rightarrow> (string \<times> json) list
    \<Rightarrow> audit_event_row" where
  "template_audit env k actorId requestId action targetType targetId reason changes =
     \<lparr>au_id = env_uuid env k, au_actor_user_id = Some actorId, au_action = action,
      au_target_type = targetType, au_target_id = Some targetId, au_reason = reason,
      au_request_id = requestId, au_changes = changes, au_metadata = [], au_occurred_at = env_now env\<rparr>"

definition asset_record_of :: "asset_row \<Rightarrow> asset_record" where
  "asset_record_of a = \<lparr>ar_id = as_id a, ar_contentObjectId = as_content_object_id a,
     ar_displayName = as_display_name a, ar_sortOrder = as_sort_order a\<rparr>"

definition hint_record_of :: "'release hint_row \<Rightarrow> 'release hint_record" where
  "hint_record_of h = \<lparr>hr_id = hi_id h, hr_title = hi_title h, hr_content = hi_content h,
     hr_release = hi_release h, hr_sortOrder = hi_sort_order h\<rparr>"

definition owned_assets :: "asset_row list \<Rightarrow> uuid \<Rightarrow> asset_row list" where
  "owned_assets rows owner = sort_key (\<lambda>a. (as_sort_order a, as_id a)) (filter (\<lambda>a. as_owner a = owner) rows)"

definition owned_hints :: "'release hint_row list \<Rightarrow> uuid \<Rightarrow> 'release hint_row list" where
  "owned_hints rows owner = sort_key (\<lambda>h. (hi_sort_order h, hi_id h)) (filter (\<lambda>h. hi_owner h = owner) rows)"

definition version_record :: "platform \<Rightarrow> template_version_row \<Rightarrow> template_version_record" where
  "version_record p v =
     \<lparr>vr_id = tv_id v, vr_templateId = tv_template_id v, vr_versionNumber = tv_version_number v,
      vr_title = tv_title v, vr_category = tv_category v, vr_description = tv_description v,
      vr_flagFormat = tv_flag_format v, vr_flagPolicy = tv_flag_policy v,
      vr_scoringPolicy = tv_scoring_policy v, vr_instancePolicy = tv_instance_policy v,
      vr_assets = map asset_record_of (owned_assets (pl_template_assets p) (tv_id v)),
      vr_hints = map hint_record_of (owned_hints (pl_template_hints p) (tv_id v)),
      vr_createdBy = tv_created_by v, vr_createdAt = tv_created_at v\<rparr>"

text \<open>A version of a template; by default its latest.\<close>

definition read_template ::
  "platform \<Rightarrow> uuid \<Rightarrow> int option \<Rightarrow> template_error + template_detail" where
  "read_template p templateId versionNumber =
     (case find (\<lambda>t. tp_id t = templateId) (pl_templates p) of
        None \<Rightarrow> Inl TemplateNotFound
      | Some t \<Rightarrow>
          (let number = (case versionNumber of None \<Rightarrow> tp_latest_version t | Some n \<Rightarrow> n) in
           case find (\<lambda>v. tv_template_id v = templateId \<and> tv_version_number v = number)
               (pl_template_versions p) of
             None \<Rightarrow> Inl TemplateNotFound
           | Some v \<Rightarrow> Inr \<lparr>td_template = t, td_challengeVersion = version_record p v\<rparr>))"

fun map_template_slug_conflict :: "template_error \<Rightarrow> template_error" where
  "map_template_slug_conflict (TemplateDatabaseError (Constraint (UniqueViolation c))) =
     (if c = ''challenge_templates_slug_unique'' then TemplateSlugConflict
      else TemplateDatabaseError (Constraint (UniqueViolation c)))"
| "map_template_slug_conflict e = e"

definition create_template ::
  "tx_env \<Rightarrow> create_template_command \<Rightarrow> platform \<Rightarrow> template_error + (template_detail \<times> platform)" where
  "create_template env command p = map_error map_template_slug_conflict (
     let s = ctc_snapshot command; k = length (vs_assets s) + length (vs_hints s) in
     ebind (templateAssetsAvailable p (vs_assets s)) (\<lambda>_.
     ebind (tpg (checked (insert_template \<lparr>tp_id = ctc_templateId command, tp_name = ctc_name command,
        tp_slug = ctc_slug command, tp_created_by = ctc_actorId command, tp_latest_version = 1,
        tp_version = 1, tp_created_at = env_now env, tp_updated_at = env_now env\<rparr> p))) (\<lambda>p1.
     ebind (insert_version_content env 0 (version_row env (ctc_versionId command) (ctc_templateId command) 1
        (ctc_actorId command) s) s p1) (\<lambda>p2.
     ebind (tpg (audit (template_audit env k (ctc_actorId command) (ctc_requestId command)
        ''challenge.template.created'' ''challenge_template'' (ctc_templateId command) None
        [(''slug'', JStr (ctc_slug command)), (''initial_version_id'', JStr (ctc_versionId command))]) p2)) (\<lambda>p3.
     ebind (read_template p3 (ctc_templateId command) (Some 1)) (\<lambda>d. Inr (d, p3)))))))"

text \<open>The template row is locked, so the guarded update that follows hits it.\<close>

definition advance_template ::
  "tx_env \<Rightarrow> uuid \<Rightarrow> int \<Rightarrow> int \<Rightarrow> platform \<Rightarrow> template_error + platform" where
  "advance_template env templateId versionNumber expectedVersion p =
     (let hit = (\<lambda>t. tp_id t = templateId \<and> tp_version t = expectedVersion) in
      if length (filter hit (pl_templates p)) \<noteq> 1 then Inl TemplateVersionConflict
      else Inr (p\<lparr>pl_templates := map (\<lambda>t. if hit t then t\<lparr>tp_latest_version := versionNumber,
         tp_version := tp_version t + 1, tp_updated_at := env_now env\<rparr> else t) (pl_templates p)\<rparr>))"

definition create_template_version ::
  "tx_env \<Rightarrow> create_version_command \<Rightarrow> platform \<Rightarrow> template_error + (template_detail \<times> platform)" where
  "create_template_version env command p =
     (case find (\<lambda>t. tp_id t = cvc_templateId command) (pl_templates p) of
        None \<Rightarrow> Inl TemplateNotFound
      | Some current \<Rightarrow>
          if tp_version current \<noteq> cvc_expectedVersion command then Inl TemplateVersionConflict
          else (let s = cvc_snapshot command; number = tp_latest_version current + 1;
              k = length (vs_assets s) + length (vs_hints s) in
            ebind (templateAssetsAvailable p (vs_assets s)) (\<lambda>_.
            ebind (insert_version_content env 0 (version_row env (cvc_versionId command)
               (cvc_templateId command) number (cvc_actorId command) s) s p) (\<lambda>p1.
            ebind (advance_template env (cvc_templateId command) number (cvc_expectedVersion command) p1) (\<lambda>p2.
            ebind (tpg (audit (template_audit env k (cvc_actorId command) (cvc_requestId command)
               ''challenge.template.version_created'' ''challenge_template_version''
               (cvc_versionId command) (Some (cvc_reason command))
               [(''template_id'', JStr (cvc_templateId command)), (''version_number'', JNum number),
                (''previous_version_number'', JNum (tp_latest_version current))]) p2)) (\<lambda>p3.
            ebind (read_template p3 (cvc_templateId command) (Some number)) (\<lambda>d. Inr (d, p3))))))))"

section \<open>The service\<close>

datatype policy_field = FlagPolicyField | ScoringPolicyField | InstancePolicyField

datatype template_failure =
    TemplateAssetUnavailable "uuid list"
  | TemplateMissing
  | TemplateSlugTaken
  | TemplatePolicyInvalid "policy_field list"
  | TemplateVersionUnchanged
  | TemplateResourceVersionConflict
  | TemplateCapabilityRefused capability_error
  | TemplateRequestFailed statement_error

fun map_template_error :: "template_error \<Rightarrow> template_failure" where
  "map_template_error TemplateNotFound = TemplateMissing"
| "map_template_error TemplateSlugConflict = TemplateSlugTaken"
| "map_template_error TemplateVersionConflict = TemplateResourceVersionConflict"
| "map_template_error (TemplateContentUnavailable ids) = TemplateAssetUnavailable ids"
| "map_template_error (TemplateDatabaseError e) = TemplateRequestFailed e"

interpretation template_errors: service_errors TemplateCapabilityRefused map_template_error
proof
  fix e e' :: template_error
  show "map_template_error e = map_template_error e' \<Longrightarrow> e = e'" by (cases e; cases e') simp_all
  show "TemplateCapabilityRefused x \<noteq> map_template_error e" for x by (cases e) simp_all
qed simp

text \<open>
  \<open>challengePolicyErrors\<close>: the policies the schemas refuse; an absent (\<open>undefined\<close>) policy is
  skipped. The paths and messages below a policy are the schema library's.
\<close>

definition challengePolicyErrors ::
  "flag_policy option \<Rightarrow> scoring_policy option \<Rightarrow> instance_policy option \<Rightarrow> policy_field list" where
  "challengePolicyErrors flag scoring inst =
     (case flag of None \<Rightarrow> [] | Some f \<Rightarrow> if challengeFlagPolicySchema f = None then [FlagPolicyField] else [])
     @ (case scoring of None \<Rightarrow> []
        | Some s \<Rightarrow> if challengeScoringPolicySchema s = None then [ScoringPolicyField] else [])
     @ (case inst of None \<Rightarrow> []
        | Some i \<Rightarrow> if challengeInstancePolicySchema i = None then [InstancePolicyField] else [])"

definition assertChallengePolicies ::
  "flag_policy option \<Rightarrow> scoring_policy option \<Rightarrow> instance_policy option \<Rightarrow> policy_field list + unit" where
  "assertChallengePolicies flag scoring inst =
     (let issues = challengePolicyErrors flag scoring inst in if issues = [] then Inr () else Inl issues)"

text \<open>\<open>text?.trim() || null\<close>.\<close>

definition trimmed_text :: "string option \<Rightarrow> string option" where
  "trimmed_text t = (case t of None \<Rightarrow> None
     | Some s \<Rightarrow> if js_trim s = '''' then None else Some (js_trim s))"

definition trimmed_asset :: "asset_command \<Rightarrow> asset_command" where
  "trimmed_asset a = a\<lparr>am_displayName := js_trim (am_displayName a)\<rparr>"

definition trimmed_hint :: "'release hint_command \<Rightarrow> 'release hint_command" where
  "trimmed_hint h = h\<lparr>hm_title := js_trim (hm_title h), hm_content := js_trim (hm_content h)\<rparr>"

definition snapshot :: "version_snapshot \<Rightarrow> version_snapshot" where
  "snapshot s = s\<lparr>vs_title := js_trim (vs_title s), vs_description := js_trim (vs_description s),
     vs_flagFormat := trimmed_text (vs_flagFormat s), vs_assets := map trimmed_asset (vs_assets s),
     vs_hints := map trimmed_hint (vs_hints s)\<rparr>"

definition validate_snapshot :: "version_snapshot \<Rightarrow> template_failure + unit" where
  "validate_snapshot s = map_error TemplatePolicyInvalid (assertChallengePolicies
     (Some (vs_flagPolicy s)) (Some (vs_scoringPolicy s)) (Some (vs_instancePolicy s)))"

definition template_manager :: "session_subject \<Rightarrow> template_failure + unit" where
  "template_manager actor = map_error TemplateCapabilityRefused (requireIdentityCapability actor ContestManage)"

record create_template_input =
  cti_requestId :: string
  cti_name :: string
  cti_slug :: string
  cti_version :: version_snapshot

text \<open>The identifiers \<open>randomUUID()\<close> gives are arguments.\<close>

definition template_create ::
  "tx_env \<Rightarrow> uuid \<Rightarrow> uuid \<Rightarrow> session_subject \<Rightarrow> create_template_input \<Rightarrow> platform
    \<Rightarrow> template_failure + (template_detail \<times> platform)" where
  "template_create env templateId versionId actor input p =
     ebind (template_manager actor) (\<lambda>_.
     ebind (validate_snapshot (cti_version input)) (\<lambda>_.
     map_error map_template_error (create_template env
       \<lparr>ctc_actorId = sj_userId actor, ctc_requestId = cti_requestId input, ctc_templateId = templateId,
        ctc_versionId = versionId, ctc_name = js_trim (cti_name input), ctc_slug = cti_slug input,
        ctc_snapshot = snapshot (cti_version input)\<rparr> p)))"

definition template_read ::
  "session_subject \<Rightarrow> uuid \<Rightarrow> int option \<Rightarrow> platform \<Rightarrow> template_failure + template_detail" where
  "template_read actor templateId versionNumber p =
     guarded TemplateCapabilityRefused map_template_error actor ContestManage
       (read_template p templateId versionNumber)"

record create_version_input =
  cvi_requestId :: string
  cvi_templateId :: uuid
  cvi_expectedVersion :: int
  cvi_reason :: string
  cvi_title :: "string option"
  cvi_category :: "challenge_category option"
  cvi_description :: "string option"
  cvi_flagFormat :: "string option option"
  cvi_flagPolicy :: "flag_policy option"
  cvi_scoringPolicy :: "scoring_policy option"
  cvi_instancePolicy :: "instance_policy option"
  cvi_assets :: "asset_command list option"
  cvi_hints :: "int hint_command list option"

definition asset_command_of :: "asset_record \<Rightarrow> asset_command" where
  "asset_command_of a = \<lparr>am_contentObjectId = ar_contentObjectId a, am_displayName = ar_displayName a,
     am_sortOrder = ar_sortOrder a\<rparr>"

definition hint_command_of :: "'release hint_record \<Rightarrow> 'release hint_command" where
  "hint_command_of h = \<lparr>hm_title = hr_title h, hm_content = hr_content h, hm_release = hr_release h,
     hm_sortOrder = hr_sortOrder h\<rparr>"

definition current_snapshot :: "template_version_record \<Rightarrow> version_snapshot" where
  "current_snapshot v = \<lparr>vs_title = vr_title v, vs_category = vr_category v,
     vs_description = vr_description v, vs_flagFormat = vr_flagFormat v, vs_flagPolicy = vr_flagPolicy v,
     vs_scoringPolicy = vr_scoringPolicy v, vs_instancePolicy = vr_instancePolicy v,
     vs_assets = map asset_command_of (vr_assets v), vs_hints = map hint_command_of (vr_hints v)\<rparr>"

definition merged_snapshot :: "template_version_record \<Rightarrow> create_version_input \<Rightarrow> version_snapshot" where
  "merged_snapshot v input = (let c = current_snapshot v in
     \<lparr>vs_title = or_default (cvi_title input) (vs_title c),
      vs_category = or_default (cvi_category input) (vs_category c),
      vs_description = or_default (cvi_description input) (vs_description c),
      vs_flagFormat = or_default (cvi_flagFormat input) (vs_flagFormat c),
      vs_flagPolicy = or_default (cvi_flagPolicy input) (vs_flagPolicy c),
      vs_scoringPolicy = or_default (cvi_scoringPolicy input) (vs_scoringPolicy c),
      vs_instancePolicy = or_default (cvi_instancePolicy input) (vs_instancePolicy c),
      vs_assets = or_default (cvi_assets input) (vs_assets c),
      vs_hints = or_default (cvi_hints input) (vs_hints c)\<rparr>)"

definition prepare_version ::
  "session_subject \<Rightarrow> create_version_input \<Rightarrow> platform \<Rightarrow> template_failure + version_snapshot" where
  "prepare_version actor input seen =
     ebind (template_manager actor) (\<lambda>_.
     ebind (map_error map_template_error (read_template seen (cvi_templateId input) None)) (\<lambda>current.
     if tp_version (td_template current) \<noteq> cvi_expectedVersion input
     then Inl TemplateResourceVersionConflict
     else let next = snapshot (merged_snapshot (td_challengeVersion current) input) in
       if snapshot (current_snapshot (td_challengeVersion current)) = next
       then Inl TemplateVersionUnchanged
       else ebind (validate_snapshot next) (\<lambda>_. Inr next)))"

text \<open>The template is read in the state \<open>seen\<close>, the version created in the state \<open>p\<close>.\<close>

definition template_createVersion ::
  "tx_env \<Rightarrow> uuid \<Rightarrow> session_subject \<Rightarrow> create_version_input \<Rightarrow> platform \<Rightarrow> platform
    \<Rightarrow> template_failure + (template_detail \<times> platform)" where
  "template_createVersion env versionId actor input seen p =
     ebind (prepare_version actor input seen) (\<lambda>next.
     map_error map_template_error (create_template_version env
       \<lparr>cvc_actorId = sj_userId actor, cvc_requestId = cvi_requestId input,
        cvc_templateId = cvi_templateId input, cvc_versionId = versionId,
        cvc_expectedVersion = cvi_expectedVersion input, cvc_reason = js_trim (cvi_reason input),
        cvc_snapshot = next\<rparr> p))"

end
