(* ===== verification/Contest_Challenges.thy ===== *)
theory Contest_Challenges
  imports Challenge_Templates
begin

text \<open>
  \<open>server/infrastructure/db/contest-challenge-repository.ts\<close> with the records and errors of
  \<open>server/domains/challenges/contest-challenge-repository.ts\<close>: mounting a template version on a draft
  contest as a snapshot, revising the snapshot of a published contest, and what players read.
\<close>

section \<open>Records, commands and errors\<close>

text \<open>The columns of the row with the source's number and the children.\<close>

record contest_challenge_record =
  cl_row :: managed_challenge
  cl_sourceVersionNumber :: int
  cl_assets :: "asset_record list"
  cl_hints :: "millis hint_record list"

datatype instance_type = InstanceNone | InstanceDynamic

record player_challenge_record =
  pc_id :: uuid
  pc_contestId :: uuid
  pc_snapshotRevision :: int
  pc_title :: string
  pc_category :: challenge_category
  pc_description :: string
  pc_flagFormat :: "string option"
  pc_instanceType :: instance_type
  pc_assets :: "asset_record list"
  pc_hints :: "millis hint_record list"
  pc_publishAt :: "millis option"
  pc_closeAt :: "millis option"
  pc_submissionLimit :: "int option"
  pc_sortOrder :: int
  pc_version :: int

record player_context =
  px_contestPhase :: contest_time_phase
  px_participationStatus :: "participation_status option"

record mount_command =
  mo_actorId :: uuid
  mo_requestId :: string
  mo_challengeId :: uuid
  mo_contestId :: uuid
  mo_templateVersionId :: uuid
  mo_enabled :: bool
  mo_publishAt :: "millis option"
  mo_closeAt :: "millis option"
  mo_submissionLimit :: "int option"
  mo_sortOrder :: int

record revise_command =
  re_actorId :: uuid
  re_requestId :: string
  re_contestId :: uuid
  re_challengeId :: uuid
  re_expectedVersion :: int
  re_reason :: string
  re_title :: "string option"
  re_category :: "challenge_category option"
  re_description :: "string option"
  re_flagFormat :: "string option option"
  re_flagPolicy :: "flag_policy option"
  re_scoringPolicy :: "scoring_policy option"
  re_instancePolicy :: "instance_policy option"
  re_assets :: "asset_command list option"
  re_hints :: "millis hint_command list option"
  re_enabled :: "bool option"
  re_publishAt :: "millis option option"
  re_closeAt :: "millis option option"
  re_submissionLimit :: "int option option"
  re_sortOrder :: "int option"

text \<open>What \<open>snapshotValue\<close> compares.\<close>

record challenge_snapshot =
  sv_title :: string
  sv_category :: challenge_category
  sv_description :: string
  sv_flagFormat :: "string option"
  sv_flagPolicy :: flag_policy
  sv_scoringPolicy :: scoring_policy
  sv_instancePolicy :: instance_policy
  sv_assets :: "asset_command list"
  sv_hints :: "millis hint_command list"
  sv_enabled :: bool
  sv_publishAt :: "millis option"
  sv_closeAt :: "millis option"
  sv_submissionLimit :: "int option"
  sv_sortOrder :: int

datatype contest_challenge_error =
    ContestChallengeNotFound
  | ContestChallengeTemplateVersionNotFound
  | ContestChallengeTitleConflict
  | ContestChallengeConfigurationLocked
  | ContestChallengeRevisionNotAllowed
  | ContestChallengeArchived
  | ContestChallengeVersionConflict
  | ContestChallengeRevisionUnchanged
  | ContestChallengeContentUnavailable "uuid list"
  | ContestChallengeDatabaseError statement_error

definition hpg :: "statement_error + 'a \<Rightarrow> contest_challenge_error + 'a" where
  "hpg x = map_error ContestChallengeDatabaseError x"

fun map_title_conflict :: "contest_challenge_error \<Rightarrow> contest_challenge_error" where
  "map_title_conflict (ContestChallengeDatabaseError (Constraint (UniqueViolation c))) =
     (if c = ''contest_challenges_contest_title_unique'' then ContestChallengeTitleConflict
      else ContestChallengeDatabaseError (Constraint (UniqueViolation c)))"
| "map_title_conflict e = e"

section \<open>Reading\<close>

definition find_challenge :: "platform \<Rightarrow> uuid \<Rightarrow> uuid \<Rightarrow> managed_challenge option" where
  "find_challenge p contestId challengeId =
     find (\<lambda>c. ch_contest_id c = contestId \<and> ch_id c = challengeId) (pl_challenges p)"

definition readAssets :: "platform \<Rightarrow> uuid \<Rightarrow> asset_record list" where
  "readAssets p challengeId = map asset_record_of (owned_assets (pl_assets p) challengeId)"

definition readHints :: "platform \<Rightarrow> uuid \<Rightarrow> millis hint_record list" where
  "readHints p challengeId = map hint_record_of (owned_hints (pl_hints p) challengeId)"

text \<open>The row joined with its source version.\<close>

definition readWith :: "platform \<Rightarrow> uuid \<Rightarrow> uuid \<Rightarrow> contest_challenge_error + contest_challenge_record" where
  "readWith p contestId challengeId =
     (case find_challenge p contestId challengeId of
        None \<Rightarrow> Inl ContestChallengeNotFound
      | Some c \<Rightarrow>
          (case find (\<lambda>v. tv_id v = mh_source_version_id c) (pl_template_versions p) of
             None \<Rightarrow> Inl ContestChallengeNotFound
           | Some v \<Rightarrow> Inr \<lparr>cl_row = c, cl_sourceVersionNumber = tv_version_number v,
               cl_assets = readAssets p challengeId, cl_hints = readHints p challengeId\<rparr>))"

text \<open>The two left joins: a player without a team, and a team without a registration, give \<open>NULL\<close>.\<close>

definition player_statuses :: "platform \<Rightarrow> uuid \<Rightarrow> uuid \<Rightarrow> participation_status option list" where
  "player_statuses p userId contestId =
     (let db = pl_rest p;
          teams = map tm_team_id (filter (\<lambda>m. tm_user_id m = userId) (db_team_members db));
          of_team = (\<lambda>t. filter (\<lambda>r. pa_contest_id r = contestId \<and> pa_team_id r = t) (db_participations db)) in
      if teams = [] then [None]
      else concat (map (\<lambda>t. if of_team t = [] then [None] else map (\<lambda>r. Some (pa_status r)) (of_team t)) teams))"

definition readPlayerContext ::
  "platform \<Rightarrow> uuid \<Rightarrow> uuid \<Rightarrow> millis \<Rightarrow> contest_challenge_error + player_context" where
  "readPlayerContext p userId contestId time =
     (case find (\<lambda>r. co_id r = contestId) (pl_contests p) of
        None \<Rightarrow> Inl ContestChallengeNotFound
      | Some r \<Rightarrow>
          if co_publication_status r \<notin> {Published, Archived} then Inl ContestChallengeNotFound
          else (case find (\<lambda>s. co_visibility r = PublicContest \<or> s = Some Accepted)
              (player_statuses p userId contestId) of
            None \<Rightarrow> Inl ContestChallengeNotFound
          | Some s \<Rightarrow> Inr \<lparr>px_contestPhase = (if co_publication_status r = Archived then Ended
                else derive_contest_time_phase (co_start_at r) (co_end_at r) time),
              px_participationStatus = s\<rparr>))"

definition instance_type_of :: "instance_policy \<Rightarrow> instance_type" where
  "instance_type_of policy = (case policy of DynamicInstance _ \<Rightarrow> InstanceDynamic | NoInstance \<Rightarrow> InstanceNone)"

definition playerRecord :: "platform \<Rightarrow> managed_challenge \<Rightarrow> player_challenge_record" where
  "playerRecord p c = \<lparr>pc_id = ch_id c, pc_contestId = ch_contest_id c,
     pc_snapshotRevision = mh_snapshot_revision c, pc_title = mh_title c, pc_category = mh_category c,
     pc_description = mh_description c, pc_flagFormat = ch_flag_format c,
     pc_instanceType = instance_type_of (mh_instance_policy c), pc_assets = readAssets p (ch_id c),
     pc_hints = readHints p (ch_id c), pc_publishAt = ch_publish_at c, pc_closeAt = ch_close_at c,
     pc_submissionLimit = ch_submission_limit c, pc_sortOrder = mh_sort_order c, pc_version = mh_version c\<rparr>"

definition listForPlayer ::
  "platform \<Rightarrow> uuid \<Rightarrow> uuid \<Rightarrow> millis
    \<Rightarrow> contest_challenge_error + (player_context \<times> player_challenge_record list)" where
  "listForPlayer p userId contestId time =
     ebind (readPlayerContext p userId contestId time) (\<lambda>x.
     Inr (x, map (playerRecord p) (sort_key (\<lambda>c. (mh_sort_order c, ch_id c))
       (filter (\<lambda>c. ch_contest_id c = contestId \<and> ch_enabled c) (pl_challenges p)))))"

definition readForPlayer ::
  "platform \<Rightarrow> uuid \<Rightarrow> uuid \<Rightarrow> uuid \<Rightarrow> millis
    \<Rightarrow> contest_challenge_error + (player_context \<times> player_challenge_record)" where
  "readForPlayer p userId contestId challengeId time =
     ebind (readPlayerContext p userId contestId time) (\<lambda>x.
     case find (\<lambda>c. ch_contest_id c = contestId \<and> ch_id c = challengeId \<and> ch_enabled c) (pl_challenges p) of
       None \<Rightarrow> Inl ContestChallengeNotFound
     | Some c \<Rightarrow> Inr (x, playerRecord p c))"

section \<open>Mounting a template version\<close>

definition assertAssetsAvailable :: "platform \<Rightarrow> asset_command list \<Rightarrow> contest_challenge_error + unit" where
  "assertAssetsAvailable p assets =
     (let unavailable = unavailable_objects p assets in
      if unavailable = [] then Inr () else Inl (ContestChallengeContentUnavailable unavailable))"

definition readTemplateAssets :: "platform \<Rightarrow> uuid \<Rightarrow> asset_command list" where
  "readTemplateAssets p versionId =
     map (\<lambda>a. asset_command_of (asset_record_of a)) (owned_assets (pl_template_assets p) versionId)"

definition readTemplateHints :: "platform \<Rightarrow> uuid \<Rightarrow> int hint_command list" where
  "readTemplateHints p versionId =
     map (\<lambda>h. hint_command_of (hint_record_of h)) (owned_hints (pl_template_hints p) versionId)"

text \<open>A relative release becomes a time: so many seconds after the challenge is published.\<close>

definition scheduled_hint :: "millis \<Rightarrow> int hint_command \<Rightarrow> millis hint_command" where
  "scheduled_hint base h = \<lparr>hm_title = hm_title h, hm_content = hm_content h,
     hm_release = map_option (\<lambda>s. base + s * 1000) (hm_release h), hm_sortOrder = hm_sortOrder h\<rparr>"

definition mounted_row :: "tx_env \<Rightarrow> mount_command \<Rightarrow> template_version_row \<Rightarrow> managed_challenge" where
  "mounted_row env command v = \<lparr>ch_id = mo_challengeId command, ch_contest_id = mo_contestId command,
     ch_enabled = mo_enabled command, ch_publish_at = mo_publishAt command,
     ch_close_at = mo_closeAt command, ch_submission_limit = mo_submissionLimit command,
     ch_flag_format = tv_flag_format v, ch_flag_policy = tv_flag_policy v,
     ch_scoring_policy = tv_scoring_policy v, mh_source_template_id = tv_template_id v,
     mh_source_version_id = tv_id v, mh_snapshot_revision = 1, mh_title = tv_title v,
     mh_category = tv_category v, mh_description = tv_description v,
     mh_instance_policy = tv_instance_policy v, mh_sort_order = mo_sortOrder command, mh_version = 1,
     mh_created_at = env_now env, mh_updated_at = env_now env\<rparr>"

definition challenge_audit ::
  "tx_env \<Rightarrow> nat \<Rightarrow> uuid \<Rightarrow> string \<Rightarrow> uuid \<Rightarrow> string \<Rightarrow> string option \<Rightarrow> (string \<times> json) list
    \<Rightarrow> audit_event_row" where
  "challenge_audit env k actorId requestId challengeId action reason changes =
     \<lparr>au_id = env_uuid env k, au_actor_user_id = Some actorId, au_action = action,
      au_target_type = ''contest_challenge'', au_target_id = Some challengeId, au_reason = reason,
      au_request_id = requestId, au_changes = changes, au_metadata = [], au_occurred_at = env_now env\<rparr>"

definition insertAssets ::
  "tx_env \<Rightarrow> nat \<Rightarrow> bool \<Rightarrow> uuid \<Rightarrow> asset_command list \<Rightarrow> platform \<Rightarrow> contest_challenge_error + platform" where
  "insertAssets env k revision challengeId assets p =
     hpg (efold (insert_asset revision) (asset_rows env k challengeId assets) p)"

definition insertHints ::
  "tx_env \<Rightarrow> nat \<Rightarrow> bool \<Rightarrow> uuid \<Rightarrow> millis hint_command list \<Rightarrow> platform
    \<Rightarrow> contest_challenge_error + platform" where
  "insertHints env k revision challengeId hints p =
     hpg (efold (insert_hint revision) (hint_rows env k challengeId hints) p)"

definition mount_challenge ::
  "tx_env \<Rightarrow> mount_command \<Rightarrow> platform \<Rightarrow> contest_challenge_error + (contest_challenge_record \<times> platform)" where
  "mount_challenge env command p = map_error map_title_conflict (
     case find (\<lambda>r. co_id r = mo_contestId command) (pl_contests p) of
       None \<Rightarrow> Inl ContestChallengeNotFound
     | Some contest \<Rightarrow>
         if co_publication_status contest \<noteq> Draft then Inl ContestChallengeConfigurationLocked
         else case find (\<lambda>v. tv_id v = mo_templateVersionId command) (pl_template_versions p) of
           None \<Rightarrow> Inl ContestChallengeTemplateVersionNotFound
         | Some template \<Rightarrow>
             (let assets = readTemplateAssets p (tv_id template);
                  base = or_default (mo_publishAt command) (co_start_at contest);
                  hints = map (scheduled_hint base) (readTemplateHints p (tv_id template)) in
              ebind (assertAssetsAvailable p assets) (\<lambda>_.
              ebind (hpg (insert_challenge (mounted_row env command template) p)) (\<lambda>p1.
              ebind (insertAssets env 0 False (mo_challengeId command) assets p1) (\<lambda>p2.
              ebind (insertHints env (length assets) False (mo_challengeId command) hints p2) (\<lambda>p3.
              ebind (hpg (audit (challenge_audit env (length assets + length hints) (mo_actorId command)
                 (mo_requestId command) (mo_challengeId command) ''contest.challenge.mounted'' None
                 [(''contest_id'', JStr (mo_contestId command)),
                  (''source_template_id'', JStr (tv_template_id template)),
                  (''source_version_id'', JStr (tv_id template)),
                  (''source_version_number'', JNum (tv_version_number template)),
                  (''snapshot_revision'', JNum 1)]) p3)) (\<lambda>p4.
              ebind (readWith p4 (mo_contestId command) (mo_challengeId command)) (\<lambda>r. Inr (r, p4)))))))))"

section \<open>Revising a snapshot\<close>

definition snapshotValue :: "contest_challenge_record \<Rightarrow> challenge_snapshot" where
  "snapshotValue r = (let c = cl_row r in
     \<lparr>sv_title = mh_title c, sv_category = mh_category c, sv_description = mh_description c,
      sv_flagFormat = ch_flag_format c, sv_flagPolicy = ch_flag_policy c,
      sv_scoringPolicy = ch_scoring_policy c, sv_instancePolicy = mh_instance_policy c,
      sv_assets = map asset_command_of (cl_assets r), sv_hints = map hint_command_of (cl_hints r),
      sv_enabled = ch_enabled c, sv_publishAt = ch_publish_at c, sv_closeAt = ch_close_at c,
      sv_submissionLimit = ch_submission_limit c, sv_sortOrder = mh_sort_order c\<rparr>)"

definition revised_snapshot :: "revise_command \<Rightarrow> challenge_snapshot \<Rightarrow> challenge_snapshot" where
  "revised_snapshot command s =
     \<lparr>sv_title = or_default (re_title command) (sv_title s),
      sv_category = or_default (re_category command) (sv_category s),
      sv_description = or_default (re_description command) (sv_description s),
      sv_flagFormat = or_default (re_flagFormat command) (sv_flagFormat s),
      sv_flagPolicy = or_default (re_flagPolicy command) (sv_flagPolicy s),
      sv_scoringPolicy = or_default (re_scoringPolicy command) (sv_scoringPolicy s),
      sv_instancePolicy = or_default (re_instancePolicy command) (sv_instancePolicy s),
      sv_assets = or_default (re_assets command) (sv_assets s),
      sv_hints = or_default (re_hints command) (sv_hints s),
      sv_enabled = or_default (re_enabled command) (sv_enabled s),
      sv_publishAt = or_default (re_publishAt command) (sv_publishAt s),
      sv_closeAt = or_default (re_closeAt command) (sv_closeAt s),
      sv_submissionLimit = or_default (re_submissionLimit command) (sv_submissionLimit s),
      sv_sortOrder = or_default (re_sortOrder command) (sv_sortOrder s)\<rparr>"

definition changed_fields :: "challenge_snapshot \<Rightarrow> challenge_snapshot \<Rightarrow> string list" where
  "changed_fields a b =
     (if sv_title a \<noteq> sv_title b then [''title''] else [])
     @ (if sv_category a \<noteq> sv_category b then [''category''] else [])
     @ (if sv_description a \<noteq> sv_description b then [''description''] else [])
     @ (if sv_flagFormat a \<noteq> sv_flagFormat b then [''flagFormat''] else [])
     @ (if sv_flagPolicy a \<noteq> sv_flagPolicy b then [''flagPolicy''] else [])
     @ (if sv_scoringPolicy a \<noteq> sv_scoringPolicy b then [''scoringPolicy''] else [])
     @ (if sv_instancePolicy a \<noteq> sv_instancePolicy b then [''instancePolicy''] else [])
     @ (if sv_assets a \<noteq> sv_assets b then [''assets''] else [])
     @ (if sv_hints a \<noteq> sv_hints b then [''hints''] else [])
     @ (if sv_enabled a \<noteq> sv_enabled b then [''enabled''] else [])
     @ (if sv_publishAt a \<noteq> sv_publishAt b then [''publishAt''] else [])
     @ (if sv_closeAt a \<noteq> sv_closeAt b then [''closeAt''] else [])
     @ (if sv_submissionLimit a \<noteq> sv_submissionLimit b then [''submissionLimit''] else [])
     @ (if sv_sortOrder a \<noteq> sv_sortOrder b then [''sortOrder''] else [])"

definition revised_row :: "tx_env \<Rightarrow> challenge_snapshot \<Rightarrow> managed_challenge \<Rightarrow> managed_challenge" where
  "revised_row env s c = c\<lparr>mh_snapshot_revision := mh_snapshot_revision c + 1, mh_title := sv_title s,
     mh_category := sv_category s, mh_description := sv_description s, ch_flag_format := sv_flagFormat s,
     ch_flag_policy := sv_flagPolicy s, ch_scoring_policy := sv_scoringPolicy s,
     mh_instance_policy := sv_instancePolicy s, ch_enabled := sv_enabled s,
     ch_publish_at := sv_publishAt s, ch_close_at := sv_closeAt s,
     ch_submission_limit := sv_submissionLimit s, mh_sort_order := sv_sortOrder s,
     mh_version := mh_version c + 1, mh_updated_at := env_now env\<rparr>"

text \<open>The children are replaced when the command names them.\<close>

definition replace_assets ::
  "tx_env \<Rightarrow> uuid \<Rightarrow> asset_command list option \<Rightarrow> platform \<Rightarrow> contest_challenge_error + platform" where
  "replace_assets env challengeId assets p =
     (case assets of
        None \<Rightarrow> Inr p
      | Some xs \<Rightarrow> ebind (hpg (delete_assets True challengeId p)) (insertAssets env 0 True challengeId xs))"

definition replace_hints ::
  "tx_env \<Rightarrow> nat \<Rightarrow> uuid \<Rightarrow> millis hint_command list option \<Rightarrow> platform
    \<Rightarrow> contest_challenge_error + platform" where
  "replace_hints env k challengeId hints p =
     (case hints of
        None \<Rightarrow> Inr p
      | Some xs \<Rightarrow> ebind (hpg (delete_hints True challengeId p)) (insertHints env k True challengeId xs))"

definition list_length :: "'a list option \<Rightarrow> nat" where
  "list_length xs = (case xs of None \<Rightarrow> 0 | Some ys \<Rightarrow> length ys)"

definition store_revision ::
  "tx_env \<Rightarrow> revise_command \<Rightarrow> contest_challenge_record \<Rightarrow> challenge_snapshot \<Rightarrow> platform
    \<Rightarrow> contest_challenge_error + (contest_challenge_record \<times> platform)" where
  "store_revision env command current next p =
     (let contestId = re_contestId command; challengeId = re_challengeId command in
      ebind (hpg (update_challenge True (\<lambda>c. ch_id c = challengeId \<and> ch_contest_id c = contestId
          \<and> mh_version c = re_expectedVersion command) (revised_row env next) p)) (\<lambda>(rowCount, p1).
      if rowCount \<noteq> 1 then Inl ContestChallengeVersionConflict
      else ebind (replace_assets env challengeId (re_assets command) p1) (\<lambda>p2.
       ebind (replace_hints env (list_length (re_assets command)) challengeId (re_hints command) p2) (\<lambda>p3.
       ebind (hpg (audit (challenge_audit env (list_length (re_assets command) + list_length (re_hints command))
          (re_actorId command) (re_requestId command) challengeId ''contest.challenge.snapshot_revised''
          (Some (re_reason command))
          [(''contest_id'', JStr contestId),
           (''previous_snapshot_revision'', JNum (mh_snapshot_revision (cl_row current))),
           (''snapshot_revision'', JNum (mh_snapshot_revision (cl_row current) + 1)),
           (''resource_version'', JNum (mh_version (cl_row current) + 1)),
           (''changed_fields'', JArr (map JStr (changed_fields (snapshotValue current) next)))]) p3)) (\<lambda>p4.
       ebind (readWith p4 contestId challengeId) (\<lambda>r. Inr (r, p4)))))))"

definition revise_challenge ::
  "tx_env \<Rightarrow> revise_command \<Rightarrow> platform \<Rightarrow> contest_challenge_error + (contest_challenge_record \<times> platform)" where
  "revise_challenge env command p = map_error map_title_conflict (
     case find_challenge p (re_contestId command) (re_challengeId command) of
       None \<Rightarrow> Inl ContestChallengeNotFound
     | Some c \<Rightarrow>
         (case status_of p (re_contestId command) of
            None \<Rightarrow> Inl ContestChallengeNotFound
          | Some status \<Rightarrow>
              if status = Archived then Inl ContestChallengeArchived
              else if status \<noteq> Published then Inl ContestChallengeRevisionNotAllowed
              else if mh_version c \<noteq> re_expectedVersion command then Inl ContestChallengeVersionConflict
              else ebind (readWith p (re_contestId command) (re_challengeId command)) (\<lambda>current.
                let next = revised_snapshot command (snapshotValue current) in
                if snapshotValue current = next then Inl ContestChallengeRevisionUnchanged
                else ebind (assertAssetsAvailable p (sv_assets next)) (\<lambda>_.
                     store_revision env command current next p))))"

end
