(* ===== verification/Contest_Challenge_Service.thy ===== *)
theory Contest_Challenge_Service
  imports Contest_Challenges
begin

text \<open>
  \<open>server/domains/challenges/contest-challenge-service.ts\<close>: what managers may do with the challenges
  of a contest, and what of a challenge a player is shown. The clock the service is built with and
  the identifier \<open>randomUUID()\<close> gives are arguments.
\<close>

datatype contest_challenge_failure =
    ChallengeAssetUnavailable "uuid list"
  | ChallengeConfigurationLocked
  | ChallengeContestArchived
  | ChallengeMissing
  | ChallengeRevisionNotAllowed
  | ChallengePolicyInvalid "policy_field list"
  | ChallengeRevisionReasonRequired
  | ChallengeRevisionUnchanged
  | ChallengeTemplateVersionMissing
  | ChallengeTitleConflict
  | ChallengeResourceVersionConflict
  | ChallengeCapabilityRefused capability_error
  | ChallengeRequestFailed statement_error

fun map_challenge_error :: "contest_challenge_error \<Rightarrow> contest_challenge_failure" where
  "map_challenge_error ContestChallengeNotFound = ChallengeMissing"
| "map_challenge_error ContestChallengeTemplateVersionNotFound = ChallengeTemplateVersionMissing"
| "map_challenge_error ContestChallengeTitleConflict = ChallengeTitleConflict"
| "map_challenge_error ContestChallengeConfigurationLocked = ChallengeConfigurationLocked"
| "map_challenge_error ContestChallengeRevisionNotAllowed = ChallengeRevisionNotAllowed"
| "map_challenge_error ContestChallengeArchived = ChallengeContestArchived"
| "map_challenge_error ContestChallengeVersionConflict = ChallengeResourceVersionConflict"
| "map_challenge_error ContestChallengeRevisionUnchanged = ChallengeRevisionUnchanged"
| "map_challenge_error (ContestChallengeContentUnavailable ids) = ChallengeAssetUnavailable ids"
| "map_challenge_error (ContestChallengeDatabaseError e) = ChallengeRequestFailed e"

interpretation challenge_errors: service_errors ChallengeCapabilityRefused map_challenge_error
proof
  fix e e' :: contest_challenge_error
  show "map_challenge_error e = map_challenge_error e' \<Longrightarrow> e = e'" by (cases e; cases e') simp_all
  show "ChallengeCapabilityRefused x \<noteq> map_challenge_error e" for x by (cases e) simp_all
qed simp

abbreviation challenge_guarded where
  "challenge_guarded \<equiv> guarded ChallengeCapabilityRefused map_challenge_error"

section \<open>Managers\<close>

record mount_input =
  moi_requestId :: string
  moi_contestId :: uuid
  moi_templateVersionId :: uuid
  moi_enabled :: bool
  moi_publishAt :: "millis option"
  moi_closeAt :: "millis option"
  moi_submissionLimit :: "int option"
  moi_sortOrder :: int

definition mount_command_of :: "uuid \<Rightarrow> session_subject \<Rightarrow> mount_input \<Rightarrow> mount_command" where
  "mount_command_of challengeId actor input = \<lparr>mo_actorId = sj_userId actor,
     mo_requestId = moi_requestId input, mo_challengeId = challengeId, mo_contestId = moi_contestId input,
     mo_templateVersionId = moi_templateVersionId input, mo_enabled = moi_enabled input,
     mo_publishAt = moi_publishAt input, mo_closeAt = moi_closeAt input,
     mo_submissionLimit = moi_submissionLimit input, mo_sortOrder = moi_sortOrder input\<rparr>"

definition challenge_mount ::
  "tx_env \<Rightarrow> uuid \<Rightarrow> session_subject \<Rightarrow> mount_input \<Rightarrow> platform
    \<Rightarrow> contest_challenge_failure + (contest_challenge_record \<times> platform)" where
  "challenge_mount env challengeId actor input p =
     challenge_guarded actor ContestManage (mount_challenge env (mount_command_of challengeId actor input) p)"

definition challenge_read ::
  "session_subject \<Rightarrow> uuid \<Rightarrow> uuid \<Rightarrow> platform \<Rightarrow> contest_challenge_failure + contest_challenge_record" where
  "challenge_read actor contestId challengeId p =
     challenge_guarded actor ContestManage (readWith p contestId challengeId)"

text \<open>The request of a revision has the fields of the command, its actor excepted.\<close>

definition revise_command_of :: "session_subject \<Rightarrow> revise_command \<Rightarrow> revise_command" where
  "revise_command_of actor input = input\<lparr>re_actorId := sj_userId actor,
     re_reason := js_trim (re_reason input), re_title := map_option js_trim (re_title input),
     re_description := map_option js_trim (re_description input),
     re_flagFormat := map_option trimmed_text (re_flagFormat input),
     re_assets := map_option (map trimmed_asset) (re_assets input),
     re_hints := map_option (map trimmed_hint) (re_hints input)\<rparr>"

definition challenge_revise ::
  "tx_env \<Rightarrow> session_subject \<Rightarrow> revise_command \<Rightarrow> platform
    \<Rightarrow> contest_challenge_failure + (contest_challenge_record \<times> platform)" where
  "challenge_revise env actor input p =
     ebind (map_error ChallengeCapabilityRefused (requireIdentityCapability actor ContestManage)) (\<lambda>_.
     if js_trim (re_reason input) = '''' then Inl ChallengeRevisionReasonRequired
     else ebind (map_error ChallengePolicyInvalid (assertChallengePolicies (re_flagPolicy input)
            (re_scoringPolicy input) (re_instancePolicy input))) (\<lambda>_.
          map_error map_challenge_error (revise_challenge env (revise_command_of actor input) p)))"

section \<open>Players\<close>

datatype challenge_state = ChallengeLocked | ChallengeOpen | ChallengeClosed

record player_asset =
  ya_id :: uuid
  ya_displayName :: string
  ya_sortOrder :: int

record player_hint =
  yh_id :: uuid
  yh_title :: string
  yh_content :: string
  yh_releasedAt :: "millis option"
  yh_sortOrder :: int

record challenge_content =
  yc_description :: string
  yc_flagFormat :: "string option"
  yc_instanceType :: instance_type
  yc_submissionLimit :: "int option"
  yc_assets :: "player_asset list"
  yc_hints :: "player_hint list"

record player_projection =
  yp_id :: uuid
  yp_contestId :: uuid
  yp_snapshotRevision :: int
  yp_title :: string
  yp_category :: challenge_category
  yp_publishAt :: "millis option"
  yp_closeAt :: "millis option"
  yp_sortOrder :: int
  yp_version :: int
  yp_state :: challenge_state
  yp_content :: "challenge_content option"

text \<open>\<open>t === null || t <= at\<close>.\<close>

definition reached :: "millis option \<Rightarrow> millis \<Rightarrow> bool" where
  "reached t time = (case t of None \<Rightarrow> True | Some s \<Rightarrow> s \<le> time)"

definition content_visible :: "player_context \<Rightarrow> player_challenge_record \<Rightarrow> millis \<Rightarrow> bool" where
  "content_visible x c time \<longleftrightarrow> px_participationStatus x = Some Accepted
     \<and> px_contestPhase x \<noteq> Upcoming \<and> reached (pc_publishAt c) time"

definition player_content :: "player_challenge_record \<Rightarrow> millis \<Rightarrow> challenge_content" where
  "player_content c time = \<lparr>yc_description = pc_description c, yc_flagFormat = pc_flagFormat c,
     yc_instanceType = pc_instanceType c, yc_submissionLimit = pc_submissionLimit c,
     yc_assets = map (\<lambda>a. \<lparr>ya_id = ar_id a, ya_displayName = ar_displayName a,
       ya_sortOrder = ar_sortOrder a\<rparr>) (pc_assets c),
     yc_hints = map (\<lambda>h. \<lparr>yh_id = hr_id h, yh_title = hr_title h, yh_content = hr_content h,
       yh_releasedAt = hr_release h, yh_sortOrder = hr_sortOrder h\<rparr>)
       (filter (\<lambda>h. reached (hr_release h) time) (pc_hints c))\<rparr>"

definition playerProjection :: "player_context \<Rightarrow> player_challenge_record \<Rightarrow> millis \<Rightarrow> player_projection" where
  "playerProjection x c time =
     (let visible = content_visible x c time;
          closed = px_contestPhase x = Ended \<or> (pc_closeAt c \<noteq> None \<and> reached (pc_closeAt c) time) in
      \<lparr>yp_id = pc_id c, yp_contestId = pc_contestId c, yp_snapshotRevision = pc_snapshotRevision c,
       yp_title = pc_title c, yp_category = pc_category c, yp_publishAt = pc_publishAt c,
       yp_closeAt = pc_closeAt c, yp_sortOrder = pc_sortOrder c, yp_version = pc_version c,
       yp_state = (if \<not> visible then ChallengeLocked else if closed then ChallengeClosed
         else ChallengeOpen),
       yp_content = (if visible then Some (player_content c time) else None)\<rparr>)"

definition challenge_listForPlayer ::
  "millis \<Rightarrow> session_subject \<Rightarrow> uuid \<Rightarrow> platform \<Rightarrow> contest_challenge_failure + player_projection list" where
  "challenge_listForPlayer now actor contestId p =
     map_sum id (\<lambda>(x, cs). map (\<lambda>c. playerProjection x c now) cs)
       (challenge_guarded actor PublicBrowse (listForPlayer p (sj_userId actor) contestId now))"

definition challenge_readForPlayer ::
  "millis \<Rightarrow> session_subject \<Rightarrow> uuid \<Rightarrow> uuid \<Rightarrow> platform
    \<Rightarrow> contest_challenge_failure + player_projection" where
  "challenge_readForPlayer now actor contestId challengeId p =
     map_sum id (\<lambda>(x, c). playerProjection x c now)
       (challenge_guarded actor PublicBrowse (readForPlayer p (sj_userId actor) contestId challengeId now))"

end
