(* ===== verification/Challenge_Facts.thy ===== *)
theory Challenge_Facts
  imports Contest_Facts Contest_Challenge_Service
begin

text \<open>
  What the operations on templates and contest challenges do, and the invariants of their tables:
  versions are numbered without gaps and never change, and every challenge is a valid snapshot.
\<close>

section \<open>Statements\<close>

lemma template_pg_Inr [simp]: "tpg x = Inr a \<longleftrightarrow> x = Inr a"
  by (simp add: tpg_def)

lemma hpg_Inr [simp]: "hpg x = Inr a \<longleftrightarrow> x = Inr a"
  by (simp add: hpg_def)

lemma insert_template_Inr:
  "insert_template r p = Inr q \<Longrightarrow> tp_id r \<notin> tp_id ` set (pl_templates p)
     \<and> q = p\<lparr>pl_templates := pl_templates p @ [r]\<rparr>"
  by (simp add: insert_template_def ebind_Inr_iff known_def del: constraints.simps)

lemma insert_template_version_Inr:
  "insert_template_version r p = Inr q \<Longrightarrow> tv_id r \<notin> tv_id ` set (pl_template_versions p)
     \<and> tv_template_id r \<in> tp_id ` set (pl_templates p)
     \<and> q = p\<lparr>pl_template_versions := pl_template_versions p @ [r]\<rparr>"
  by (simp add: insert_template_version_def ebind_Inr_iff known_def del: constraints.simps)

lemma insert_template_asset_Inr:
  "insert_template_asset r p = Inr q \<Longrightarrow> q = p\<lparr>pl_template_assets := pl_template_assets p @ [r]\<rparr>"
  by (simp add: insert_template_asset_def ebind_Inr_iff del: constraints.simps)

lemma insert_template_hint_Inr:
  "insert_template_hint r p = Inr q \<Longrightarrow> q = p\<lparr>pl_template_hints := pl_template_hints p @ [r]\<rparr>"
  by (simp add: insert_template_hint_def ebind_Inr_iff del: constraints.simps)

lemma insert_asset_Inr:
  "insert_asset b r p = Inr q \<Longrightarrow> as_owner r \<in> ch_id ` set (pl_challenges p)
     \<and> q = p\<lparr>pl_assets := pl_assets p @ [r]\<rparr>"
  by (simp add: insert_asset_def ebind_Inr_iff known_def del: constraints.simps)

lemma insert_hint_Inr:
  "insert_hint b r p = Inr q \<Longrightarrow> hi_owner r \<in> ch_id ` set (pl_challenges p)
     \<and> q = p\<lparr>pl_hints := pl_hints p @ [r]\<rparr>"
  by (simp add: insert_hint_def ebind_Inr_iff known_def del: constraints.simps)

text \<open>Inserting rows one by one appends them.\<close>

lemma efold_inserts:
  assumes "efold ins rs p = Inr q" and "\<And>r p q. ins r p = Inr q \<Longrightarrow> q = app [r] p"
    and "\<And>p. app [] p = p" and "\<And>xs ys p. app ys (app xs p) = app (xs @ ys) p"
  shows "q = app rs p"
  using assms(1)
proof (induction rs arbitrary: p)
  case (Cons r rs)
  then obtain p1 where p1: "ins r p = Inr p1" "efold ins rs p1 = Inr q" by (auto split: sum.splits)
  have "q = app rs p1" by (rule Cons.IH [OF p1(2)])
  then show ?case using assms(2) [OF p1(1)] assms(4) [where xs = "[r]"] by simp
qed (simp add: assms(3))

lemma efold_template_assets:
  "efold insert_template_asset rs p = Inr q \<Longrightarrow> q = p\<lparr>pl_template_assets := pl_template_assets p @ rs\<rparr>"
  by (rule efold_inserts [where app = "\<lambda>rs p. p\<lparr>pl_template_assets := pl_template_assets p @ rs\<rparr>"])
    (auto dest: insert_template_asset_Inr)

lemma efold_template_hints:
  "efold insert_template_hint rs p = Inr q \<Longrightarrow> q = p\<lparr>pl_template_hints := pl_template_hints p @ rs\<rparr>"
  by (rule efold_inserts [where app = "\<lambda>rs p. p\<lparr>pl_template_hints := pl_template_hints p @ rs\<rparr>"])
    (auto dest: insert_template_hint_Inr)

lemma insertAssets_Inr:
  "insertAssets env k b i xs p = Inr q \<Longrightarrow> q = p\<lparr>pl_assets := pl_assets p @ asset_rows env k i xs\<rparr>"
  unfolding insertAssets_def hpg_Inr
  by (rule efold_inserts [where app = "\<lambda>rs p. p\<lparr>pl_assets := pl_assets p @ rs\<rparr>"])
    (auto dest: insert_asset_Inr)

lemma insertHints_Inr:
  "insertHints env k b i xs p = Inr q \<Longrightarrow> q = p\<lparr>pl_hints := pl_hints p @ hint_rows env k i xs\<rparr>"
  unfolding insertHints_def hpg_Inr
  by (rule efold_inserts [where app = "\<lambda>rs p. p\<lparr>pl_hints := pl_hints p @ rs\<rparr>"])
    (auto dest: insert_hint_Inr)

lemma rows_owner:
  "a \<in> set (asset_rows env k i xs) \<Longrightarrow> as_owner a = i"
  "h \<in> set (hint_rows env k i hs) \<Longrightarrow> hi_owner h = i"
  by (auto simp: asset_rows_def hint_rows_def)

lemma rows_other [simp]:
  "j \<noteq> i \<Longrightarrow> filter (\<lambda>a. as_owner a = j) (asset_rows env k i xs) = []"
  "j \<noteq> i \<Longrightarrow> filter (\<lambda>h. hi_owner h = j) (hint_rows env k i hs) = []"
  by (auto simp: filter_empty_conv dest: rows_owner)

section \<open>Templates\<close>

text \<open>The insertion of a version with its children.\<close>

lemma insert_version_content_Inr:
  assumes "insert_version_content env k row s p = Inr q"
  shows "tv_id row \<notin> tv_id ` set (pl_template_versions p)"
    and "tv_template_id row \<in> tp_id ` set (pl_templates p)"
    and "q = p\<lparr>pl_template_versions := pl_template_versions p @ [row],
      pl_template_assets := pl_template_assets p @ asset_rows env k (tv_id row) (vs_assets s),
      pl_template_hints := pl_template_hints p
        @ hint_rows env (k + length (vs_assets s)) (tv_id row) (vs_hints s)\<rparr>"
proof -
  from assms obtain p1 p2 where p1: "insert_template_version row p = Inr p1"
    and p2: "efold insert_template_asset (asset_rows env k (tv_id row) (vs_assets s)) p1 = Inr p2"
    and q: "efold insert_template_hint
       (hint_rows env (k + length (vs_assets s)) (tv_id row) (vs_hints s)) p2 = Inr q"
    by (auto simp: insert_version_content_def ebind_Inr_iff)
  note i = insert_template_version_Inr [OF p1]
  show "tv_id row \<notin> tv_id ` set (pl_template_versions p)"
    and "tv_template_id row \<in> tp_id ` set (pl_templates p)" using i by simp_all
  show "q = p\<lparr>pl_template_versions := pl_template_versions p @ [row],
      pl_template_assets := pl_template_assets p @ asset_rows env k (tv_id row) (vs_assets s),
      pl_template_hints := pl_template_hints p
        @ hint_rows env (k + length (vs_assets s)) (tv_id row) (vs_hints s)\<rparr>"
    using i efold_template_assets [OF p2] efold_template_hints [OF q] by simp
qed

text \<open>
  A version with its children is added to the template tables; \<open>f\<close> is what becomes of the
  templates. Contests, challenges and the rest of the database stay.
\<close>

definition version_added ::
  "(template_row list \<Rightarrow> template_row list) \<Rightarrow> template_version_row \<Rightarrow> platform \<Rightarrow> platform \<Rightarrow> bool" where
  "version_added f row p q \<longleftrightarrow> tv_id row \<notin> tv_id ` set (pl_template_versions p)
     \<and> pl_templates q = f (pl_templates p) \<and> pl_template_versions q = pl_template_versions p @ [row]
     \<and> (\<exists>as. pl_template_assets q = pl_template_assets p @ as \<and> (\<forall>a\<in>set as. as_owner a = tv_id row))
     \<and> (\<exists>hs. pl_template_hints q = pl_template_hints p @ hs \<and> (\<forall>h\<in>set hs. hi_owner h = tv_id row))
     \<and> pl_contests q = pl_contests p \<and> pl_challenges q = pl_challenges p \<and> pl_assets q = pl_assets p
     \<and> pl_hints q = pl_hints p \<and> pl_objects q = pl_objects p \<and> rest_kept p q"

lemma map_template_slug_conflict_Inr [simp]:
  "map_error map_template_slug_conflict x = Inr a \<longleftrightarrow> x = Inr a"
  by simp

lemma create_template_Inr:
  assumes "create_template env command p = Inr (d, q)"
  obtains t row where "tp_id t = ctc_templateId command" and "tp_latest_version t = 1"
    and "tp_version t = 1" and "tp_id t \<notin> tp_id ` set (pl_templates p)"
    and "row = version_row env (ctc_versionId command) (ctc_templateId command) 1
      (ctc_actorId command) (ctc_snapshot command)"
    and "version_added (\<lambda>ts. ts @ [t]) row p q"
proof -
  let ?s = "ctc_snapshot command"
  let ?t = "\<lparr>tp_id = ctc_templateId command, tp_name = ctc_name command,
        tp_slug = ctc_slug command, tp_created_by = ctc_actorId command, tp_latest_version = 1,
        tp_version = 1, tp_created_at = env_now env, tp_updated_at = env_now env\<rparr>"
  let ?row = "version_row env (ctc_versionId command) (ctc_templateId command) 1 (ctc_actorId command) ?s"
  from assms obtain p1 p2 e where p1: "insert_template ?t p = Inr p1"
    and p2: "insert_version_content env 0 ?row ?s p1 = Inr p2" and q: "audit e p2 = Inr q"
    by (auto simp: create_template_def Let_def ebind_Inr_iff)
  note i1 = insert_template_Inr [OF p1] and i2 = insert_version_content_Inr [OF p2]
  note same = same_administration_tables [OF audit_Inr(1) [OF q]]
  have "rest_kept p q" using rest_kept_trans [OF _ audit_Inr(2) [OF q], of p] i1 i2(3) by simp
  then have "version_added (\<lambda>ts. ts @ [?t]) ?row p q"
    using i1 i2 by (auto simp: version_added_def same dest: rows_owner)
  then show thesis using i1 by (intro that [of ?t ?row]) simp_all
qed

lemma advance_template_Inr:
  "advance_template env i n v p = Inr q \<Longrightarrow> q = p\<lparr>pl_templates := map (\<lambda>t.
     if tp_id t = i \<and> tp_version t = v then t\<lparr>tp_latest_version := n, tp_version := tp_version t + 1,
       tp_updated_at := env_now env\<rparr> else t) (pl_templates p)\<rparr>"
  by (simp add: advance_template_def Let_def split: if_splits)

lemma create_template_version_Inr:
  assumes "create_template_version env command p = Inr (d, q)"
  obtains t row where "find (\<lambda>t. tp_id t = cvc_templateId command) (pl_templates p) = Some t"
    and "tp_version t = cvc_expectedVersion command"
    and "row = version_row env (cvc_versionId command) (cvc_templateId command)
      (tp_latest_version t + 1) (cvc_actorId command) (cvc_snapshot command)"
    and "version_added (map (\<lambda>u. if tp_id u = cvc_templateId command \<and> tp_version u = cvc_expectedVersion command
      then u\<lparr>tp_latest_version := tp_latest_version t + 1, tp_version := tp_version u + 1,
        tp_updated_at := env_now env\<rparr> else u)) row p q"
proof -
  let ?s = "cvc_snapshot command"
  from assms obtain t p1 p2 e where t: "find (\<lambda>t. tp_id t = cvc_templateId command) (pl_templates p) = Some t"
    "tp_version t = cvc_expectedVersion command"
    and p1: "insert_version_content env 0 (version_row env (cvc_versionId command)
      (cvc_templateId command) (tp_latest_version t + 1) (cvc_actorId command) ?s) ?s p = Inr p1"
    and p2: "advance_template env (cvc_templateId command) (tp_latest_version t + 1)
      (cvc_expectedVersion command) p1 = Inr p2"
    and q: "audit e p2 = Inr q"
    by (auto simp: create_template_version_def Let_def ebind_Inr_iff split: option.splits if_splits)
  note i1 = insert_version_content_Inr [OF p1] and i2 = advance_template_Inr [OF p2]
  note same = same_administration_tables [OF audit_Inr(1) [OF q]]
  have "rest_kept p q" using rest_kept_trans [OF _ audit_Inr(2) [OF q], of p] i1(3) i2 by simp
  then show thesis
    using i1 i2 by (intro that [OF t refl]) (auto simp: version_added_def same dest: rows_owner)
qed

text \<open>What was readable of a version stays.\<close>

lemma version_added_record:
  assumes "version_added f row p q" and "v \<in> set (pl_template_versions p)"
  shows "version_record q v = version_record p v"
proof -
  have ne: "tv_id v \<noteq> tv_id row" using assms unfolding version_added_def by (metis imageI)
  then have "owned_assets (pl_template_assets q) (tv_id v) = owned_assets (pl_template_assets p) (tv_id v)"
    "owned_hints (pl_template_hints q) (tv_id v) = owned_hints (pl_template_hints p) (tv_id v)"
    using assms(1) by (auto simp: version_added_def owned_assets_def owned_hints_def filter_empty_conv)
  then show ?thesis by (simp add: version_record_def)
qed

section \<open>The template tables\<close>

definition policies_valid :: "flag_policy \<Rightarrow> scoring_policy \<Rightarrow> instance_policy \<Rightarrow> bool" where
  "policies_valid f s i \<longleftrightarrow> challengeFlagPolicySchema f \<noteq> None \<and> challengeScoringPolicySchema s \<noteq> None
     \<and> challengeInstancePolicySchema i \<noteq> None"

definition versions_of :: "platform \<Rightarrow> uuid \<Rightarrow> template_version_row list" where
  "versions_of p templateId = filter (\<lambda>v. tv_template_id v = templateId) (pl_template_versions p)"

definition templates_inv :: "platform \<Rightarrow> bool" where
  "templates_inv p \<longleftrightarrow> distinct (map tp_id (pl_templates p)) \<and> distinct (map tv_id (pl_template_versions p))
     \<and> (\<forall>t\<in>set (pl_templates p). map tv_version_number (versions_of p (tp_id t)) = [1..tp_latest_version t]
          \<and> 0 < tp_latest_version t)
     \<and> (\<forall>v\<in>set (pl_template_versions p). tv_template_id v \<in> tp_id ` set (pl_templates p)
          \<and> policies_valid (tv_flag_policy v) (tv_scoring_policy v) (tv_instance_policy v))"

definition same_templates :: "platform \<Rightarrow> platform \<Rightarrow> bool" where
  "same_templates p q \<longleftrightarrow> pl_templates q = pl_templates p \<and> pl_template_versions q = pl_template_versions p
     \<and> pl_template_assets q = pl_template_assets p \<and> pl_template_hints q = pl_template_hints p"

lemma templates_inv_cong: "same_templates p q \<Longrightarrow> templates_inv q = templates_inv p"
  by (simp add: templates_inv_def same_templates_def versions_of_def)

lemma find_key_eq:
  assumes "distinct (map key xs)" and "x \<in> set xs"
  shows "find (\<lambda>y. key y = key x) xs = Some x"
  using assms by (induction xs) auto

lemma versions_added:
  assumes "version_added f row p q"
  shows "versions_of q i = versions_of p i @ (if tv_template_id row = i then [row] else [])"
  using assms by (simp add: version_added_def versions_of_def)

lemma templates_inv_created:
  assumes inv: "templates_inv p" and a: "version_added (\<lambda>ts. ts @ [t]) row p q"
    and fresh: "tp_id t \<notin> tp_id ` set (pl_templates p)" and t: "tp_latest_version t = 1"
    and row: "tv_template_id row = tp_id t" "tv_version_number row = 1"
      "policies_valid (tv_flag_policy row) (tv_scoring_policy row) (tv_instance_policy row)"
  shows "templates_inv q"
proof -
  have none: "versions_of p (tp_id t) = []"
    using inv fresh by (simp add: templates_inv_def versions_of_def filter_empty_conv) metis
  have tables: "pl_templates q = pl_templates p @ [t]" "pl_template_versions q = pl_template_versions p @ [row]"
    "tv_id row \<notin> tv_id ` set (pl_template_versions p)"
    using a by (simp_all add: version_added_def)
  have "map tv_version_number (versions_of q (tp_id u)) = [1..tp_latest_version u] \<and> 0 < tp_latest_version u"
    if u: "u \<in> set (pl_templates q)" for u
  proof (cases "u = t")
    case True
    then show ?thesis using none row t by (simp add: versions_added [OF a])
  next
    case False
    then have "u \<in> set (pl_templates p)" using u tables(1) by auto
    then show ?thesis using inv fresh row(1)
      by (auto simp: versions_added [OF a] templates_inv_def)
  qed
  then show ?thesis using inv fresh row tables by (auto simp: templates_inv_def)
qed

lemma templates_inv_extended:
  assumes inv: "templates_inv p" and a: "version_added (map g) row p q"
    and found: "find (\<lambda>t. tp_id t = i) (pl_templates p) = Some t"
    and g: "\<And>u. tp_id (g u) = tp_id u" "\<And>u. tp_id u \<noteq> i \<Longrightarrow> g u = u"
      "tp_latest_version (g t) = tp_latest_version t + 1"
    and row: "tv_template_id row = i" "tv_version_number row = tp_latest_version t + 1"
      "policies_valid (tv_flag_policy row) (tv_scoring_policy row) (tv_instance_policy row)"
  shows "templates_inv q"
proof -
  have tables: "pl_templates q = map g (pl_templates p)" "pl_template_versions q = pl_template_versions p @ [row]"
    "tv_id row \<notin> tv_id ` set (pl_template_versions p)"
    using a by (simp_all add: version_added_def)
  have t: "t \<in> set (pl_templates p)" "tp_id t = i" using found by (auto simp: find_Some_iff)
  have "map tv_version_number (versions_of q (tp_id (g u))) = [1..tp_latest_version (g u)]
      \<and> 0 < tp_latest_version (g u)" if u: "u \<in> set (pl_templates p)" for u
  proof (cases "tp_id u = i")
    case True
    then have "u = t" using inv found u find_unique [of tp_id] by (auto simp: templates_inv_def)
    then show ?thesis using inv t g row
      by (auto simp: templates_inv_def versions_added [OF a] upto_rec2)
  next
    case False
    then show ?thesis using inv u g row(1) by (auto simp: templates_inv_def versions_added [OF a])
  qed
  moreover have "map tp_id (map g (pl_templates p)) = map tp_id (pl_templates p)" using g(1) by simp
  moreover have "tp_id ` set (map g (pl_templates p)) = tp_id ` set (pl_templates p)"
    using g(1) by (simp add: image_image)
  moreover have "i \<in> tp_id ` set (pl_templates p)" using t by blast
  ultimately show ?thesis using inv row tables
    by (auto simp: templates_inv_def simp del: map_map)
qed

end
