(* ===== verification/Snapshot_Facts.thy ===== *)
theory Snapshot_Facts
  imports Challenge_Facts
begin

text \<open>
  What mounting and revising a challenge do, the invariant of the challenges of contests, and the
  part of the platform each leaves alone.
\<close>

section \<open>Statements\<close>

lemma key_unique:
  "distinct (map key xs) \<Longrightarrow> x \<in> set xs \<Longrightarrow> y \<in> set xs \<Longrightarrow> key x = key y \<Longrightarrow> x = y"
  by (simp add: distinct_map inj_on_def)

lemma find_map_same: "(\<And>x. P (g x) = P x) \<Longrightarrow> find P (map g xs) = map_option g (find P xs)"
  by (induction xs) auto

lemma emap_Inr_ball: "emap f xs = Inr ys \<Longrightarrow> \<forall>x\<in>set xs. \<exists>y. f x = Inr y"
  by (induction xs arbitrary: ys) (auto split: sum.splits)

lemma insert_challenge_Inr:
  "insert_challenge r p = Inr q \<Longrightarrow> status_of p (ch_contest_id r) = Some Draft
     \<and> list_all snd (challenge_checks r) \<and> ch_id r \<notin> ch_id ` set (pl_challenges p)
     \<and> (ch_contest_id r, mh_title r) \<notin> (\<lambda>c. (ch_contest_id c, mh_title c)) ` set (pl_challenges p)
     \<and> (mh_source_template_id r, mh_source_version_id r)
         \<in> (\<lambda>v. (tv_template_id v, tv_id v)) ` set (pl_template_versions p)
     \<and> q = p\<lparr>pl_challenges := pl_challenges p @ [r]\<rparr>"
  by (auto simp: insert_challenge_def ebind_Inr_iff known_def simp del: constraints.simps
      split: option.splits if_splits)

lemma update_challenge_Inr:
  assumes "update_challenge b sel f p = Inr (n, q)"
  shows "n = length (filter sel (pl_challenges p))"
    and "\<forall>c\<in>set (pl_challenges p). sel c \<longrightarrow> snapshot_guard b p c (f c) = Inr ()
      \<and> list_all snd (challenge_checks (f c))
      \<and> (ch_contest_id (f c), mh_title (f c))
          \<notin> (\<lambda>c. (ch_contest_id c, mh_title c)) ` {d \<in> set (pl_challenges p). ch_id d \<noteq> ch_id c}"
    and "q = p\<lparr>pl_challenges := map (\<lambda>c. if sel c then f c else c) (pl_challenges p)\<rparr>"
proof -
  from assms obtain us where us: "emap (\<lambda>c. snapshot_guard b p c (f c)) (filter sel (pl_challenges p)) = Inr us"
    and rest: "list_all snd (concat (map (\<lambda>r. challenge_checks (f r) @ [
          (UniqueViolation ''contest_challenges_contest_title_unique'',
            \<not> known (\<lambda>c. (ch_contest_id c, mh_title c)) (filter (\<lambda>c. ch_id c \<noteq> ch_id r) (pl_challenges p))
                (ch_contest_id (f r), mh_title (f r)))]) (filter sel (pl_challenges p))))"
    and n: "n = length (filter sel (pl_challenges p))"
    and q: "q = p\<lparr>pl_challenges := map (\<lambda>c. if sel c then f c else c) (pl_challenges p)\<rparr>"
    by (auto simp: update_challenge_def Let_def ebind_Inr_iff simp del: constraints.simps)
  show "n = length (filter sel (pl_challenges p))" by (rule n)
  show "q = p\<lparr>pl_challenges := map (\<lambda>c. if sel c then f c else c) (pl_challenges p)\<rparr>" by (rule q)
  show "\<forall>c\<in>set (pl_challenges p). sel c \<longrightarrow> snapshot_guard b p c (f c) = Inr ()
      \<and> list_all snd (challenge_checks (f c))
      \<and> (ch_contest_id (f c), mh_title (f c))
          \<notin> (\<lambda>c. (ch_contest_id c, mh_title c)) ` {d \<in> set (pl_challenges p). ch_id d \<noteq> ch_id c}"
  proof (intro ballI impI)
    fix c
    assume c: "c \<in> set (pl_challenges p)" "sel c"
    have "\<exists>u. snapshot_guard b p c (f c) = Inr u"
      using emap_Inr_ball [OF us] c by simp
    then show "snapshot_guard b p c (f c) = Inr () \<and> list_all snd (challenge_checks (f c))
      \<and> (ch_contest_id (f c), mh_title (f c))
          \<notin> (\<lambda>c. (ch_contest_id c, mh_title c)) ` {d \<in> set (pl_challenges p). ch_id d \<noteq> ch_id c}"
      using rest c by (auto simp: list_all_iff known_def)
  qed
qed

text \<open>Challenges, assets and hints change, but nothing else of the administration.\<close>

definition challenge_tables_only :: "platform \<Rightarrow> platform \<Rightarrow> bool" where
  "challenge_tables_only p q \<longleftrightarrow> same_templates p q \<and> pl_contests q = pl_contests p
     \<and> pl_objects q = pl_objects p \<and> rest_kept p q"

section \<open>Mounting\<close>

lemma map_title_conflict_Inr [simp]: "map_error map_title_conflict x = Inr a \<longleftrightarrow> x = Inr a"
  by simp

lemma mount_challenge_Inr:
  assumes "mount_challenge env command p = Inr (r, q)"
  obtains contest v where "find_contest p (mo_contestId command) = Some contest"
    and "co_publication_status contest = Draft"
    and "find (\<lambda>v. tv_id v = mo_templateVersionId command) (pl_template_versions p) = Some v"
    and "insert_challenge (mounted_row env command v) p
      = Inr (p\<lparr>pl_challenges := pl_challenges p @ [mounted_row env command v]\<rparr>)"
    and "pl_challenges q = pl_challenges p @ [mounted_row env command v]"
    and "pl_assets q = pl_assets p @ asset_rows env 0 (mo_challengeId command) (readTemplateAssets p (tv_id v))"
    and "pl_hints q = pl_hints p @ hint_rows env (length (readTemplateAssets p (tv_id v)))
      (mo_challengeId command) (map (scheduled_hint (or_default (mo_publishAt command) (co_start_at contest)))
        (readTemplateHints p (tv_id v)))"
    and "challenge_tables_only p q"
    and "readWith q (mo_contestId command) (mo_challengeId command) = Inr r"
proof -
  from assms obtain contest v where c: "find (\<lambda>r. co_id r = mo_contestId command) (pl_contests p) = Some contest"
      "co_publication_status contest = Draft"
    and v: "find (\<lambda>v. tv_id v = mo_templateVersionId command) (pl_template_versions p) = Some v"
    and tx: "(let assets = readTemplateAssets p (tv_id v);
                  base = or_default (mo_publishAt command) (co_start_at contest);
                  hints = map (scheduled_hint base) (readTemplateHints p (tv_id v)) in
              ebind (assertAssetsAvailable p assets) (\<lambda>_.
              ebind (hpg (insert_challenge (mounted_row env command v) p)) (\<lambda>p1.
              ebind (insertAssets env 0 False (mo_challengeId command) assets p1) (\<lambda>p2.
              ebind (insertHints env (length assets) False (mo_challengeId command) hints p2) (\<lambda>p3.
              ebind (hpg (audit (challenge_audit env (length assets + length hints) (mo_actorId command)
                 (mo_requestId command) (mo_challengeId command) ''contest.challenge.mounted'' None
                 [(''contest_id'', JStr (mo_contestId command)),
                  (''source_template_id'', JStr (tv_template_id v)),
                  (''source_version_id'', JStr (tv_id v)),
                  (''source_version_number'', JNum (tv_version_number v)),
                  (''snapshot_revision'', JNum 1)]) p3)) (\<lambda>p4.
              ebind (readWith p4 (mo_contestId command) (mo_challengeId command)) (\<lambda>r. Inr (r, p4))))))))
        = Inr (r, q)"
    unfolding mount_challenge_def map_title_conflict_Inr by (simp split: option.splits if_splits)
  let ?assets = "readTemplateAssets p (tv_id v)"
  let ?hints = "map (scheduled_hint (or_default (mo_publishAt command) (co_start_at contest)))
    (readTemplateHints p (tv_id v))"
  from tx obtain p1 p2 p3 e where p1: "insert_challenge (mounted_row env command v) p = Inr p1"
    and p2: "insertAssets env 0 False (mo_challengeId command) ?assets p1 = Inr p2"
    and p3: "insertHints env (length ?assets) False (mo_challengeId command) ?hints p2 = Inr p3"
    and q: "audit e p3 = Inr q"
    and r: "readWith q (mo_contestId command) (mo_challengeId command) = Inr r"
    by (auto simp: Let_def ebind_Inr_iff)
  note i1 = insert_challenge_Inr [OF p1] and i2 = insertAssets_Inr [OF p2] and i3 = insertHints_Inr [OF p3]
  note same = same_administration_tables [OF audit_Inr(1) [OF q]]
  have "rest_kept p q" using rest_kept_trans [OF _ audit_Inr(2) [OF q], of p] i1 i2 i3 by simp
  then have t: "challenge_tables_only p q"
    using i1 i2 i3 by (simp add: challenge_tables_only_def same_templates_def same)
  show thesis
    by (rule that [of contest v]) (use c v p1 i1 i2 i3 t r in \<open>simp_all add: find_contest_def same\<close>)
qed

section \<open>Revising\<close>

lemma delete_Inr:
  "delete_assets b i p = Inr q \<Longrightarrow> q = p\<lparr>pl_assets := filter (\<lambda>a. as_owner a \<noteq> i) (pl_assets p)\<rparr>"
  "delete_hints b i p = Inr q \<Longrightarrow> q = p\<lparr>pl_hints := filter (\<lambda>h. hi_owner h \<noteq> i) (pl_hints p)\<rparr>"
  by (auto simp: delete_assets_def delete_hints_def ebind_Inr_iff)

lemma replace_assets_Inr:
  assumes "replace_assets env i xs p = Inr q"
  shows "q = p\<lparr>pl_assets := (case xs of None \<Rightarrow> pl_assets p
    | Some as \<Rightarrow> filter (\<lambda>a. as_owner a \<noteq> i) (pl_assets p) @ asset_rows env 0 i as)\<rparr>"
proof (cases xs)
  case (Some as)
  with assms obtain p1 where "delete_assets True i p = Inr p1" and "insertAssets env 0 True i as p1 = Inr q"
    by (auto simp: replace_assets_def ebind_Inr_iff)
  then show ?thesis using Some by (auto dest!: delete_Inr insertAssets_Inr)
qed (use assms in \<open>simp add: replace_assets_def\<close>)

lemma replace_hints_Inr:
  assumes "replace_hints env k i xs p = Inr q"
  shows "q = p\<lparr>pl_hints := (case xs of None \<Rightarrow> pl_hints p
    | Some hs \<Rightarrow> filter (\<lambda>h. hi_owner h \<noteq> i) (pl_hints p) @ hint_rows env k i hs)\<rparr>"
proof (cases xs)
  case (Some hs)
  with assms obtain p1 where "delete_hints True i p = Inr p1" and "insertHints env k True i hs p1 = Inr q"
    by (auto simp: replace_hints_def ebind_Inr_iff)
  then show ?thesis using Some by (auto dest!: delete_Inr insertHints_Inr)
qed (use assms in \<open>simp add: replace_hints_def\<close>)

text \<open>The row a revision rewrites.\<close>

definition revision_target :: "revise_command \<Rightarrow> managed_challenge \<Rightarrow> bool" where
  "revision_target command c \<longleftrightarrow> ch_id c = re_challengeId command \<and> ch_contest_id c = re_contestId command
     \<and> mh_version c = re_expectedVersion command"

lemma revise_challenge_Inr:
  assumes "revise_challenge env command p = Inr (r, q)"
  obtains c current where "find_challenge p (re_contestId command) (re_challengeId command) = Some c"
    and "status_of p (re_contestId command) = Some Published"
    and "mh_version c = re_expectedVersion command"
    and "readWith p (re_contestId command) (re_challengeId command) = Inr current"
    and "snapshotValue current \<noteq> revised_snapshot command (snapshotValue current)"
    and "update_challenge True (revision_target command)
      (revised_row env (revised_snapshot command (snapshotValue current))) p
      = Inr (1, p\<lparr>pl_challenges := pl_challenges q\<rparr>)"
    and "pl_assets q = (case re_assets command of None \<Rightarrow> pl_assets p
      | Some as \<Rightarrow> filter (\<lambda>a. as_owner a \<noteq> re_challengeId command) (pl_assets p)
          @ asset_rows env 0 (re_challengeId command) as)"
    and "pl_hints q = (case re_hints command of None \<Rightarrow> pl_hints p
      | Some hs \<Rightarrow> filter (\<lambda>h. hi_owner h \<noteq> re_challengeId command) (pl_hints p)
          @ hint_rows env (list_length (re_assets command)) (re_challengeId command) hs)"
    and "challenge_tables_only p q"
    and "readWith q (re_contestId command) (re_challengeId command) = Inr r"
proof -
  let ?next = "\<lambda>current. revised_snapshot command (snapshotValue current)"
  from assms obtain c current where
      c: "find_challenge p (re_contestId command) (re_challengeId command) = Some c"
    and st: "status_of p (re_contestId command) = Some Published"
    and v: "mh_version c = re_expectedVersion command"
    and cur: "readWith p (re_contestId command) (re_challengeId command) = Inr current"
    and ch: "snapshotValue current \<noteq> ?next current"
    and tx: "store_revision env command current (?next current) p = Inr (r, q)"
    unfolding revise_challenge_def map_title_conflict_Inr
    by (auto simp: Let_def ebind_Inr_iff split: option.splits if_splits)
  have sel: "(\<lambda>c. ch_id c = re_challengeId command \<and> ch_contest_id c = re_contestId command
      \<and> mh_version c = re_expectedVersion command) = revision_target command"
    by (simp add: revision_target_def fun_eq_iff)
  from tx obtain p1 p2 p3 e where
      p1: "update_challenge True (revision_target command) (revised_row env (?next current)) p = Inr (1, p1)"
    and p2: "replace_assets env (re_challengeId command) (re_assets command) p1 = Inr p2"
    and p3: "replace_hints env (list_length (re_assets command)) (re_challengeId command)
      (re_hints command) p2 = Inr p3"
    and q: "audit e p3 = Inr q" and r: "readWith q (re_contestId command) (re_challengeId command) = Inr r"
    unfolding store_revision_def Let_def sel by (auto simp: ebind_Inr_iff split: if_splits)
  note i1 = update_challenge_Inr(3) [OF p1] and i2 = replace_assets_Inr [OF p2] and i3 = replace_hints_Inr [OF p3]
  note same = same_administration_tables [OF audit_Inr(1) [OF q]]
  have "rest_kept p q" using rest_kept_trans [OF _ audit_Inr(2) [OF q], of p] i1 i2 i3 by simp
  then have t: "challenge_tables_only p q"
    using i1 i2 i3 by (simp add: challenge_tables_only_def same_templates_def same)
  have pq: "p1 = p\<lparr>pl_challenges := pl_challenges q\<rparr>" using i1 i2 i3 same by simp
  have "pl_assets p1 = pl_assets p" "pl_hints p1 = pl_hints p" by (simp_all add: pq)
  moreover have "pl_hints p2 = pl_hints p1" by (subst i2) simp
  moreover have "pl_assets p3 = pl_assets p2" by (subst i3) simp
  ultimately have "pl_assets q = (case re_assets command of None \<Rightarrow> pl_assets p
      | Some as \<Rightarrow> filter (\<lambda>a. as_owner a \<noteq> re_challengeId command) (pl_assets p)
          @ asset_rows env 0 (re_challengeId command) as)"
    and "pl_hints q = (case re_hints command of None \<Rightarrow> pl_hints p
      | Some hs \<Rightarrow> filter (\<lambda>h. hi_owner h \<noteq> re_challengeId command) (pl_hints p)
          @ hint_rows env (list_length (re_assets command)) (re_challengeId command) hs)"
    using arg_cong [OF i2, of pl_assets] arg_cong [OF i3, of pl_hints] same
    by (simp_all cong del: option.case_cong_weak)
  then show thesis using that [OF c st v cur ch _ _ _ t r] p1 pq by simp
qed

section \<open>The challenges of contests\<close>

definition challenges_inv :: "platform \<Rightarrow> bool" where
  "challenges_inv p \<longleftrightarrow> distinct (map ch_id (pl_challenges p))
     \<and> distinct (map (\<lambda>c. (ch_contest_id c, mh_title c)) (pl_challenges p))
     \<and> (\<forall>c\<in>set (pl_challenges p). ch_contest_id c \<in> co_id ` set (pl_contests p)
          \<and> list_all snd (challenge_checks c)
          \<and> policies_valid (ch_flag_policy c) (ch_scoring_policy c) (mh_instance_policy c)
          \<and> (mh_source_template_id c, mh_source_version_id c)
              \<in> (\<lambda>v. (tv_template_id v, tv_id v)) ` set (pl_template_versions p))"

lemma challenges_inv_mono:
  assumes "challenges_inv p" and "pl_challenges q = pl_challenges p"
    and "co_id ` set (pl_contests p) \<subseteq> co_id ` set (pl_contests q)"
    and "set (pl_template_versions p) \<subseteq> set (pl_template_versions q)"
  shows "challenges_inv q"
proof -
  have "(\<lambda>v. (tv_template_id v, tv_id v)) ` set (pl_template_versions p)
      \<subseteq> (\<lambda>v. (tv_template_id v, tv_id v)) ` set (pl_template_versions q)"
    using assms(4) by (rule image_mono)
  then show ?thesis using assms(1-3) unfolding challenges_inv_def by (metis (no_types, lifting) subsetD)
qed

lemma status_of_known: "status_of p i = Some s \<Longrightarrow> i \<in> co_id ` set (pl_contests p)"
  by (auto simp: status_of_def find_Some_iff)

lemma mount_challenges_inv:
  assumes inv: "challenges_inv p" and t: "templates_inv p"
    and m: "mount_challenge env command p = Inr (r, q)"
  shows "challenges_inv q"
  using m
proof (rule mount_challenge_Inr)
  fix contest v
  let ?c = "mounted_row env command v"
  assume v: "find (\<lambda>v. tv_id v = mo_templateVersionId command) (pl_template_versions p) = Some v"
    and ins: "insert_challenge ?c p = Inr (p\<lparr>pl_challenges := pl_challenges p @ [?c]\<rparr>)"
    and q: "pl_challenges q = pl_challenges p @ [?c]" and only: "challenge_tables_only p q"
  have "policies_valid (ch_flag_policy ?c) (ch_scoring_policy ?c) (mh_instance_policy ?c)"
    using t v by (auto simp: templates_inv_def mounted_row_def find_Some_iff)
  moreover have "pl_contests q = pl_contests p" "pl_template_versions q = pl_template_versions p"
    using only by (simp_all add: challenge_tables_only_def same_templates_def)
  moreover note insert_challenge_Inr [OF ins]
  ultimately show ?thesis using inv q status_of_known [of p "ch_contest_id ?c"]
    by (auto simp: challenges_inv_def)
qed

text \<open>The policies a revision may name have been validated.\<close>

definition revision_validated :: "revise_command \<Rightarrow> bool" where
  "revision_validated command \<longleftrightarrow>
     assertChallengePolicies (re_flagPolicy command) (re_scoringPolicy command) (re_instancePolicy command) = Inr ()"

lemma revision_policies:
  assumes "revision_validated command"
    and "policies_valid (sv_flagPolicy s) (sv_scoringPolicy s) (sv_instancePolicy s)"
  shows "policies_valid (sv_flagPolicy (revised_snapshot command s))
    (sv_scoringPolicy (revised_snapshot command s)) (sv_instancePolicy (revised_snapshot command s))"
  using assms by (auto simp: revision_validated_def assertChallengePolicies_def challengePolicyErrors_def
      policies_valid_def revised_snapshot_def or_default_def Let_def split: option.splits if_splits)

lemma readWith_row: "readWith p i j = Inr r \<Longrightarrow> find_challenge p i j = Some (cl_row r)"
  by (auto simp: readWith_def split: option.splits)

lemma find_challenge_Some:
  "find_challenge p i j = Some c \<Longrightarrow> c \<in> set (pl_challenges p) \<and> ch_contest_id c = i \<and> ch_id c = j"
  by (auto simp: find_challenge_def find_Some_iff)

lemma revised_row_keys [simp]:
  "ch_id (revised_row env s c) = ch_id c" "ch_contest_id (revised_row env s c) = ch_contest_id c"
  "mh_source_template_id (revised_row env s c) = mh_source_template_id c"
  "mh_source_version_id (revised_row env s c) = mh_source_version_id c"
  by (simp_all add: revised_row_def)

text \<open>With distinct identifiers a revision rewrites exactly the challenge it names.\<close>

lemma revised_challenges:
  assumes "distinct (map ch_id (pl_challenges p))" and "revise_challenge env command p = Inr (r, q)"
  obtains current where "readWith p (re_contestId command) (re_challengeId command) = Inr current"
    and "cl_row current \<in> set (pl_challenges p)"
    and "ch_id (cl_row current) = re_challengeId command" "ch_contest_id (cl_row current) = re_contestId command"
    and "mh_version (cl_row current) = re_expectedVersion command"
    and "status_of p (re_contestId command) = Some Published"
    and "pl_challenges q = map (\<lambda>c. if ch_id c = re_challengeId command
      then revised_row env (revised_snapshot command (snapshotValue current)) c else c) (pl_challenges p)"
    and "cl_row r = revised_row env (revised_snapshot command (snapshotValue current)) (cl_row current)"
    and "challenge_tables_only p q"
  using assms(2)
proof (rule revise_challenge_Inr)
  fix c current
  let ?f = "revised_row env (revised_snapshot command (snapshotValue current))"
  assume c: "find_challenge p (re_contestId command) (re_challengeId command) = Some c"
    and cur: "readWith p (re_contestId command) (re_challengeId command) = Inr current"
    and st: "status_of p (re_contestId command) = Some Published"
    and v: "mh_version c = re_expectedVersion command"
    and u: "update_challenge True (revision_target command) ?f p = Inr (1, p\<lparr>pl_challenges := pl_challenges q\<rparr>)"
    and only: "challenge_tables_only p q"
    and r: "readWith q (re_contestId command) (re_challengeId command) = Inr r"
  have row: "cl_row current = c" using readWith_row [OF cur] c by simp
  note f = find_challenge_Some [OF c]
  have sel: "revision_target command d \<longleftrightarrow> ch_id d = re_challengeId command" if "d \<in> set (pl_challenges p)" for d
  proof
    assume "ch_id d = re_challengeId command"
    then have "d = c" using key_unique [OF assms(1) that] f by simp
    then show "revision_target command d" using f v by (simp add: revision_target_def)
  qed (simp add: revision_target_def)
  then have q: "pl_challenges q = map (\<lambda>c. if ch_id c = re_challengeId command then ?f c else c) (pl_challenges p)"
    using arg_cong [OF update_challenge_Inr(3) [OF u], of pl_challenges] by simp
  have "find_challenge q (re_contestId command) (re_challengeId command) = Some (?f c)"
    using c f unfolding find_challenge_def q by (subst find_map_same) auto
  then have "cl_row r = ?f c" using readWith_row [OF r] by simp
  then show thesis using that [of current] row cur f st v q only by simp
qed

lemma revise_challenges_inv:
  assumes inv: "challenges_inv p" and val: "revision_validated command"
    and m: "revise_challenge env command p = Inr (r, q)"
  shows "challenges_inv q"
  using m
proof (rule revise_challenge_Inr)
  fix c current
  let ?s = "revised_snapshot command (snapshotValue current)"
  let ?f = "revised_row env ?s"
  let ?key = "\<lambda>c. (ch_contest_id c, mh_title c)"
  assume cur: "readWith p (re_contestId command) (re_challengeId command) = Inr current"
    and u: "update_challenge True (revision_target command) ?f p = Inr (1, p\<lparr>pl_challenges := pl_challenges q\<rparr>)"
    and only: "challenge_tables_only p q"
  have ids: "distinct (map ch_id (pl_challenges p))" using inv by (simp add: challenges_inv_def)
  note row = find_challenge_Some [OF readWith_row [OF cur]]
  have q: "pl_challenges q = map (\<lambda>c. if revision_target command c then ?f c else c) (pl_challenges p)"
    using arg_cong [OF update_challenge_Inr(3) [OF u], of pl_challenges] by simp
  have tgt: "revision_target command d \<Longrightarrow> d \<in> set (pl_challenges p) \<Longrightarrow> d = cl_row current" for d
    using key_unique [OF ids _ conjunct1 [OF row]] row by (simp add: revision_target_def)
  have "map ch_id (map (\<lambda>c. if sel c then ?f c else c) xs) = map ch_id xs" for sel xs by simp
  then have "map ch_id (pl_challenges q) = map ch_id (pl_challenges p)" unfolding q .
  then have "distinct (map ch_id (pl_challenges q))" using ids by simp
  moreover have "distinct (map ?key (pl_challenges q))"
  proof (cases "revision_target command (cl_row current)")
    case True
    have "revision_target command d \<longleftrightarrow> ch_id d = ch_id (cl_row current)" if "d \<in> set (pl_challenges p)" for d
      using True tgt [OF _ that] key_unique [OF ids that conjunct1 [OF row]] by metis
    then have q': "pl_challenges q = map (\<lambda>c. if ch_id c = ch_id (cl_row current) then ?f c else c) (pl_challenges p)"
      unfolding q by (intro map_cong refl) simp
    have "?key (?f d) \<notin> ?key ` {e \<in> set (pl_challenges p). ch_id e \<noteq> ch_id (cl_row current)}"
      if "d \<in> set (pl_challenges p)" "ch_id d = ch_id (cl_row current)" for d
    proof -
      have "d = cl_row current" using key_unique [OF ids that(1) conjunct1 [OF row] that(2)] .
      then show ?thesis
        using bspec [OF update_challenge_Inr(2) [OF u] conjunct1 [OF row]] True by blast
    qed
    then show ?thesis unfolding q' using inv
      by (intro distinct_map_rewrite) (auto simp: challenges_inv_def)
  next
    case False
    then have "pl_challenges q = pl_challenges p" unfolding q using tgt by (intro map_idI) auto
    then show ?thesis using inv by (simp add: challenges_inv_def)
  qed
  moreover have "ch_contest_id d \<in> co_id ` set (pl_contests q) \<and> list_all snd (challenge_checks d)
      \<and> policies_valid (ch_flag_policy d) (ch_scoring_policy d) (mh_instance_policy d)
      \<and> (mh_source_template_id d, mh_source_version_id d)
          \<in> (\<lambda>v. (tv_template_id v, tv_id v)) ` set (pl_template_versions q)"
    if "d \<in> set (pl_challenges q)" for d
  proof -
    have tables: "pl_contests q = pl_contests p" "pl_template_versions q = pl_template_versions p"
      using only by (simp_all add: challenge_tables_only_def same_templates_def)
    from that obtain e where e: "e \<in> set (pl_challenges p)" "d = (if revision_target command e then ?f e else e)"
      unfolding q by auto
    have old: "ch_contest_id e \<in> co_id ` set (pl_contests p) \<and> list_all snd (challenge_checks e)
      \<and> policies_valid (ch_flag_policy e) (ch_scoring_policy e) (mh_instance_policy e)
      \<and> (mh_source_template_id e, mh_source_version_id e)
          \<in> (\<lambda>v. (tv_template_id v, tv_id v)) ` set (pl_template_versions p)"
      using inv e(1) unfolding challenges_inv_def by blast
    show ?thesis
    proof (cases "revision_target command e")
      case True
      then have "policies_valid (sv_flagPolicy (snapshotValue current)) (sv_scoringPolicy (snapshotValue current))
          (sv_instancePolicy (snapshotValue current))"
        using old tgt [OF True e(1)] by (simp add: snapshotValue_def Let_def)
      then have "policies_valid (ch_flag_policy (?f e)) (ch_scoring_policy (?f e)) (mh_instance_policy (?f e))"
        using revision_policies [OF val] by (simp add: revised_row_def)
      moreover have "list_all snd (challenge_checks (?f e))"
        using update_challenge_Inr(2) [OF u] True e(1) by blast
      ultimately show ?thesis using old True e(2) tables by simp
    next
      case False
      then show ?thesis using old e(2) tables by simp
    qed
  qed
  ultimately show ?thesis by (simp add: challenges_inv_def)
qed

end
