(* ===== verification/Platform.thy ===== *)
theory Platform
  imports Contest_Service_Facts Snapshot_Facts
begin

text \<open>
  The whole platform: the transactions of \<open>System\<close> together with the requests that administer
  contests, templates and challenges, executed one after the other. An update reads the draft in a
  state that other requests may have left behind before its transaction runs, so a history keeps its
  states, the newest first. Content objects come and go by requests of their own component.
\<close>

section \<open>Requests\<close>

datatype request =
    Transact operation
  | CreateContest session_subject create_contest_input
  | UpdateContest tx_env session_subject update_contest_input nat   \<comment> \<open>read that many requests ago\<close>
  | PublishContest session_subject contest_lifecycle_input
  | ArchiveContest session_subject contest_lifecycle_input
  | CreateTemplate uuid uuid session_subject create_template_input
  | CreateTemplateVersion uuid session_subject create_version_input nat
  | MountChallenge uuid session_subject mount_input
  | ReviseChallenge session_subject revise_command
  | StoreObjects "content_object_row list"

definition settled :: "platform \<Rightarrow> 'e + ('a \<times> platform) \<Rightarrow> platform" where
  "settled p result = (case result of Inl _ \<Rightarrow> p | Inr (_, q) \<Rightarrow> q)"

definition seen_before :: "platform list \<Rightarrow> nat \<Rightarrow> platform" where
  "seen_before hs k = hs ! min k (length hs - 1)"

fun perform :: "js_math \<Rightarrow> crypto \<Rightarrow> tx_env \<Rightarrow> request \<Rightarrow> platform list \<Rightarrow> platform" where
  "perform m c env (Transact x) hs = with_db (hd hs) (execute m env x (db_of (hd hs)))"
| "perform m c env (CreateContest actor input) hs =
     settled (hd hs) (contest_createDraft c env actor input (hd hs))"
| "perform m c env (UpdateContest read_env actor input k) hs =
     settled (hd hs) (contest_updateDraft c read_env env actor input (seen_before hs k) (hd hs))"
| "perform m c env (PublishContest actor input) hs = settled (hd hs) (contest_publish env actor input (hd hs))"
| "perform m c env (ArchiveContest actor input) hs = settled (hd hs) (contest_archive env actor input (hd hs))"
| "perform m c env (CreateTemplate templateId versionId actor input) hs =
     settled (hd hs) (template_create env templateId versionId actor input (hd hs))"
| "perform m c env (CreateTemplateVersion versionId actor input k) hs =
     settled (hd hs) (template_createVersion env versionId actor input (seen_before hs k) (hd hs))"
| "perform m c env (MountChallenge challengeId actor input) hs =
     settled (hd hs) (challenge_mount env challengeId actor input (hd hs))"
| "perform m c env (ReviseChallenge actor input) hs =
     settled (hd hs) (challenge_revise env actor input (hd hs))"
| "perform m c env (StoreObjects objects) hs = (hd hs)\<lparr>pl_objects := objects\<rparr>"

fun run_platform ::
  "js_math \<Rightarrow> crypto \<Rightarrow> (tx_env \<times> request) list \<Rightarrow> platform list \<Rightarrow> platform list" where
  "run_platform m c [] hs = hs"
| "run_platform m c ((env, x) # xs) hs = run_platform m c xs (perform m c env x hs # hs)"

section \<open>Steps\<close>

definition snapshot_validated :: "version_snapshot \<Rightarrow> bool" where
  "snapshot_validated s \<longleftrightarrow> policies_valid (vs_flagPolicy s) (vs_scoringPolicy s) (vs_instancePolicy s)"

inductive platform_step :: "js_math \<Rightarrow> platform \<Rightarrow> platform \<Rightarrow> bool" for m :: js_math where
  idle: "platform_step m p (with_db p (db_of p))"        \<comment> \<open>a transaction that failed\<close>
| transact: "system_step m (db_of p) db \<Longrightarrow> platform_step m p (with_db p db)"
| create_contest: "createDraft env command p = Inr (r, q) \<Longrightarrow>
     admissible_domains (cs_allowedEmailDomains command) \<Longrightarrow> platform_step m p q"
| update_contest: "updateDraft env ucommand p = Inr (r, q) \<Longrightarrow>
     admissible_domains (cs_allowedEmailDomains ucommand) \<Longrightarrow> platform_step m p q"
| move_contest: "transition env lcommand target p = Inr (r, q) \<Longrightarrow> platform_step m p q"
| new_template: "create_template env tcommand p = Inr (d, q) \<Longrightarrow>
     snapshot_validated (ctc_snapshot tcommand) \<Longrightarrow> platform_step m p q"
| new_version: "create_template_version env vcommand p = Inr (d, q) \<Longrightarrow>
     snapshot_validated (cvc_snapshot vcommand) \<Longrightarrow> platform_step m p q"
| mount: "mount_challenge env mcommand p = Inr (cr, q) \<Longrightarrow> platform_step m p q"
| revise: "revise_challenge env rcommand p = Inr (cr, q) \<Longrightarrow> revision_validated rcommand \<Longrightarrow>
     platform_step m p q"
| objects: "platform_step m p (p\<lparr>pl_objects := objs\<rparr>)"

section \<open>The invariant\<close>

definition platform_inv :: "platform \<Rightarrow> bool" where
  "platform_inv p \<longleftrightarrow> system_inv (db_of p) \<and> contests_inv p \<and> templates_inv p \<and> challenges_inv p"

text \<open>What the administration may do to the database without touching the system's invariant.\<close>

lemma admin_system_inv:
  assumes inv: "system_inv (db_of p)" and rest: "rest_kept p q"
    and contests: "co_id ` set (pl_contests p) \<subseteq> co_id ` set (pl_contests q)"
    and ids: "distinct (map ch_id (pl_challenges q))"
    and kept: "\<And>c. c \<in> set (pl_challenges p) \<Longrightarrow> \<exists>d\<in>set (pl_challenges q). ch_id d = ch_id c
      \<and> ch_contest_id d = ch_contest_id c"
  shows "system_inv (db_of q)"
proof -
  have same: "db_users (db_of q) = db_users (db_of p)" "db_teams (db_of q) = db_teams (db_of p)"
    "db_team_members (db_of q) = db_team_members (db_of p)"
    "db_team_invites (db_of q) = db_team_invites (db_of p)" "db_divisions (db_of q) = db_divisions (db_of p)"
    "db_participations (db_of q) = db_participations (db_of p)"
    "db_submissions (db_of q) = db_submissions (db_of p)" "db_solves (db_of q) = db_solves (db_of p)"
    "db_score_adjustments (db_of q) = db_score_adjustments (db_of p)"
    "db_scoreboard_versions (db_of q) = db_scoreboard_versions (db_of p)"
    using core_tables [of "pl_rest q" "pl_rest p"] rest by (simp_all add: rest_kept_def db_of_def)
  have team: "team_inv (db_of q)"
    using inv team_inv_cong [of "db_of q" "db_of p"] same by (simp add: system_inv_def)
  have "known co_id (db_contests (db_of q)) i" if "known co_id (db_contests (db_of p)) i" for i
    using that contests by (auto simp: known_def image_image contest_row.defs)
  then have "list_all snd (participation_checks r (db_of q))" if "list_all snd (participation_checks r (db_of p))"
    for r using that by (simp add: participation_checks_def same del: db_of_simps cong del: option.case_cong_weak)
  then have part: "participation_inv (db_of q)"
    using inv by (simp add: system_inv_def participation_inv_def same del: db_of_simps)
  have moved: "in_contest (db_of q) i c r" if "in_contest (db_of p) i c r" for i c r
    using that kept by (fastforce simp: in_contest_def same contest_challenge_row.defs)
  have "distinct (map ch_id (db_contest_challenges (db_of q)))"
    using ids by (simp add: comp_def contest_challenge_row.defs)
  then have "scoring_inv (db_of q)"
    using inv moved
    by (auto simp: system_inv_def scoring_inv_def rows_inv_def submissions_inv_def solves_inv_def
        adjustments_inv_def versions_inv_def same solves_at_def version_of_def fact_count_def)
  then show ?thesis using team part by (simp add: system_inv_def)
qed

section \<open>What each step leaves alone\<close>

lemma db_of_with_db: "same_contests (db_of p) db \<Longrightarrow> db_of (with_db p db) = db"
  by (simp add: same_contests_def) (simp add: db_of_def)

text \<open>The contests a step may write, the templates, and the challenges.\<close>

definition same_challenges :: "platform \<Rightarrow> platform \<Rightarrow> bool" where
  "same_challenges p q \<longleftrightarrow> pl_challenges q = pl_challenges p \<and> pl_assets q = pl_assets p \<and> pl_hints q = pl_hints p"

lemma contest_tables_only:
  assumes "contest_inserted r p q \<or> contest_rewritten i f p q"
  shows "same_templates p q" and "same_challenges p q" and "rest_kept p q"
proof -
  from assms obtain cs p1 where p1: "p1 = p\<lparr>pl_contests := cs\<rparr>" and q: "same_administration p1 q" and r: "rest_kept p q"
    by (auto simp: contest_inserted_def contest_rewritten_def dest!: insert_contest_Inr update_contest_Inr(2))
  show "same_templates p q" "same_challenges p q"
    using same_administration_tables [OF q] by (simp_all add: same_templates_def same_challenges_def p1)
  show "rest_kept p q" by (rule r)
qed

lemma inserted_ids:
  assumes "contest_inserted r p q"
  shows "co_id ` set (pl_contests p) \<subseteq> co_id ` set (pl_contests q)"
proof -
  obtain p1 where p1: "insert_contest r p = Inr p1" and q: "pl_contests q = pl_contests p1"
    using assms same_administration_tables(1) by (auto simp: contest_inserted_def)
  show ?thesis using insert_contest_Inr [OF p1] by (auto simp: q)
qed

lemma rewritten_ids:
  assumes "contest_rewritten i f p q" and "contest_update f"
  shows "co_id ` set (pl_contests p) \<subseteq> co_id ` set (pl_contests q)"
proof -
  obtain p1 where p1: "update_contest i f p = Inr p1" and q: "pl_contests q = pl_contests p1"
    using assms(1) same_administration_tables(1) by (auto simp: contest_rewritten_def)
  have "map co_id (pl_contests q) = map co_id (pl_contests p)"
    using assms(2) distinct_map_same [of co_id f] by (simp add: q update_contest_Inr(2) [OF p1] contest_update_def)
  then have "set (map co_id (pl_contests q)) = set (map co_id (pl_contests p))" by simp
  then show ?thesis by simp
qed

text \<open>A step on contests keeps the platform's invariant once the contests table is in order.\<close>

lemma contest_step_inv:
  assumes "platform_inv p" and "contests_inv q" and "same_templates p q" and "same_challenges p q"
    and "rest_kept p q" and "co_id ` set (pl_contests p) \<subseteq> co_id ` set (pl_contests q)"
  shows "platform_inv q"
proof -
  have "challenges_inv q"
    by (rule challenges_inv_mono [of p]) (use assms in
      \<open>simp_all add: platform_inv_def same_challenges_def same_templates_def\<close>)
  moreover have "system_inv (db_of q)"
  proof (rule admin_system_inv [of p])
    show "distinct (map ch_id (pl_challenges q))" using calculation by (simp add: challenges_inv_def)
    show "c \<in> set (pl_challenges p) \<Longrightarrow> \<exists>d\<in>set (pl_challenges q). ch_id d = ch_id c \<and> ch_contest_id d = ch_contest_id c"
      for c using assms(4) by (auto simp: same_challenges_def)
  qed (use assms in \<open>simp_all add: platform_inv_def\<close>)
  ultimately show ?thesis using assms templates_inv_cong [OF assms(3)] by (simp add: platform_inv_def)
qed

lemma template_step_inv:
  assumes "platform_inv p" and "templates_inv q" and a: "version_added f row p q"
  shows "platform_inv q"
proof -
  have tables: "pl_contests q = pl_contests p" "pl_challenges q = pl_challenges p" "rest_kept p q"
    using a by (simp_all add: version_added_def)
  have "challenges_inv q"
    by (rule challenges_inv_mono [of p]) (use assms in \<open>auto simp: platform_inv_def version_added_def\<close>)
  moreover have "system_inv (db_of q)"
  proof (rule admin_system_inv [of p])
    show "distinct (map ch_id (pl_challenges q))" using calculation by (simp add: challenges_inv_def)
  qed (use assms(1) tables in \<open>auto simp: platform_inv_def\<close>)
  ultimately show ?thesis using assms contests_inv_cong [OF tables(1)] by (simp add: platform_inv_def)
qed

lemma challenge_step_inv:
  assumes "platform_inv p" and "challenges_inv q" and "challenge_tables_only p q"
    and "\<And>c. c \<in> set (pl_challenges p) \<Longrightarrow> \<exists>d\<in>set (pl_challenges q). ch_id d = ch_id c
      \<and> ch_contest_id d = ch_contest_id c"
  shows "platform_inv q"
proof -
  have tables: "pl_contests q = pl_contests p" "same_templates p q" "rest_kept p q"
    using assms(3) by (simp_all add: challenge_tables_only_def)
  have "system_inv (db_of q)"
    by (rule admin_system_inv [of p])
      (use assms(1,2,4) tables in \<open>simp_all add: platform_inv_def challenges_inv_def\<close>)
  then show ?thesis
    using assms contests_inv_cong [OF tables(1)] templates_inv_cong [OF tables(2)] by (simp add: platform_inv_def)
qed

lemma revised_keep:
  assumes "update_challenge b sel (revised_row env s) p = Inr (n, p\<lparr>pl_challenges := pl_challenges q\<rparr>)"
    and "c \<in> set (pl_challenges p)"
  shows "\<exists>d\<in>set (pl_challenges q). ch_id d = ch_id c \<and> ch_contest_id d = ch_contest_id c"
proof -
  have q: "pl_challenges q = map (\<lambda>c. if sel c then revised_row env s c else c) (pl_challenges p)"
    using arg_cong [OF update_challenge_Inr(3) [OF assms(1)], of pl_challenges] by simp
  show ?thesis using assms(2) unfolding q by (intro bexI [of _ "if sel c then revised_row env s c else c"]) auto
qed

lemma draft_constraints:
  "co_registration_constraints (new_draft env command) = constraints_json (cs_allowedEmailDomains command)"
  "co_registration_constraints (updated_draft env ucommand r) = constraints_json (cs_allowedEmailDomains ucommand)"
  "co_registration_constraints (moved_contest env target r) = co_registration_constraints r"
  by (simp_all add: new_draft_def updated_draft_def with_settings_def) (cases target; simp)

lemma platform_step_inv:
  assumes "platform_step m p q" and inv: "platform_inv p"
  shows "platform_inv q"
  using assms(1)
proof cases
  case idle
  have "db_of q = db_of p" unfolding idle by (rule db_of_with_db) (simp add: same_contests_def)
  then show ?thesis using inv
    by (simp add: platform_inv_def idle contests_inv_def templates_inv_def versions_of_def challenges_inv_def)
next
  case (transact db)
  have "same_contests (db_of p) db" by (rule system_step_contests [OF transact(2)])
  then have "db_of q = db" unfolding transact(1) by (rule db_of_with_db)
  moreover have "system_inv db" using system_step_inv [OF transact(2)] inv by (simp add: platform_inv_def)
  ultimately show ?thesis using inv
    by (simp add: platform_inv_def transact(1) contests_inv_def templates_inv_def versions_of_def challenges_inv_def)
next
  case (create_contest env command r)
  note ins = createDraft_Inr(1) [OF create_contest(1)]
  have "contests_inv q" using inv create_contest(2) draft_constraints(1)
    by (intro contests_inv_inserted [OF _ ins]) (auto simp: platform_inv_def)
  then show ?thesis
    using contest_tables_only [OF disjI1 [OF ins]] inserted_ids [OF ins] by (intro contest_step_inv [OF inv])
next
  case (update_contest env command r)
  from update_contest(1) show ?thesis
  proof (rule updateDraft_Inr)
    assume w: "contest_rewritten (udc_contestId command) (updated_draft env command) p q"
    have "contests_inv q" using inv update_contest(2) draft_constraints(2)
      by (intro contests_inv_rewritten [OF _ w]) (auto simp: platform_inv_def)
    then show ?thesis using contest_tables_only [OF disjI2 [OF w]] rewritten_ids [OF w]
      by (intro contest_step_inv [OF inv]) simp_all
  qed
next
  case (move_contest env command target r)
  from move_contest show ?thesis
  proof (rule transition_Inr)
    assume w: "contest_rewritten (clc_contestId command) (moved_contest env target) p q"
    have "contests_inv q" using inv draft_constraints(3)
      by (intro contests_inv_rewritten [OF _ w]) (auto simp: platform_inv_def contests_inv_def)
    then show ?thesis using contest_tables_only [OF disjI2 [OF w]] rewritten_ids [OF w]
      by (intro contest_step_inv [OF inv]) simp_all
  qed
next
  case (new_template env command d)
  from new_template(1) show ?thesis
  proof (rule create_template_Inr)
    fix t row
    assume t: "tp_id t = ctc_templateId command" "tp_latest_version t = 1" "tp_id t \<notin> tp_id ` set (pl_templates p)"
      and row: "row = version_row env (ctc_versionId command) (ctc_templateId command) 1
        (ctc_actorId command) (ctc_snapshot command)"
      and a: "version_added (\<lambda>ts. ts @ [t]) row p q"
    have "templates_inv q" using inv new_template(2) t
      by (intro templates_inv_created [OF _ a]) (simp_all add: platform_inv_def row version_row_def snapshot_validated_def)
    then show ?thesis by (rule template_step_inv [OF inv _ a])
  qed
next
  case (new_version env command d)
  from new_version(1) show ?thesis
  proof (rule create_template_version_Inr)
    fix t :: template_row and row
    let ?g = "\<lambda>u. if tp_id u = cvc_templateId command \<and> tp_version u = cvc_expectedVersion command
      then u\<lparr>tp_latest_version := tp_latest_version t + 1, tp_version := tp_version u + 1,
        tp_updated_at := env_now env\<rparr> else u"
    assume t: "find (\<lambda>t. tp_id t = cvc_templateId command) (pl_templates p) = Some t"
        "tp_version t = cvc_expectedVersion command"
      and row: "row = version_row env (cvc_versionId command) (cvc_templateId command)
        (tp_latest_version t + 1) (cvc_actorId command) (cvc_snapshot command)"
      and a: "version_added (map ?g) row p q"
    have "tp_id t = cvc_templateId command" using t(1) by (auto simp: find_Some_iff)
    then have "templates_inv q" using inv new_version(2) t
      by (intro templates_inv_extended [OF _ a t(1)]) (simp_all add: platform_inv_def row version_row_def snapshot_validated_def)
    then show ?thesis by (rule template_step_inv [OF inv _ a])
  qed
next
  case (mount env command cr)
  have c: "challenges_inv q" using inv mount_challenges_inv [OF _ _ mount] by (simp add: platform_inv_def)
  from mount show ?thesis
    by (rule mount_challenge_Inr) (rule challenge_step_inv [OF inv c], auto)
next
  case (revise env command cr)
  have c: "challenges_inv q" using inv revise_challenges_inv [OF _ revise(2,1)] by (simp add: platform_inv_def)
  from revise(1) show ?thesis
    by (rule revise_challenge_Inr) (rule challenge_step_inv [OF inv c], assumption, rule revised_keep)
next
  case (objects objs)
  show ?thesis using inv
    by (simp add: objects platform_inv_def db_of_def contests_inv_def templates_inv_def versions_of_def challenges_inv_def)
qed

section \<open>Requests are steps\<close>

lemma settledI:
  assumes "\<And>r q. x = Inr (r, q) \<Longrightarrow> P q"
  shows "settled p x = p \<or> P (settled p x)"
  using assms by (auto simp: settled_def split: sum.split prod.split)

lemma create_command_domains:
  assumes "validateConfiguration (create_configuration input) code b = Inr ()"
  shows "admissible_domains (cs_allowedEmailDomains (create_command c actor input))"
proof -
  have "list_all emailDomainPattern (cg_allowedEmailDomains (create_configuration input))"
    using assms by (simp add: validate_Inr domain_issues_Nil)
  then show ?thesis
    by (simp add: create_command_def settings_of_def create_configuration_def normalized_domains contest_settings.defs)
qed

lemma prepared_domains:
  assumes "prepare_update c env actor input p = Inr command" and "contests_inv p"
  shows "admissible_domains (cs_allowedEmailDomains command)"
proof -
  from assms(1) obtain current where r: "readManaged env p (uci_contestId input) = Inr current"
    and v: "validateConfiguration (update_configuration current input) (update_code input)
      (uci_inviteCode input \<noteq> None) = Inr ()"
    and command: "command = update_command c actor current input"
    by (auto simp: prepare_update_def ebind_Inr_iff split: if_splits)
  from r obtain row where row: "row \<in> set (pl_contests p)" "contest_record_of env row = Inr current"
    by (auto simp: readManaged_def dest: find_contest_id split: option.splits)
  then have "admissible_domains (cn_allowedEmailDomains current)"
    using assms(2) by (fastforce simp: contests_inv_def contest_record_of_def ebind_Inr_iff)
  moreover have "list_all emailDomainPattern (cg_allowedEmailDomains (update_configuration current input))"
    using v by (simp add: validate_Inr domain_issues_Nil)
  ultimately show ?thesis
    by (auto simp: command update_command_def settings_of_def update_configuration_def contest_settings.defs
        intro: normalized_domains split: option.splits)
qed

lemma validate_snapshot_Inr: "validate_snapshot s = Inr () \<longleftrightarrow> snapshot_validated s"
  by (auto simp: validate_snapshot_def assertChallengePolicies_def challengePolicyErrors_def
      snapshot_validated_def policies_valid_def Let_def split: if_splits)

lemma snapshot_policies [simp]: "snapshot_validated (snapshot s) = snapshot_validated s"
  by (simp add: snapshot_validated_def snapshot_def)

lemma perform_step:
  assumes "hs \<noteq> []" and inv: "\<forall>p\<in>set hs. platform_inv p"
  shows "perform m c env x hs = hd hs \<or> platform_step m (hd hs) (perform m c env x hs)"
proof -
  have seen: "contests_inv (seen_before hs k)" for k
  proof -
    have "seen_before hs k \<in> set hs" unfolding seen_before_def using assms(1) by (intro nth_mem) (cases hs; simp)
    then show ?thesis using inv by (simp add: platform_inv_def)
  qed
  show ?thesis
  proof (cases x)
    case (Transact y)
    then show ?thesis using execute_step [of m env y "db_of (hd hs)"] by (auto intro: platform_step.intros)
  next
    case (CreateContest actor input)
    then show ?thesis unfolding CreateContest perform.simps
      by (intro settledI) (auto simp: contest_createDraft_def ebind_Inr_iff
          intro: platform_step.create_contest create_command_domains)
  next
    case (UpdateContest read_env actor input k)
    show ?thesis unfolding UpdateContest perform.simps
      by (intro settledI) (auto simp: contest_updateDraft_def ebind_Inr_iff
          intro!: platform_step.update_contest intro: prepared_domains [OF _ seen])
  next
    case (PublishContest actor input)
    show ?thesis unfolding PublishContest perform.simps
      by (intro settledI) (auto simp: contest_publish_def guarded_Inr publish_contest_def
          intro: platform_step.move_contest)
  next
    case (ArchiveContest actor input)
    show ?thesis unfolding ArchiveContest perform.simps
      by (intro settledI) (auto simp: contest_archive_def guarded_Inr archive_contest_def
          intro: platform_step.move_contest)
  next
    case (CreateTemplate templateId versionId actor input)
    show ?thesis unfolding CreateTemplate perform.simps
      by (intro settledI) (auto simp: template_create_def ebind_Inr_iff validate_snapshot_Inr
          intro!: platform_step.new_template)
  next
    case (CreateTemplateVersion versionId actor input k)
    show ?thesis unfolding CreateTemplateVersion perform.simps
      by (intro settledI) (auto simp: template_createVersion_def prepare_version_def ebind_Inr_iff
          validate_snapshot_Inr Let_def intro!: platform_step.new_version split: if_splits)
  next
    case (MountChallenge challengeId actor input)
    show ?thesis unfolding MountChallenge perform.simps
      by (intro settledI) (auto simp: challenge_mount_def guarded_Inr intro: platform_step.mount)
  next
    case (ReviseChallenge actor input)
    show ?thesis unfolding ReviseChallenge perform.simps
      by (intro settledI) (auto simp: challenge_revise_def ebind_Inr_iff revision_validated_def
          revise_command_of_def intro!: platform_step.revise split: if_splits)
  next
    case (StoreObjects objs)
    then show ?thesis by (auto intro: platform_step.objects)
  qed
qed

section \<open>Histories\<close>

lemma run_platform_inv:
  assumes "hs \<noteq> []" and "\<forall>p\<in>set hs. platform_inv p"
  shows "run_platform m c xs hs \<noteq> [] \<and> (\<forall>p\<in>set (run_platform m c xs hs). platform_inv p)"
  using assms
proof (induction xs arbitrary: hs)
  case (Cons x xs)
  obtain env y where x: "x = (env, y)" by force
  have hd: "platform_inv (hd hs)" using Cons.prems by simp
  have "platform_inv (perform m c env y hs)"
    using perform_step [OF Cons.prems, of m c env y] platform_step_inv [OF _ hd] hd by (elim disjE) simp_all
  then have "\<forall>p\<in>set (perform m c env y hs # hs). platform_inv p" using Cons.prems(2) by simp
  then show ?case unfolding x run_platform.simps by (intro Cons.IH list.distinct)
qed simp

text \<open>An order on states that every step climbs orders the states of a history.\<close>

locale platform_order =
  fixes m :: js_math and R :: "platform \<Rightarrow> platform \<Rightarrow> bool"
  assumes refl: "R p p"
    and trans: "R p q \<Longrightarrow> R q r \<Longrightarrow> R p r"
    and step: "platform_step m p q \<Longrightarrow> platform_inv p \<Longrightarrow> R p q"
begin

lemma history:
  assumes "hs \<noteq> []" and "\<forall>p\<in>set hs. platform_inv p" and "sorted_wrt (\<lambda>new old. R old new) hs"
  shows "sorted_wrt (\<lambda>new old. R old new) (run_platform m c xs hs)"
  using assms
proof (induction xs arbitrary: hs)
  case (Cons x xs)
  obtain env y where x: "x = (env, y)" by force
  let ?p = "perform m c env y hs"
  have hd: "platform_inv (hd hs)" using Cons.prems(1,2) by simp
  have p: "?p = hd hs \<or> platform_step m (hd hs) ?p" by (rule perform_step [OF Cons.prems(1,2)])
  then have r: "R (hd hs) ?p" using step [OF _ hd] refl by (elim disjE) simp_all
  have "R q ?p" if "q \<in> set hs" for q
  proof -
    have "R q (hd hs)" using that Cons.prems(1,3) refl by (cases hs) auto
    then show ?thesis using r trans by blast
  qed
  then have order: "sorted_wrt (\<lambda>new old. R old new) (?p # hs)" using Cons.prems(3) by simp
  have "platform_inv ?p" using p platform_step_inv [OF _ hd] hd by (elim disjE) simp_all
  then have "\<forall>q\<in>set (?p # hs). platform_inv q" using Cons.prems(2) by simp
  then show ?case unfolding x run_platform.simps by (intro Cons.IH list.distinct order)
qed simp

text \<open>The state \<open>j\<close> requests ago comes before the state \<open>i\<close> requests ago.\<close>

lemma ordered:
  assumes "platform_inv p" and "hs = run_platform m c xs [p]" and "i \<le> j" and "j < length hs"
  shows "R (hs ! j) (hs ! i)"
proof (cases "i = j")
  case False
  have "sorted_wrt (\<lambda>new old. R old new) hs"
    unfolding assms(2) by (rule history) (use assms(1) in auto)
  then show ?thesis using False assms(3,4) by (simp add: sorted_wrt_iff_nth_less)
qed (simp add: refl)

end

text \<open>A platform on which nothing is configured yet: only accounts exist.\<close>

definition empty_platform :: "platform \<Rightarrow> bool" where
  "empty_platform p \<longleftrightarrow> fresh_platform (db_of p) \<and> pl_contests p = [] \<and> pl_challenges p = []
     \<and> pl_assets p = [] \<and> pl_hints p = [] \<and> pl_templates p = [] \<and> pl_template_versions p = []
     \<and> pl_template_assets p = [] \<and> pl_template_hints p = []"

lemma empty_platform_inv: "empty_platform p \<Longrightarrow> platform_inv p"
  using fresh_platform_inv
  by (simp add: empty_platform_def platform_inv_def contests_inv_def templates_inv_def challenges_inv_def)

lemma history_inv:
  assumes "empty_platform p0" and "hs = run_platform m c xs [p0]" and "p \<in> set hs"
  shows "platform_inv p"
  using run_platform_inv [of "[p0]" m c xs] empty_platform_inv [OF assms(1)] assms(2,3) by simp

end
