(* ===== verification/Platform_Properties.thy ===== *)
theory Platform_Properties
  imports Platform
begin

text \<open>
  What holds along every history of the platform: its invariant, the life of contests and their
  configuration, the effect of optimistic updates, template versions, snapshots, what players see,
  and that every scoreboard can be computed.
\<close>

section \<open>Orders that steps climb\<close>

text \<open>Contests get later.\<close>

definition contests_later :: "platform \<Rightarrow> platform \<Rightarrow> bool" where
  "contests_later p q \<longleftrightarrow> (\<forall>i. contest_later (find_contest p i) (find_contest q i))"

lemma contests_later_same: "pl_contests q = pl_contests p \<Longrightarrow> contests_later p q"
  by (simp add: contests_later_def find_contest_def)

lemma challenge_tables_contests: "challenge_tables_only p q \<Longrightarrow> contests_later p q"
  by (simp add: challenge_tables_only_def contests_later_same)

lemma platform_step_later:
  assumes "platform_step m p q"
  shows "contests_later p q"
  using assms
proof cases
  case (transact db)
  then show ?thesis by (simp add: contests_later_same)
next
  case (create_contest env command r)
  then show ?thesis using contest_moves_later [OF createDraft_moves] by (simp add: contests_later_def)
next
  case (update_contest env command r)
  then show ?thesis using contest_moves_later [OF updateDraft_moves] by (simp add: contests_later_def)
next
  case (move_contest env command target r)
  then show ?thesis using contest_moves_later [OF transition_moves] by (simp add: contests_later_def)
next
  case (new_template env command d)
  from new_template(1) show ?thesis
    by (rule create_template_Inr) (simp add: version_added_def contests_later_same)
next
  case (new_version env command d)
  from new_version(1) show ?thesis
    by (rule create_template_version_Inr) (simp add: version_added_def contests_later_same)
next
  case (mount env command cr)
  from mount show ?thesis by (rule mount_challenge_Inr) (rule challenge_tables_contests)
next
  case (revise env command cr)
  from revise(1) show ?thesis by (rule revise_challenge_Inr) (rule challenge_tables_contests)
qed (simp_all add: contests_later_same)

interpretation contests: platform_order m contests_later for m
  by unfold_locales (auto simp: contests_later_def intro: contest_later_trans dest: platform_step_later)

text \<open>Template versions stay as they are.\<close>

definition versions_kept :: "platform \<Rightarrow> platform \<Rightarrow> bool" where
  "versions_kept p q \<longleftrightarrow> (\<forall>v\<in>set (pl_template_versions p). v \<in> set (pl_template_versions q)
     \<and> version_record q v = version_record p v)"

lemma versions_kept_same: "same_templates p q \<Longrightarrow> versions_kept p q"
  by (simp add: versions_kept_def same_templates_def version_record_def)

lemma versions_kept_added: "version_added f row p q \<Longrightarrow> versions_kept p q"
  using version_added_record [of f row p q] by (simp add: versions_kept_def) (simp add: version_added_def)

lemma platform_step_versions:
  assumes "platform_step m p q"
  shows "versions_kept p q"
  using assms
proof cases
  case (create_contest env command r)
  then show ?thesis
    using contest_tables_only(1) [OF disjI1 [OF createDraft_Inr(1)]] by (blast intro: versions_kept_same)
next
  case (update_contest env command r)
  from update_contest(1) show ?thesis
    by (rule updateDraft_Inr) (rule versions_kept_same [OF contest_tables_only(1) [OF disjI2]])
next
  case (move_contest env command target r)
  then show ?thesis
    by (rule transition_Inr) (rule versions_kept_same [OF contest_tables_only(1) [OF disjI2]])
next
  case (new_template env command d)
  from new_template(1) show ?thesis by (rule create_template_Inr) (rule versions_kept_added)
next
  case (new_version env command d)
  from new_version(1) show ?thesis by (rule create_template_version_Inr) (rule versions_kept_added)
next
  case (mount env command cr)
  from mount show ?thesis
    by (rule mount_challenge_Inr) (simp add: challenge_tables_only_def versions_kept_same)
next
  case (revise env command cr)
  from revise(1) show ?thesis
    by (rule revise_challenge_Inr) (simp add: challenge_tables_only_def versions_kept_same)
qed (simp_all add: versions_kept_def version_record_def)

interpretation versions: platform_order m versions_kept for m
  by unfold_locales (auto simp: versions_kept_def dest: platform_step_versions)

text \<open>
  Challenges stay in their contest; they change only together with revision and version, and not
  at all, children included, once the contest is archived.
\<close>

definition children :: "platform \<Rightarrow> uuid \<Rightarrow> asset_row list \<times> millis hint_row list" where
  "children p i = (owned_assets (pl_assets p) i, owned_hints (pl_hints p) i)"

definition challenge_later :: "platform \<Rightarrow> managed_challenge \<Rightarrow> platform \<Rightarrow> managed_challenge \<Rightarrow> bool" where
  "challenge_later p c q d \<longleftrightarrow> ch_id d = ch_id c \<and> ch_contest_id d = ch_contest_id c
     \<and> mh_source_version_id d = mh_source_version_id c
     \<and> mh_version d - mh_version c = mh_snapshot_revision d - mh_snapshot_revision c
     \<and> (mh_version c < mh_version d \<or> d = c \<and> children q (ch_id c) = children p (ch_id c))
     \<and> (status_of p (ch_contest_id c) = Some Archived \<longrightarrow> d = c)"

definition challenges_later :: "platform \<Rightarrow> platform \<Rightarrow> bool" where
  "challenges_later p q \<longleftrightarrow> contests_later p q
     \<and> (\<forall>c\<in>set (pl_challenges p). \<exists>d\<in>set (pl_challenges q). challenge_later p c q d)"

lemma challenge_later_refl: "challenge_later p c p c"
  by (simp add: challenge_later_def)

lemma challenges_later_same:
  assumes "same_challenges p q" and "contests_later p q"
  shows "challenges_later p q"
  using assms by (fastforce simp: challenges_later_def challenge_later_def same_challenges_def children_def)

lemma archived_later:
  assumes "contests_later p q" and "status_of p i = Some Archived"
  shows "status_of q i = Some Archived"
proof -
  obtain r where r: "find_contest p i = Some r" "co_publication_status r = Archived"
    using assms(2) by (auto simp: status_of_def find_contest_def)
  then obtain s where "find_contest q i = Some s" and "rank Archived \<le> rank (co_publication_status s)"
    using assms(1) unfolding contests_later_def contest_later_def by metis
  then show ?thesis by (cases "co_publication_status s") (simp_all add: status_of_def find_contest_def)
qed

lemma challenges_later_trans:
  assumes "challenges_later p q" and "challenges_later q r"
  shows "challenges_later p r"
proof -
  have later: "contests_later p q" "contests_later q r" using assms by (simp_all add: challenges_later_def)
  have "\<exists>e\<in>set (pl_challenges r). challenge_later p c r e" if c: "c \<in> set (pl_challenges p)" for c
  proof -
    obtain d where d: "d \<in> set (pl_challenges q)" "challenge_later p c q d"
      using assms(1) c by (auto simp: challenges_later_def)
    obtain e where e: "e \<in> set (pl_challenges r)" "challenge_later q d r e"
      using assms(2) d(1) by (auto simp: challenges_later_def)
    have "status_of p (ch_contest_id c) = Some Archived \<longrightarrow> e = c"
      using d e archived_later [OF later(1)] by (auto simp: challenge_later_def)
    then have "challenge_later p c r e" using d(2) e(2) unfolding challenge_later_def by auto
    then show ?thesis using e(1) by blast
  qed
  then show ?thesis using contests.trans [OF later] by (simp add: challenges_later_def)
qed

lemma mount_later:
  assumes "mount_challenge env command p = Inr (r, q)"
  shows "challenges_later p q"
  using assms
proof (rule mount_challenge_Inr)
  fix contest v
  let ?c = "mounted_row env command v"
  assume ins: "insert_challenge ?c p = Inr (p\<lparr>pl_challenges := pl_challenges p @ [?c]\<rparr>)"
    and q: "pl_challenges q = pl_challenges p @ [?c]"
      "pl_assets q = pl_assets p @ asset_rows env 0 (mo_challengeId command) (readTemplateAssets p (tv_id v))"
      "pl_hints q = pl_hints p @ hint_rows env (length (readTemplateAssets p (tv_id v)))
        (mo_challengeId command) (map (scheduled_hint (or_default (mo_publishAt command) (co_start_at contest)))
          (readTemplateHints p (tv_id v)))"
    and only: "challenge_tables_only p q"
  have fresh: "mo_challengeId command \<notin> ch_id ` set (pl_challenges p)"
    using insert_challenge_Inr [OF ins] by (simp add: mounted_row_def)
  have "challenge_later p c q c" if "c \<in> set (pl_challenges p)" for c
  proof -
    have "ch_id c \<noteq> mo_challengeId command" using fresh that by (metis imageI)
    then show ?thesis by (simp add: challenge_later_def children_def owned_assets_def owned_hints_def q)
  qed
  then show ?thesis using q(1) challenge_tables_contests [OF only] by (auto simp: challenges_later_def)
qed

lemma revise_later:
  assumes ids: "distinct (map ch_id (pl_challenges p))" and "revise_challenge env command p = Inr (r, q)"
  shows "challenges_later p q"
  using assms(2)
proof (rule revise_challenge_Inr)
  fix c current
  let ?s = "revised_snapshot command (snapshotValue current)"
  assume st: "status_of p (re_contestId command) = Some Published"
    and u: "update_challenge True (revision_target command) (revised_row env ?s) p
      = Inr (1, p\<lparr>pl_challenges := pl_challenges q\<rparr>)"
    and a: "pl_assets q = (case re_assets command of None \<Rightarrow> pl_assets p
      | Some as \<Rightarrow> filter (\<lambda>a. as_owner a \<noteq> re_challengeId command) (pl_assets p)
          @ asset_rows env 0 (re_challengeId command) as)"
    and h: "pl_hints q = (case re_hints command of None \<Rightarrow> pl_hints p
      | Some hs \<Rightarrow> filter (\<lambda>h. hi_owner h \<noteq> re_challengeId command) (pl_hints p)
          @ hint_rows env (list_length (re_assets command)) (re_challengeId command) hs)"
    and only: "challenge_tables_only p q"
  have q: "pl_challenges q = map (\<lambda>c. if revision_target command c then revised_row env ?s c else c) (pl_challenges p)"
    using arg_cong [OF update_challenge_Inr(3) [OF u], of pl_challenges] by simp
  have one: "length (filter (revision_target command) (pl_challenges p)) = 1"
    using update_challenge_Inr(1) [OF u] by simp
  then obtain t where "t \<in> set (filter (revision_target command) (pl_challenges p))"
    by (cases "filter (revision_target command) (pl_challenges p)") simp_all
  then have t: "t \<in> set (pl_challenges p)" "revision_target command t" by simp_all
  have "\<exists>d\<in>set (pl_challenges q). challenge_later p c q d" if c: "c \<in> set (pl_challenges p)" for c
  proof (cases "revision_target command c")
    case True
    then have "challenge_later p c q (revised_row env ?s c)"
      using st by (simp add: challenge_later_def revised_row_def revision_target_def)
    then show ?thesis using c True unfolding q by force
  next
    case False
    have "ch_id c \<noteq> re_challengeId command"
    proof
      assume "ch_id c = re_challengeId command"
      then have "c = t" using key_unique [OF ids c t(1)] t(2) by (simp add: revision_target_def)
      then show False using False t(2) by simp
    qed
    then have "challenge_later p c q c"
      by (auto simp: challenge_later_def children_def owned_assets_def owned_hints_def a h filter_filter
          split: option.splits intro!: arg_cong [of _ _ "sort_key _"] filter_cong)
    then show ?thesis using c False unfolding q by force
  qed
  then show ?thesis using challenge_tables_contests [OF only] by (simp add: challenges_later_def)
qed

lemma platform_step_challenges:
  assumes "platform_step m p q" and inv: "platform_inv p"
  shows "challenges_later p q"
proof -
  note later = platform_step_later [OF assms(1)]
  from assms(1) show ?thesis
  proof cases
    case (create_contest env command r)
    then show ?thesis
      using contest_tables_only(2) [OF disjI1 [OF createDraft_Inr(1)]] later by (blast intro: challenges_later_same)
  next
    case (update_contest env command r)
    from update_contest(1) show ?thesis
      by (rule updateDraft_Inr) (rule challenges_later_same [OF contest_tables_only(2) [OF disjI2] later])
  next
    case (move_contest env command target r)
    then show ?thesis
      by (rule transition_Inr) (rule challenges_later_same [OF contest_tables_only(2) [OF disjI2] later])
  next
    case (new_template env command d)
    from new_template(1) have "same_challenges p q"
      by (rule create_template_Inr) (simp add: version_added_def same_challenges_def)
    then show ?thesis using later by (rule challenges_later_same)
  next
    case (new_version env command d)
    from new_version(1) have "same_challenges p q"
      by (rule create_template_version_Inr) (simp add: version_added_def same_challenges_def)
    then show ?thesis using later by (rule challenges_later_same)
  next
    case (mount env command cr)
    then show ?thesis by (rule mount_later)
  next
    case (revise env command cr)
    then show ?thesis using revise_later inv by (simp add: platform_inv_def challenges_inv_def)
  qed (use later in \<open>simp_all add: challenges_later_same same_challenges_def\<close>)
qed

interpretation challenges: platform_order m challenges_later for m
proof
  show "challenges_later p p" for p by (rule challenges_later_same) (simp_all add: same_challenges_def contests.refl)
qed (fact challenges_later_trans, fact platform_step_challenges)

section \<open>Properties of histories\<close>

lemma history_member: "j < length hs \<Longrightarrow> empty_platform p0 \<Longrightarrow> hs = run_platform m c xs [p0] \<Longrightarrow> platform_inv (hs ! j)"
  using history_inv nth_mem by blast

lemma history_ordered:
  assumes "empty_platform p0" and "hs = run_platform m c xs [p0]" and "i \<le> j" and "j < length hs"
  shows "contests_later (hs ! j) (hs ! i)" and "versions_kept (hs ! j) (hs ! i)"
    and "challenges_later (hs ! j) (hs ! i)"
  using contests.ordered [OF empty_platform_inv [OF assms(1)] assms(2-4)]
    versions.ordered [OF empty_platform_inv [OF assms(1)] assms(2-4)]
    challenges.ordered [OF empty_platform_inv [OF assms(1)] assms(2-4)] by simp_all

text \<open>
  C6: Starting with accounts only, whatever requests managers, players and judges make in whatever
  order, every state of the platform is in order: the scoring, team and participation tables as in
  the system's invariant, contests within the bounds of their table and with readable constraints,
  template versions numbered without gaps, and challenges with valid policies in existing contests.
\<close>

theorem platform_history_invariant:
  assumes "empty_platform p0" and "p \<in> set (run_platform m c xs [p0])"
  shows "platform_inv p"
  by (rule history_inv [OF assms(1) refl assms(2)])

text \<open>
  C8: Once a contest is published, nothing changes its configuration any more: in every later state
  it exists with the same configuration and is published, or archived for good.
\<close>

theorem published_configuration_fixed:
  assumes "empty_platform p0" and "hs = run_platform m c xs [p0]" and "i \<le> j" and "j < length hs"
    and "find_contest (hs ! j) k = Some r" and "co_publication_status r \<noteq> Draft"
  shows "\<exists>s. find_contest (hs ! i) k = Some s \<and> configuration s = configuration r
    \<and> co_publication_status s \<in> {co_publication_status r, Archived}"
proof -
  obtain s where s: "find_contest (hs ! i) k = Some s" "configuration s = configuration r"
    "rank (co_publication_status r) \<le> rank (co_publication_status s)"
    using history_ordered(1) [OF assms(1-4)] assms(5,6) unfolding contests_later_def contest_later_def by metis
  then have "co_publication_status s \<in> {co_publication_status r, Archived}"
    using assms(6) by (cases "co_publication_status r"; cases "co_publication_status s") simp_all
  then show ?thesis using s by blast
qed

text \<open>
  C7: No update is lost. An update merged with a draft read in an earlier state is stored only if
  the draft has not changed since: the row it replaces is the row it was merged with, and what is
  stored is the merge.
\<close>

theorem no_lost_update:
  assumes "empty_platform p0" and "hs = run_platform m c xs [p0]" and "i \<le> j" and "j < length hs"
    and "prepare_update c read_env actor input (hs ! j) = Inr command"
    and "updateDraft env command (hs ! i) = Inr (r, q)"
  shows "\<exists>s. find_contest (hs ! j) (uci_contestId input) = Some s
    \<and> find_contest (hs ! i) (uci_contestId input) = Some s
    \<and> find_contest q (uci_contestId input) = Some (updated_draft env command s)"
proof -
  from assms(5) obtain current where r: "readManaged read_env (hs ! j) (uci_contestId input) = Inr current"
    and v: "cn_version current = uci_expectedVersion input"
    and command: "command = update_command c actor current input"
    by (auto simp: prepare_update_def ebind_Inr_iff split: if_splits)
  from r obtain s where s: "find_contest (hs ! j) (uci_contestId input) = Some s"
    and "contest_record_of read_env s = Inr current"
    by (auto simp: readManaged_def split: option.splits)
  then have version: "mc_version s = uci_expectedVersion input"
    using v by (auto simp: contest_record_of_def ebind_Inr_iff)
  have keys: "udc_contestId command = uci_contestId input" "udc_expectedVersion command = uci_expectedVersion input"
    by (simp_all add: command update_command_def contest_settings.defs update_draft_command.defs)
  from assms(6) show ?thesis
  proof (rule updateDraft_Inr)
    fix t
    assume t: "find_contest (hs ! i) (udc_contestId command) = Some t" "mc_version t = udc_expectedVersion command"
      and w: "contest_rewritten (udc_contestId command) (updated_draft env command) (hs ! i) q"
    have "contest_later (find_contest (hs ! j) (uci_contestId input)) (find_contest (hs ! i) (uci_contestId input))"
      using history_ordered(1) [OF assms(1-4)] by (simp add: contests_later_def)
    then have "t = s" using s t version keys by (auto simp: contest_later_def)
    then show ?thesis using s t keys rewritten_find [OF w, of "uci_contestId input"] by simp
  qed
qed

text \<open>The abstract life of a contest.\<close>

inductive life_step :: "contest_publication_status option \<Rightarrow> contest_publication_status option \<Rightarrow> bool" where
  "life_step None (Some Draft)"
| "life_step (Some Draft) (Some Draft)"
| "life_step (Some Draft) (Some Published)"
| "life_step (Some Published) (Some Archived)"

definition life :: "platform \<Rightarrow> uuid \<Rightarrow> contest_publication_status option" where
  "life p k = map_option co_publication_status (find_contest p k)"

lemma contest_edge_life:
  "contest_edge x y \<Longrightarrow> life_step (map_option co_publication_status x) (map_option co_publication_status y)"
  by (induction rule: contest_edge.induct) (simp_all add: life_step.intros)

text \<open>
  C9: Every request on contests that succeeds moves exactly one contest along an edge of the abstract
  life cycle - created as a draft, edited as a draft, published, archived - and no request skips or
  undoes a stage.
\<close>

theorem contest_life_refines:
  assumes "contest_createDraft c env actor cinput p = Inr (r, q)
    \<or> contest_updateDraft c read_env env actor uinput seen p = Inr (r, q)
    \<or> contest_publish env actor linput p = Inr (r, q) \<or> contest_archive env actor linput p = Inr (r, q)"
  shows "\<exists>k. life_step (life p k) (life q k) \<and> (\<forall>k'. k' \<noteq> k \<longrightarrow> life q k' = life p k')"
proof -
  have "contest_moves p q"
    using assms createDraft_moves updateDraft_moves transition_moves
    by (auto simp: contest_createDraft_def contest_updateDraft_def contest_publish_def contest_archive_def
        guarded_Inr publish_contest_def archive_contest_def ebind_Inr_iff)
  then show ?thesis unfolding contest_moves_def life_def by (metis contest_edge_life)
qed

text \<open>
  C10: Publishing succeeds only for a contest that can be played: at least one challenge is enabled,
  and every enabled one has a title, a description, a publication time inside the contest's window,
  valid policies and only committed attachments.
\<close>

theorem published_playable:
  assumes "contest_publish env actor input p = Inr (r, q)"
  shows "\<exists>contest. find_contest p (cli_contestId input) = Some contest
    \<and> enabled_challenges p (cli_contestId input) \<noteq> []
    \<and> (\<forall>ch\<in>set (enabled_challenges p (cli_contestId input)).
         js_trim (mh_title ch) \<noteq> '''' \<and> js_trim (mh_description ch) \<noteq> ''''
         \<and> (\<forall>t. ch_publish_at ch = Some t \<longrightarrow> co_start_at contest \<le> t \<and> t \<le> co_end_at contest)
         \<and> policies_valid (ch_flag_policy ch) (ch_scoring_policy ch) (mh_instance_policy ch)
         \<and> (\<forall>a\<in>set (pl_assets p). \<forall>b\<in>set (pl_objects p). as_owner a = ch_id ch
              \<longrightarrow> as_content_object_id a = ob_id b \<longrightarrow> ob_status b = Committed \<and> ob_committed_at b \<noteq> None))"
proof -
  let ?i = "cli_contestId input"
  have "transition env (lifecycle_command actor input) ToPublished p = Inr (r, q)"
    using assms by (simp add: contest_publish_def guarded_Inr publish_contest_def)
  then obtain contest where c: "find_contest p ?i = Some contest" and ready: "check_ready p ?i = Inr ()"
    by (rule transition_Inr) (simp add: lifecycle_command_def)
  then have ne: "enabled_challenges p ?i \<noteq> []"
    and issues: "concat (map (challenge_issues contest) (enabled_challenges p ?i)) = []"
    and assets: "concat (map asset_issue (contest_assets p ?i)) = []"
    by (auto simp: check_ready_def publicationCheck_def ebind_Inr_iff Let_def split: if_splits)
  have "js_trim (mh_title ch) \<noteq> '''' \<and> js_trim (mh_description ch) \<noteq> ''''
         \<and> (\<forall>t. ch_publish_at ch = Some t \<longrightarrow> co_start_at contest \<le> t \<and> t \<le> co_end_at contest)
         \<and> policies_valid (ch_flag_policy ch) (ch_scoring_policy ch) (mh_instance_policy ch)"
    if "ch \<in> set (enabled_challenges p ?i)" for ch
  proof -
    have "challenge_issues contest ch = []" using issues that by simp
    then show ?thesis by (auto simp: challenge_issues_def policies_valid_def Let_def split: if_splits)
  qed
  moreover have "ob_status b = Committed \<and> ob_committed_at b \<noteq> None"
    if "ch \<in> set (enabled_challenges p ?i)" "a \<in> set (pl_assets p)" "b \<in> set (pl_objects p)"
      "as_owner a = ch_id ch" "as_content_object_id a = ob_id b" for ch a b
  proof -
    have "ch \<in> set (pl_challenges p)" "ch_contest_id ch = ?i" "ch_enabled ch"
      using that(1) by (simp_all add: enabled_challenges_def)
    then have "(ch, a, b) \<in> set (contest_assets p ?i)" using that by (force simp: contest_assets_def)
    then have "asset_issue (ch, a, b) = []" using assets by simp
    then show ?thesis by (simp add: asset_issue_def split: if_splits)
  qed
  ultimately show ?thesis using c ne by blast
qed

text \<open>
  C12: Template versions are immutable: a version that can be read reads the same in every later
  state, its assets and hints included, and the versions of a template are numbered from 1 to the
  latest.
\<close>

theorem template_version_immutable:
  assumes "empty_platform p0" and "hs = run_platform m c xs [p0]" and "i \<le> j" and "j < length hs"
    and "read_template (hs ! j) templateId (Some n) = Inr d"
  shows "\<exists>e. read_template (hs ! i) templateId (Some n) = Inr e
    \<and> td_challengeVersion e = td_challengeVersion d
    \<and> 1 \<le> n \<and> n \<le> tp_latest_version (td_template e)"
proof -
  obtain t v where t: "find (\<lambda>t. tp_id t = templateId) (pl_templates (hs ! j)) = Some t"
    and v: "find (\<lambda>v. tv_template_id v = templateId \<and> tv_version_number v = n)
      (pl_template_versions (hs ! j)) = Some v"
    and d: "td_challengeVersion d = version_record (hs ! j) v"
    using assms(5) by (auto simp: read_template_def split: option.splits)
  have vj: "v \<in> set (pl_template_versions (hs ! j))" "tv_template_id v = templateId" "tv_version_number v = n"
    using v by (auto simp: find_Some_iff)
  then have vi: "v \<in> set (pl_template_versions (hs ! i))"
    and same: "version_record (hs ! i) v = version_record (hs ! j) v"
    using history_ordered(2) [OF assms(1-4)] by (simp_all add: versions_kept_def)
  have inv: "templates_inv (hs ! i)"
    using history_member [of i hs p0 m c xs] assms(1-4) by (simp add: platform_inv_def)
  then have "templateId \<in> tp_id ` set (pl_templates (hs ! i))" using vi vj(2) by (auto simp: templates_inv_def)
  then obtain u where u: "u \<in> set (pl_templates (hs ! i))" "tp_id u = templateId" by blast
  have fu: "find (\<lambda>t. tp_id t = templateId) (pl_templates (hs ! i)) = Some u"
    using find_key_eq [of tp_id "pl_templates (hs ! i)" u] inv u by (simp add: templates_inv_def)
  have numbers: "map tv_version_number (versions_of (hs ! i) templateId) = [1..tp_latest_version u]"
    using inv u by (auto simp: templates_inv_def)
  have mem: "v \<in> set (versions_of (hs ! i) templateId)" using vi vj(2) by (simp add: versions_of_def)
  then have bounds: "1 \<le> n \<and> n \<le> tp_latest_version u"
    using arg_cong [OF numbers, of set] vj(3) by (simp flip: vj(3)) (metis (no_types, lifting) atLeastAtMost_iff image_eqI set_upto)
  have dist: "distinct (map tv_version_number (versions_of (hs ! i) templateId))" by (simp add: numbers)
  obtain w where w: "find (\<lambda>v. tv_template_id v = templateId \<and> tv_version_number v = n)
      (pl_template_versions (hs ! i)) = Some w"
    using vi vj by (cases "find (\<lambda>v. tv_template_id v = templateId \<and> tv_version_number v = n)
      (pl_template_versions (hs ! i))") (auto simp: find_None_iff)
  then have "w \<in> set (versions_of (hs ! i) templateId)" "tv_version_number w = n"
    by (auto simp: find_Some_iff versions_of_def)
  then have "w = v" using key_unique [OF dist _ mem] vj(3) by simp
  then show ?thesis using fu w d same bounds by (auto simp: read_template_def)
qed

text \<open>
  C13: A challenge keeps its contest and its source; whenever it changes, its version and its snapshot
  revision grow together; and from the moment its contest is archived nothing of it changes, its
  attachments and hints included.
\<close>

theorem challenge_snapshots_versioned:
  assumes "empty_platform p0" and "hs = run_platform m c xs [p0]" and "i \<le> j" and "j < length hs"
    and "ch \<in> set (pl_challenges (hs ! j))"
  shows "\<exists>d\<in>set (pl_challenges (hs ! i)). ch_id d = ch_id ch \<and> ch_contest_id d = ch_contest_id ch
    \<and> mh_source_version_id d = mh_source_version_id ch
    \<and> mh_version d - mh_version ch = mh_snapshot_revision d - mh_snapshot_revision ch
    \<and> (mh_version d \<noteq> mh_version ch \<or> d = ch \<and> children (hs ! i) (ch_id ch) = children (hs ! j) (ch_id ch))
    \<and> (status_of (hs ! j) (ch_contest_id ch) = Some Archived
        \<longrightarrow> d = ch \<and> children (hs ! i) (ch_id ch) = children (hs ! j) (ch_id ch))"
proof -
  obtain d where "d \<in> set (pl_challenges (hs ! i))" "challenge_later (hs ! j) ch (hs ! i) d"
    using history_ordered(3) [OF assms(1-4)] assms(5) by (auto simp: challenges_later_def)
  then show ?thesis by (auto simp: challenge_later_def)
qed

text \<open>
  C11: The official scoreboard of every contest can be computed in every state of the platform, and
  its version is the stored one - as long as the points stay within the safe integers. No assumption
  on the configured policies is left: only valid ones can be stored.
\<close>

theorem every_scoreboard_computable:
  assumes "empty_platform p0" and "p \<in> set (run_platform m c xs [p0])"
    and "contest \<in> co_id ` set (pl_contests p)" and "score_bound (db_of p) \<le> max_safe_integer"
  shows "\<exists>r. replay_contest m (db_of p) contest None = Inr r \<and> r_factVersion r = version_of (db_of p) contest"
proof -
  have inv: "platform_inv p" by (rule history_inv [OF assms(1) refl assms(2)])
  have "known co_id (db_contests (db_of p)) contest"
    using assms(3) by (auto simp: known_def image_image contest_row.defs)
  moreover have "challengeScoringPolicySchema (ch_scoring_policy d) \<noteq> None"
    if "d \<in> set (db_contest_challenges (db_of p))" for d
    using that inv by (auto simp: platform_inv_def challenges_inv_def policies_valid_def contest_challenge_row.defs)
  ultimately show ?thesis using inv assms(4)
    by (intro replayable_inv) (auto simp: platform_inv_def system_inv_def)
qed

end
