(* ===== verification/Administration_Properties.thy ===== *)
theory Administration_Properties
  imports Platform_Properties
begin

text \<open>
  What single requests guarantee: which errors a validated configuration can still meet, that
  registration never meets a malformed one, what mounting copies, what a revision changes, and what
  of a challenge a player is shown.
\<close>

section \<open>Errors of validated configurations\<close>

lemma map_error_Inl_iff: "map_error h x = Inl e \<longleftrightarrow> (\<exists>e'. x = Inl e' \<and> e = h e')"
  by (cases x) auto

lemma constraints_Inl_failed: "constraints cs = Inl e \<Longrightarrow> (e, False) \<in> set cs"
  by (induction cs rule: constraints.induct) (auto split: if_splits)

lemma constraints_Inl_append:
  assumes "constraints (xs @ ys) = Inl e" and "list_all snd xs"
  shows "constraints ys = Inl e"
  using assms by (induction xs) (auto split: if_splits)

definition slug_check :: pg_error where
  "slug_check = CheckViolation ''contests_slug_normalized''"

text \<open>The checks of a contest, the slug's first.\<close>

lemma contest_checks_slug:
  "contest_checks r = (slug_check, mc_slug r = toLowerCase (mc_slug r)) # tl (contest_checks r)"
  by (simp add: contest_checks_def slug_check_def)

definition is_check :: "pg_error \<Rightarrow> bool" where
  "is_check e = (case e of CheckViolation _ \<Rightarrow> True | _ \<Rightarrow> False)"

lemma insert_contest_check:
  assumes "insert_contest r p = Inl (CheckViolation v)" and "list_all snd (tl (contest_checks r))"
  shows "v = ''contests_slug_normalized''"
proof -
  have "constraints (contest_checks r @ [
      (UniqueViolation ''contests_pkey'', \<not> known co_id (pl_contests p) (co_id r)),
      (UniqueViolation ''contests_slug_unique'', \<not> known mc_slug (pl_contests p) (mc_slug r)),
      (ForeignKeyViolation ''contests_created_by'', known us_id (db_users (pl_rest p)) (mc_created_by r))])
      = Inl (CheckViolation v)"
    using assms(1) by (auto simp: insert_contest_def ebind_Inl_iff simp del: constraints.simps)
  then have "(CheckViolation v, False) \<in> set (contest_checks r)" by (auto dest: constraints_Inl_failed)
  then show ?thesis using assms(2) by (subst (asm) contest_checks_slug) (auto simp: slug_check_def list_all_iff)
qed

lemma update_contest_check:
  assumes "update_contest i f p = Inl (CheckViolation v)"
    and "\<And>r. r \<in> set (pl_contests p) \<Longrightarrow> co_id r = i \<Longrightarrow> list_all snd (tl (contest_checks (f r)))"
  shows "v = ''contests_slug_normalized''"
proof -
  have "constraints (concat (map (\<lambda>r. contest_checks (f r) @ [(UniqueViolation ''contests_slug_unique'',
            \<not> known mc_slug (filter (\<lambda>q. co_id q \<noteq> i) (pl_contests p)) (mc_slug (f r)))])
        (filter (\<lambda>r. co_id r = i) (pl_contests p)))) = Inl (CheckViolation v)"
    using assms(1) by (auto simp: update_contest_def ebind_Inl_iff simp del: constraints.simps)
  from constraints_Inl_failed [OF this] obtain r where r: "r \<in> set (pl_contests p)" "co_id r = i"
    and "(CheckViolation v, False) \<in> set (contest_checks (f r))"
    by auto
  then show ?thesis using assms(2) [OF r]
    by (subst (asm) contest_checks_slug) (auto simp: slug_check_def list_all_iff)
qed

text \<open>The checks of the audit log a contest entry can fail: its request and its reason are blank.\<close>

lemma contest_audit_check:
  assumes "audit (contest_audit env k actorId requestId i action reason changes) p = Inl (Constraint (CheckViolation v))"
    and "btrim action \<noteq> ''''"
  shows "v \<in> {''audit_events_request_id_not_empty'', ''audit_events_reason_not_empty''}"
proof -
  have "btrim ''contest'' \<noteq> ''''" by (simp add: btrim_def)
  then show ?thesis using assms
    by (auto simp: audit_def checked_def ebind_Inl_iff map_error_Inl_iff insert_audit_event_def contest_audit_def
        simp del: constraints.simps dest!: constraints_Inl_failed)
qed

lemma contest_not_malformed:
  assumes "contests_inv p"
  shows "readManaged env p i \<noteq> Inl ContestConstraintsMalformed"
proof (cases "find_contest p i")
  case (Some r)
  then obtain ds where "co_registration_constraints r = constraints_json ds"
    using assms find_contest_id [OF Some] by (auto simp: contests_inv_def)
  then show ?thesis using Some by (simp add: readManaged_def contest_record_of_def)
qed (simp add: readManaged_def)

text \<open>The errors left: no table check but those of texts the request schema bounds.\<close>

definition unchecked_texts :: "string set" where
  "unchecked_texts = {''contests_slug_normalized'', ''audit_events_request_id_not_empty'',
     ''audit_events_reason_not_empty''}"

definition harmless :: "contest_error \<Rightarrow> bool" where
  "harmless e \<longleftrightarrow> e \<noteq> ContestConstraintsMalformed
     \<and> (\<forall>x. e = ContestDatabaseError x \<longrightarrow>
          (\<exists>pg. x = Constraint pg \<and> (\<forall>v. pg = CheckViolation v \<longrightarrow> v \<in> unchecked_texts)))"

lemma map_slug_harmless: "harmless e \<Longrightarrow> harmless (map_slug_conflict e)"
  by (cases e rule: map_slug_conflict.cases) (auto simp: harmless_def)

lemma database_harmless:
  assumes "cpg (checked x) = Inl e" and "\<And>v. x = Inl (CheckViolation v) \<Longrightarrow> v \<in> unchecked_texts"
  shows "harmless e"
  using assms by (cases x) (auto simp: harmless_def cpg_def checked_def)

lemma audit_harmless:
  assumes "cpg (audit (contest_audit env k actorId requestId i action reason changes) p) = Inl e"
    and "btrim action \<noteq> ''''"
  shows "harmless e"
proof -
  from assms(1) obtain pg where pg: "audit (contest_audit env k actorId requestId i action reason changes) p = Inl (Constraint pg)"
    and e: "e = ContestDatabaseError (Constraint pg)"
    by (auto simp: cpg_def audit_def checked_def ebind_Inl_iff map_error_Inl_iff)
  have "v \<in> unchecked_texts" if "pg = CheckViolation v" for v
    using contest_audit_check [OF pg [unfolded that] assms(2)] by (auto simp: unchecked_texts_def)
  then show ?thesis by (simp add: harmless_def e)
qed

lemma read_harmless: "contests_inv p \<Longrightarrow> readManaged env p i = Inl e \<Longrightarrow> harmless e"
  using contest_not_malformed [of p env i]
  by (auto simp: harmless_def readManaged_def contest_record_of_def ebind_Inl_iff registrationConstraints_def
      split: option.splits json.splits if_splits)

lemma createDraft_harmless:
  assumes inv: "contests_inv p" and checks: "list_all snd (tl (contest_checks (new_draft env command)))"
    and adm: "admissible_domains (cs_allowedEmailDomains command)"
    and e: "createDraft env command p = Inl e"
  shows "harmless e"
proof -
  have act: "btrim ''contest.created'' \<noteq> ''''" by (simp add: btrim_def)
  from e obtain e' where e': "e = map_slug_conflict e'"
    and steps: "cpg (checked (insert_contest (new_draft env command) p)) = Inl e'
      \<or> (\<exists>p1. insert_contest (new_draft env command) p = Inr p1 \<and>
         ((\<exists>changes. cpg (audit (contest_audit env 1 (cdc_actorId command) (cdc_requestId command) (env_uuid env 0)
            ''contest.created'' ''create draft'' changes) p1) = Inl e')
          \<or> (\<exists>a p2. audit a p1 = Inr p2 \<and> readManaged env p2 (env_uuid env 0) = Inl e')))"
    unfolding createDraft_def Let_def map_error_Inl_iff ebind_Inl_iff cpg_Inr checked_Inr sum.simps by blast
  have "harmless e'"
    using steps
  proof (elim disjE exE conjE)
    assume "cpg (checked (insert_contest (new_draft env command) p)) = Inl e'"
    then show ?thesis
      by (rule database_harmless) (auto simp: unchecked_texts_def dest: insert_contest_check [OF _ checks])
  next
    fix p1 changes
    assume "cpg (audit (contest_audit env 1 (cdc_actorId command) (cdc_requestId command) (env_uuid env 0)
            ''contest.created'' ''create draft'' changes) p1) = Inl e'"
    then show ?thesis using act by (rule audit_harmless)
  next
    fix p1 a p2
    assume p1: "insert_contest (new_draft env command) p = Inr p1" and p2: "audit a p1 = Inr p2"
      and r: "readManaged env p2 (env_uuid env 0) = Inl e'"
    have "rest_kept p p1" using insert_contest_Inr [OF p1] by simp
    then have "contest_inserted (new_draft env command) p p2"
      using p1 audit_Inr(1,2) [OF p2] rest_kept_trans unfolding contest_inserted_def by blast
    then have "contests_inv p2" using inv adm draft_constraints(1) by (blast intro: contests_inv_inserted)
    then show ?thesis using r by (rule read_harmless)
  qed
  then show ?thesis unfolding e' by (rule map_slug_harmless)
qed

lemma updateDraft_harmless:
  assumes inv: "contests_inv p"
    and checks: "\<And>r. find_contest p (udc_contestId command) = Some r \<Longrightarrow> co_publication_status r = Draft \<Longrightarrow>
      mc_version r = udc_expectedVersion command \<Longrightarrow> list_all snd (tl (contest_checks (updated_draft env command r)))"
    and adm: "admissible_domains (cs_allowedEmailDomains command)"
    and e: "updateDraft env command p = Inl e"
  shows "harmless e"
proof -
  let ?i = "udc_contestId command"
  have act: "btrim ''contest.configuration_updated'' \<noteq> ''''" by (simp add: btrim_def)
  have basic: "harmless ContestNotFound" "harmless ContestConfigurationLocked" "harmless ContestVersionConflict"
    by (simp_all add: harmless_def)
  from e obtain e' where e': "e = map_slug_conflict e'"
    and steps: "e' \<in> {ContestNotFound, ContestConfigurationLocked, ContestVersionConflict}
      \<or> (\<exists>r. find_contest p ?i = Some r \<and> co_publication_status r = Draft \<and> mc_version r = udc_expectedVersion command
          \<and> (cpg (checked (update_contest ?i (updated_draft env command) p)) = Inl e'
            \<or> (\<exists>p1. update_contest ?i (updated_draft env command) p = Inr p1 \<and>
               (cpg (audit (contest_audit env 0 (udc_actorId command) (udc_requestId command) ?i
                  ''contest.configuration_updated'' (udc_reason command) (update_changes command)) p1) = Inl e'
                \<or> (\<exists>a p2. audit a p1 = Inr p2 \<and> readManaged env p2 ?i = Inl e')))))"
    unfolding updateDraft_def map_error_Inl_iff
    by (auto simp: ebind_Inl_iff split: option.splits if_splits)
      (metis map_slug_conflict.simps)+
  have "harmless e'"
    using steps
  proof (elim disjE exE conjE)
    assume "e' \<in> {ContestNotFound, ContestConfigurationLocked, ContestVersionConflict}"
    then show ?thesis using basic by auto
  next
    fix r
    assume r: "find_contest p ?i = Some r" "co_publication_status r = Draft"
        "mc_version r = udc_expectedVersion command"
      and f: "cpg (checked (update_contest ?i (updated_draft env command) p)) = Inl e'"
    have "list_all snd (tl (contest_checks (updated_draft env command s)))"
      if "s \<in> set (pl_contests p)" "co_id s = ?i" for s
    proof -
      have "s = r" using inv that find_contest_id [OF r(1)] key_unique [of co_id "pl_contests p" s r]
        by (simp add: contests_inv_def)
      then show ?thesis using checks [OF r] by simp
    qed
    then have "v \<in> unchecked_texts"
      if "update_contest ?i (updated_draft env command) p = Inl (CheckViolation v)" for v
      using update_contest_check [OF that] by (simp add: unchecked_texts_def)
    with f show ?thesis by (rule database_harmless)
  next
    fix r p1
    assume "cpg (audit (contest_audit env 0 (udc_actorId command) (udc_requestId command) ?i
                  ''contest.configuration_updated'' (udc_reason command) (update_changes command)) p1) = Inl e'"
    then show ?thesis using act by (rule audit_harmless)
  next
    fix r p1 a p2
    assume p1: "update_contest ?i (updated_draft env command) p = Inr p1" and p2: "audit a p1 = Inr p2"
      and r: "readManaged env p2 ?i = Inl e'"
    have "contests_inv p2" using inv adm draft_constraints(2)
      by (intro contests_inv_rewritten [OF _ rewritten_audit [OF p1 p2]]) auto
    then show ?thesis using r by (rule read_harmless)
  qed
  then show ?thesis unfolding e' by (rule map_slug_harmless)
qed

lemma settings_tl_checks:
  assumes "validateConfiguration g code rep = Inr ()"
    and "co_publication_status r = Draft" "mc_published_at r = None" "mc_archived_at r = None"
    and "0 < mc_version r"
    and "cg_inviteRequired g \<Longrightarrow> co_invite_digest r \<noteq> None"
      "\<And>d. co_invite_digest r = Some d \<Longrightarrow> length d = 32"
  shows "list_all snd (tl (contest_checks (with_settings (settings_of c title slug description code' g) r)))"
proof -
  let ?w = "\<lambda>slug. with_settings (settings_of c title slug description code' g) r"
  have "list_all snd (contest_checks (?w ''''))"
    using settings_checks [OF assms, of c title "''''"] by (simp add: toLowerCase_def)
  moreover have "tl (contest_checks (?w slug)) = tl (contest_checks (?w ''''))"
    by (simp add: contest_checks_def with_settings_def settings_of_def
        cong del: contest_publication_status.case_cong_weak option.case_cong_weak)
  moreover have "list_all snd (tl xs)" if "list_all snd xs" for xs :: "(pg_error \<times> bool) list"
    using that by (cases xs) simp_all
  ultimately show ?thesis by metis
qed

lemma with_settings_extend [simp]:
  "with_settings (contest_settings.extend s x) r = with_settings s r"
  "cs_inviteDigest (contest_settings.extend s x) = cs_inviteDigest s"
  "cs_allowedEmailDomains (contest_settings.extend s x) = cs_allowedEmailDomains s"
  by (simp_all add: with_settings_def contest_settings.defs)

lemma settings_digest:
  assumes "digests_documented c" and "cs_inviteDigest (settings_of c title slug description code g) = Some d"
  shows "length d = 32"
  using assms by (auto simp: settings_of_def code_digest_def digests_documented_def split: if_splits)

lemma create_checks:
  assumes "digests_documented c"
    and "validateConfiguration (create_configuration input) (map_option js_trim (cci_inviteCode input)) True = Inr ()"
  shows "list_all snd (tl (contest_checks (new_draft env (create_command c actor input))))"
  unfolding new_draft_def create_command_def with_settings_extend
proof (rule settings_tl_checks [OF assms(2)], goal_cases)
  case 5
  have "cg_inviteConfigured (create_configuration input)"
    using assms(2) 5 by (auto simp: validate_Inr invite_issues_def split: if_splits)
  then show ?case by (simp add: settings_of_def create_configuration_def)
next
  case (6 d)
  then show ?case using settings_digest [OF assms(1)] by simp
qed simp_all

lemma update_command_keys:
  "udc_contestId (update_command c actor current input) = uci_contestId input"
  "udc_expectedVersion (update_command c actor current input) = uci_expectedVersion input"
  "udc_replaceInviteDigest (update_command c actor current input) \<longleftrightarrow> uci_inviteCode input \<noteq> None"
  by (simp_all add: update_command_def contest_settings.defs update_draft_command.defs)

lemma checks_unfold:
  assumes "list_all snd (contest_checks r)"
  shows "co_publication_status r = Draft \<Longrightarrow> mc_published_at r = None \<and> mc_archived_at r = None"
    and "0 < mc_version r" and "co_invite_digest r = Some d \<Longrightarrow> length d = 32"
  using assms by (simp_all add: contest_checks_def)

lemma update_checks:
  assumes doc: "digests_documented c" and r: "list_all snd (contest_checks r)" "co_publication_status r = Draft"
    and rec: "contest_record_of read_env r = Inr current"
    and v: "validateConfiguration (update_configuration current input) (update_code input)
      (uci_inviteCode input \<noteq> None) = Inr ()"
  shows "list_all snd (tl (contest_checks (updated_draft env (update_command c actor current input) r)))"
proof -
  let ?g = "update_configuration current input" and ?s = "update_command c actor current input"
  let ?digest = "if uci_inviteCode input \<noteq> None then cs_inviteDigest ?s else co_invite_digest r"
  let ?r = "r\<lparr>co_invite_digest := ?digest, mc_version := mc_version r + 1, mc_updated_at := env_now env\<rparr>"
  have row: "updated_draft env ?s r = with_settings ?s ?r"
    by (simp add: updated_draft_def with_settings_def update_command_keys)
  have code: "cs_inviteDigest ?s = (if present (update_code input) then Some (code_digest c (the (update_code input))) else None)"
    by (simp add: update_command_def settings_of_def)
  have len: "length d = 32" if "?digest = Some d" for d
    using that checks_unfold(3) [OF r(1)] doc
    by (auto simp: code code_digest_def digests_documented_def split: if_splits)
  have need: "?digest \<noteq> None" if "cg_inviteRequired ?g"
  proof -
    have "cg_inviteConfigured ?g" using v that by (auto simp: validate_Inr invite_issues_def split: if_splits)
    then show ?thesis using rec
      by (auto simp: update_configuration_def code update_code_def present_def contest_record_of_def ebind_Inr_iff
          split: option.splits)
  qed
  have settings: "with_settings ?s x = with_settings (settings_of c
      (or_default (map_option js_trim (uci_title input)) (cn_title current))
      (or_default (uci_slug input) (cn_slug current))
      (or_default (uci_description input) (cn_description current)) (update_code input) ?g) x" for x
    by (simp add: update_command_def)
  show ?thesis unfolding row settings
  proof (rule settings_tl_checks [OF v], goal_cases)
    case 5
    show ?case using need [OF 5] by simp
  next
    case (6 d)
    show ?case by (rule len) (use 6 in simp)
  qed (use r checks_unfold(1,2) [OF r(1)] in simp_all)
qed

text \<open>What a service request may be refused with once its configuration has been validated.\<close>

definition text_failure :: "contest_failure \<Rightarrow> bool" where
  "text_failure f \<longleftrightarrow> (\<forall>e. f = ContestRequestFailed e \<longrightarrow>
     (\<exists>pg. e = Some (Constraint pg) \<and> (\<forall>v. pg = CheckViolation v \<longrightarrow> v \<in> unchecked_texts)))"

lemma harmless_failure: "harmless f \<Longrightarrow> text_failure (map_contest_error f)"
  by (cases f) (auto simp: harmless_def text_failure_def)

lemma validation_failure: "validateConfiguration g code b = Inl f \<Longrightarrow> text_failure f"
  by (auto simp: validateConfiguration_def text_failure_def Let_def split: if_splits)

lemma manager_failure: "require_manager actor = Inl f \<Longrightarrow> text_failure f"
  by (auto simp: require_manager_def text_failure_def map_error_Inl_iff)

lemma create_failure:
  assumes "contests_inv p" and "digests_documented c" and "contest_createDraft c env actor input p = Inl f"
  shows "text_failure f"
proof -
  from assms(3) consider "text_failure f"
    | f' where "validateConfiguration (create_configuration input) (map_option js_trim (cci_inviteCode input)) True = Inr ()"
      "createDraft env (create_command c actor input) p = Inl f'" "f = map_contest_error f'"
    by (auto simp: contest_createDraft_def ebind_Inl_iff map_error_Inl_iff dest: manager_failure validation_failure)
  then show ?thesis
  proof cases
    case (2 f')
    show ?thesis unfolding 2(3)
      by (rule harmless_failure)
        (rule createDraft_harmless [OF assms(1) create_checks [OF assms(2) 2(1)] create_command_domains [OF 2(1)] 2(2)])
  qed
qed

lemma prepare_failure:
  assumes "contests_inv p" and "prepare_update c read_env actor input p = Inl f"
  shows "text_failure f"
proof -
  from assms(2) consider "text_failure f"
    | f' where "readManaged read_env p (uci_contestId input) = Inl f'" "f = map_contest_error f'"
    by (auto simp: prepare_update_def ebind_Inl_iff map_error_Inl_iff text_failure_def [of ContestResourceVersionConflict]
        dest: manager_failure validation_failure split: if_splits)
  then show ?thesis using read_harmless [OF assms(1)] harmless_failure by cases blast+
qed

text \<open>An update whose draft is read in the state \<open>seen\<close>; the contest may have moved on since.\<close>

lemma update_failure:
  assumes inv: "contests_inv p" "contests_inv seen" and later: "contests_later seen p"
    and doc: "digests_documented c" and f: "contest_updateDraft c read_env env actor input seen p = Inl f"
  shows "text_failure f"
proof -
  from f consider (prepare) "prepare_update c read_env actor input seen = Inl f"
    | (update) command f' where "prepare_update c read_env actor input seen = Inr command"
      "updateDraft env command p = Inl f'" "f = map_contest_error f'"
    by (auto simp: contest_updateDraft_def ebind_Inl_iff map_error_Inl_iff)
  then show ?thesis
  proof cases
    case prepare
    then show ?thesis by (rule prepare_failure [OF inv(2)])
  next
    case update
    from update(1) obtain current where cur: "readManaged read_env seen (uci_contestId input) = Inr current"
      and version: "cn_version current = uci_expectedVersion input"
      and v: "validateConfiguration (update_configuration current input) (update_code input)
        (uci_inviteCode input \<noteq> None) = Inr ()"
      and command: "command = update_command c actor current input"
      by (auto simp: prepare_update_def ebind_Inr_iff split: if_splits)
    from cur obtain s where s: "find_contest seen (uci_contestId input) = Some s"
      and rec: "contest_record_of read_env s = Inr current"
      by (auto simp: readManaged_def split: option.splits)
    have "list_all snd (tl (contest_checks (updated_draft env command r)))"
      if r: "find_contest p (udc_contestId command) = Some r" "co_publication_status r = Draft"
        "mc_version r = udc_expectedVersion command" for r
    proof -
      have "contest_later (Some s) (Some r)"
        using later s r(1) by (metis contests_later_def command update_command_keys(1))
      moreover have "mc_version r = mc_version s"
        using r(3) rec version by (auto simp: command update_command_keys contest_record_of_def ebind_Inr_iff)
      ultimately have "r = s" by (auto simp: contest_later_def)
      then show ?thesis using update_checks [OF doc _ _ rec v] r(2) inv(2) find_contest_id [OF s]
        by (simp add: command contests_inv_def)
    qed
    then have "harmless f'"
      by (rule updateDraft_harmless [OF inv(1) _ prepared_domains [OF update(1) inv(2)] update(2)])
    then show ?thesis unfolding update(3) by (rule harmless_failure)
  qed
qed

text \<open>
  C17: A create or update request whose configuration passes the service's validation meets no check
  of the contests table: an update may be merged with a draft read earlier, and still the only
  database checks that can fail concern texts - the slug, the request id and the reason - which the
  request schema bounds. No stored constraints make a read fail.
\<close>

theorem validated_requests_pass_checks:
  assumes "empty_platform p0" and "hs = run_platform m c xs [p0]" and "i \<le> j" and "j < length hs"
    and "digests_documented c"
    and "contest_createDraft c env actor cinput (hs ! i) = Inl (ContestRequestFailed e)
      \<or> contest_updateDraft c read_env env actor uinput (hs ! j) (hs ! i) = Inl (ContestRequestFailed e)"
  shows "\<exists>pg. e = Some (Constraint pg) \<and> (\<forall>v. pg = CheckViolation v \<longrightarrow> v \<in> unchecked_texts)"
proof -
  have inv: "contests_inv (hs ! i)" "contests_inv (hs ! j)"
    using history_member [OF _ assms(1,2)] assms(3,4) by (simp_all add: platform_inv_def)
  have "text_failure (ContestRequestFailed e)"
    using assms(6) create_failure [OF inv(1) assms(5)]
      update_failure [OF inv history_ordered(1) [OF assms(1-4)] assms(5)] by blast
  then show ?thesis by (simp add: text_failure_def)
qed

section \<open>Registration\<close>

lemma locked_configured:
  assumes "contests_inv p" and "lockContest env (db_of p) i = Inr contest"
  shows "lc_inviteRequired contest \<Longrightarrow> lc_inviteDigest contest \<noteq> None"
    and "\<exists>ds. allowedEmailDomains (lc_registrationConstraints contest) = Inr ds"
proof -
  obtain r where r: "r \<in> set (pl_contests p)" and contest: "lc_inviteRequired contest = co_invite_required r"
      "lc_inviteDigest contest = co_invite_digest r"
      "lc_registrationConstraints contest = co_registration_constraints r"
    using assms(2) by (force simp: lockContest_def find_Some_iff contest_row.defs split: option.splits)
  have "list_all snd (contest_checks r)"
    "\<exists>ds. co_registration_constraints r = constraints_json ds \<and> admissible_domains ds"
    using assms(1) r by (auto simp: contests_inv_def)
  then show "lc_inviteRequired contest \<Longrightarrow> lc_inviteDigest contest \<noteq> None"
    and "\<exists>ds. allowedEmailDomains (lc_registrationConstraints contest) = Inr ds"
    using constraints_accepted by (auto simp: contest contest_checks_def)
qed

lemma eligibility_configured:
  assumes "\<exists>ds. allowedEmailDomains (lc_registrationConstraints contest) = Inr ds"
  shows "validateTeamEligibility db team contest \<noteq> Inl ParticipationConfigurationInvalid"
  using assms by (auto simp: validateTeamEligibility_def Let_def split: if_splits)

lemma read_not_misconfigured [simp]:
  "readById db i j \<noteq> Inl ParticipationConfigurationInvalid"
  "ppg x \<noteq> Inl ParticipationConfigurationInvalid"
  "lock_team db t \<noteq> Inl ParticipationConfigurationInvalid"
  "lockContest env db i \<noteq> Inl ParticipationConfigurationInvalid"
  "locateParticipationTeam db i j \<noteq> Inl ParticipationConfigurationInvalid"
  "lockActorTeam db u \<noteq> Inl ParticipationConfigurationInvalid"
  by (auto simp: readById_def ppg_def map_error_Inl_iff lock_team_def lockContest_def locateParticipationTeam_def
      lockActorTeam_def ebind_Inl_iff split: option.splits)

lemma invite_not_misconfigured:
  assumes "lc_inviteRequired contest \<Longrightarrow> lc_inviteDigest contest \<noteq> None"
  shows "requireRegistrationOpen contest \<noteq> Inl ParticipationConfigurationInvalid"
    and "verifySubmittedInvite contest d \<noteq> Inl ParticipationConfigurationInvalid"
    and "verifyInviteEvidence contest d \<noteq> Inl ParticipationConfigurationInvalid"
  using assms by (auto simp: requireRegistrationOpen_def verifySubmittedInvite_def verifyInviteEvidence_def
      split: option.splits)


end
