(* ===== verification/Challenge_Properties.thy ===== *)
theory Challenge_Properties
  imports Administration_Properties
begin

text \<open>
  What mounting a template version copies, what revising a snapshot changes and leaves alone, and
  what of a challenge a player is shown.
\<close>

section \<open>Mounting\<close>

definition asset_content :: "asset_row \<Rightarrow> uuid \<times> string \<times> int" where
  "asset_content a = (as_content_object_id a, as_display_name a, as_sort_order a)"

definition hint_content :: "'release hint_row \<Rightarrow> string \<times> string \<times> 'release option \<times> int" where
  "hint_content h = (hi_title h, hi_content h, hi_release h, hi_sort_order h)"

lemma map_enumerate: "map (\<lambda>y. f (snd y)) (enumerate k xs) = map f xs"
  by (induction xs arbitrary: k) simp_all

lemma asset_rows_content:
  "map asset_content (asset_rows env k i xs) = map (\<lambda>x. (am_contentObjectId x, am_displayName x, am_sortOrder x)) xs"
  by (simp add: asset_rows_def asset_content_def comp_def case_prod_unfold 
      map_enumerate [where f = "\<lambda>x. (am_contentObjectId x, am_displayName x, am_sortOrder x)"])

lemma hint_rows_content:
  "map hint_content (hint_rows env k i xs)
     = map (\<lambda>x. (hm_title x, hm_content x, hm_release x, hm_sortOrder x)) xs"
  by (simp add: hint_rows_def hint_content_def comp_def case_prod_unfold 
      map_enumerate [where f = "\<lambda>x. (hm_title x, hm_content x, hm_release x, hm_sortOrder x)"])

text \<open>What a challenge shows of itself, and a version likewise.\<close>

definition row_content :: "managed_challenge \<Rightarrow> string \<times> challenge_category \<times> string \<times> string option
    \<times> flag_policy \<times> scoring_policy \<times> instance_policy" where
  "row_content c = (mh_title c, mh_category c, mh_description c, ch_flag_format c, ch_flag_policy c,
     ch_scoring_policy c, mh_instance_policy c)"

definition version_content :: "template_version_row \<Rightarrow> string \<times> challenge_category \<times> string
    \<times> string option \<times> flag_policy \<times> scoring_policy \<times> instance_policy" where
  "version_content v = (tv_title v, tv_category v, tv_description v, tv_flag_format v, tv_flag_policy v,
     tv_scoring_policy v, tv_instance_policy v)"

text \<open>
  C14: Mounting adds exactly one challenge, to a draft contest: its content, policies and attachments
  are those of the template version named, it remembers that version, it starts at version and
  revision 1, and a hint released some seconds after publication is released so many seconds after
  the challenge's publication time or, without one, after the start of the contest.
\<close>

theorem mounted_snapshot:
  assumes "challenge_mount env challengeId actor input p = Inr (r, q)"
  shows "\<exists>contest v assets hints. find_contest p (moi_contestId input) = Some contest
    \<and> co_publication_status contest = Draft
    \<and> v \<in> set (pl_template_versions p) \<and> tv_id v = moi_templateVersionId input
    \<and> row_content (cl_row r) = version_content v \<and> mh_source_version_id (cl_row r) = tv_id v
    \<and> mh_version (cl_row r) = 1 \<and> mh_snapshot_revision (cl_row r) = 1
    \<and> pl_challenges q = pl_challenges p @ [cl_row r]
    \<and> pl_assets q = pl_assets p @ assets
    \<and> map asset_content assets = map asset_content (owned_assets (pl_template_assets p) (tv_id v))
    \<and> pl_hints q = pl_hints p @ hints
    \<and> map hint_content hints = map (\<lambda>h. (hi_title h, hi_content h,
         map_option (\<lambda>s. or_default (moi_publishAt input) (co_start_at contest) + s * 1000) (hi_release h),
         hi_sort_order h)) (owned_hints (pl_template_hints p) (tv_id v))
    \<and> as_owner ` set assets \<subseteq> {challengeId} \<and> hi_owner ` set hints \<subseteq> {challengeId}
    \<and> pl_contests q = pl_contests p"
proof -
  let ?command = "mount_command_of challengeId actor input"
  have keys: "mo_contestId ?command = moi_contestId input" "mo_challengeId ?command = challengeId"
    "mo_templateVersionId ?command = moi_templateVersionId input" "mo_publishAt ?command = moi_publishAt input"
    by (simp_all add: mount_command_of_def)
  have "mount_challenge env ?command p = Inr (r, q)"
    using assms by (simp add: challenge_mount_def guarded_Inr)
  then show ?thesis
  proof (rule mount_challenge_Inr, unfold keys)
    fix contest :: managed_contest and v
    let ?c = "mounted_row env ?command v" and ?as = "readTemplateAssets p (tv_id v)"
    let ?hs = "map (scheduled_hint (or_default (moi_publishAt input) (co_start_at contest))) (readTemplateHints p (tv_id v))"
    assume contest: "find_contest p (moi_contestId input) = Some contest" "co_publication_status contest = Draft"
      and v: "find (\<lambda>v. tv_id v = moi_templateVersionId input) (pl_template_versions p) = Some v"
      and ins: "insert_challenge ?c p = Inr (p\<lparr>pl_challenges := pl_challenges p @ [?c]\<rparr>)"
      and q: "pl_challenges q = pl_challenges p @ [?c]"
        "pl_assets q = pl_assets p @ asset_rows env 0 challengeId ?as"
        "pl_hints q = pl_hints p @ hint_rows env (length ?as) challengeId ?hs"
        "challenge_tables_only p q"
      and r: "readWith q (moi_contestId input) challengeId = Inr r"
    have c: "ch_id ?c = challengeId" "ch_contest_id ?c = moi_contestId input"
      by (simp_all add: mounted_row_def keys)
    have fresh: "challengeId \<notin> ch_id ` set (pl_challenges p)" using insert_challenge_Inr [OF ins] c by simp
    note row = find_challenge_Some [OF readWith_row [OF r]]
    then have "cl_row r = ?c" using fresh q(1) by auto
    moreover have "v \<in> set (pl_template_versions p)" "tv_id v = moi_templateVersionId input"
      using v by (auto simp: find_Some_iff)
    moreover have "map asset_content (asset_rows env 0 challengeId ?as)
        = map asset_content (owned_assets (pl_template_assets p) (tv_id v))"
      by (simp add: asset_rows_content readTemplateAssets_def asset_command_of_def asset_record_of_def
          asset_content_def comp_def)
    moreover have "map hint_content (hint_rows env (length ?as) challengeId ?hs)
        = map (\<lambda>h. (hi_title h, hi_content h,
            map_option (\<lambda>s. or_default (moi_publishAt input) (co_start_at contest) + s * 1000) (hi_release h),
            hi_sort_order h)) (owned_hints (pl_template_hints p) (tv_id v))"
      by (simp add: hint_rows_content readTemplateHints_def scheduled_hint_def hint_command_of_def
          hint_record_of_def comp_def)
    moreover have "pl_contests q = pl_contests p" using q(4) by (simp add: challenge_tables_only_def)
    ultimately show ?thesis using contest q
      by (intro exI [of _ contest] exI [of _ v] exI [of _ "asset_rows env 0 challengeId ?as"]
          exI [of _ "hint_rows env (length ?as) challengeId ?hs"])
        (auto simp: mounted_row_def row_content_def version_content_def dest: rows_owner)
  qed
qed

section \<open>Revising\<close>


section \<open>What players see\<close>

lemma map_sum_Inr: "map_sum id f x = Inr y \<longleftrightarrow> (\<exists>a. x = Inr a \<and> y = f a)"
  by (cases x) auto

lemma filter_key_single:
  assumes "distinct (map f xs)"
  shows "filter (\<lambda>x. f x = a) xs = [] \<or> (\<exists>x\<in>set xs. f x = a \<and> filter (\<lambda>x. f x = a) xs = [x])"
  using assms by (induction xs) (auto simp: filter_empty_conv image_iff)

definition accepted_player :: "database \<Rightarrow> uuid \<Rightarrow> uuid \<Rightarrow> bool" where
  "accepted_player db userId contestId \<longleftrightarrow>
     (\<exists>m\<in>set (db_team_members db). \<exists>a\<in>set (db_participations db). tm_user_id m = userId
        \<and> pa_team_id a = tm_team_id m \<and> pa_contest_id a = contestId \<and> pa_status a = Accepted)"

text \<open>A player is in one team at most, and a team registered once at most: the join has one row.\<close>

lemma player_statuses_single:
  assumes "platform_inv p"
  shows "\<exists>s. player_statuses p userId contestId = [s]
    \<and> (s = Some Accepted \<longleftrightarrow> accepted_player (pl_rest p) userId contestId)"
proof -
  let ?ms = "db_team_members (pl_rest p)" and ?ps = "db_participations (pl_rest p)"
  have d: "distinct (map tm_user_id ?ms)" "distinct (map participation_key ?ps)"
    using assms
    by (simp_all add: platform_inv_def system_inv_def team_inv_def members_inv_def participation_inv_def db_of_def)
  have key: "filter (\<lambda>r. pa_contest_id r = contestId \<and> pa_team_id r = t) ?ps
      = filter (\<lambda>r. participation_key r = (contestId, t)) ?ps" for t
    by (simp add: participation_key_def)
  show ?thesis
  proof (cases "filter (\<lambda>m. tm_user_id m = userId) ?ms = []")
    case True
    then have "player_statuses p userId contestId = [None]" by (simp add: player_statuses_def Let_def)
    moreover have "\<not> accepted_player (pl_rest p) userId contestId"
      using True by (auto simp: accepted_player_def filter_empty_conv)
    ultimately show ?thesis by simp
  next
    case False
    then obtain x where x: "x \<in> set ?ms" "tm_user_id x = userId" "filter (\<lambda>m. tm_user_id m = userId) ?ms = [x]"
      using filter_key_single [OF d(1), of userId] by blast
    have same: "m = x" if "m \<in> set ?ms" "tm_user_id m = userId" for m
      using key_unique [OF d(1) that(1) x(1)] that x(2) by simp
    have acc: "accepted_player (pl_rest p) userId contestId
        \<longleftrightarrow> (\<exists>a\<in>set ?ps. participation_key a = (contestId, tm_team_id x) \<and> pa_status a = Accepted)"
      unfolding accepted_player_def participation_key_def prod.inject using x(1,2) same by metis
    show ?thesis
    proof (cases "filter (\<lambda>r. participation_key r = (contestId, tm_team_id x)) ?ps = []")
      case True
      then have "player_statuses p userId contestId = [None]" using x(3) by (simp add: player_statuses_def Let_def key)
      moreover have "\<not> accepted_player (pl_rest p) userId contestId"
        unfolding acc using True by (auto simp: filter_empty_conv)
      ultimately show ?thesis by simp
    next
      case False
      then obtain a where a: "a \<in> set ?ps" "participation_key a = (contestId, tm_team_id x)"
          "filter (\<lambda>r. participation_key r = (contestId, tm_team_id x)) ?ps = [a]"
        using filter_key_single [OF d(2), of "(contestId, tm_team_id x)"] by blast
      have only: "b = a" if "b \<in> set ?ps" "participation_key b = (contestId, tm_team_id x)" for b
        using key_unique [OF d(2) that(1) a(1)] that a(2) by simp
      have "player_statuses p userId contestId = [Some (pa_status a)]"
        using x(3) a(3) by (simp add: player_statuses_def Let_def key)
      moreover have "accepted_player (pl_rest p) userId contestId \<longleftrightarrow> pa_status a = Accepted"
        unfolding acc using a(1,2) only by blast
      ultimately show ?thesis by simp
    qed
  qed
qed

lemma readPlayerContext_Inr:
  assumes "platform_inv p" and "readPlayerContext p userId contestId time = Inr x"
  obtains contest where "contest \<in> set (pl_contests p)" "co_id contest = contestId"
    and "co_publication_status contest \<in> {Published, Archived}"
    and "px_contestPhase x \<noteq> Upcoming \<longleftrightarrow> co_publication_status contest = Archived \<or> co_start_at contest \<le> time"
    and "px_participationStatus x = Some Accepted \<longleftrightarrow> accepted_player (pl_rest p) userId contestId"
    and "co_visibility contest = PublicContest \<or> accepted_player (pl_rest p) userId contestId"
proof -
  obtain s where s: "player_statuses p userId contestId = [s]"
    and acc: "s = Some Accepted \<longleftrightarrow> accepted_player (pl_rest p) userId contestId"
    using player_statuses_single [OF assms(1)] by blast
  from assms(2) obtain contest where c: "find (\<lambda>r. co_id r = contestId) (pl_contests p) = Some contest"
    and st: "co_publication_status contest \<in> {Published, Archived}"
    and vis: "co_visibility contest = PublicContest \<or> s = Some Accepted"
    and x: "x = \<lparr>px_contestPhase = (if co_publication_status contest = Archived then Ended
        else derive_contest_time_phase (co_start_at contest) (co_end_at contest) time), px_participationStatus = s\<rparr>"
    by (auto simp: readPlayerContext_def s split: option.splits if_splits)
  have "contest \<in> set (pl_contests p)" "co_id contest = contestId" using c by (auto simp: find_Some_iff)
  then show thesis using that st acc vis x by (auto simp: derive_contest_time_phase_def)
qed

text \<open>
  C16: What a player is shown of a challenge: it belongs to a published or archived contest, is
  enabled there and, unless the contest is public, the player's team is accepted. Description,
  attachments and hints are shown exactly if the player's team is accepted, the contest has started
  or is archived, and the challenge is published; and never a hint before its release.
\<close>

theorem player_content_visible:
  assumes "empty_platform p0" and "p \<in> set (run_platform m c xs [p0])"
    and "challenge_readForPlayer now actor contestId challengeId p = Inr y"
  shows "\<exists>contest\<in>set (pl_contests p). \<exists>ch\<in>set (pl_challenges p).
    co_id contest = contestId \<and> co_publication_status contest \<in> {Published, Archived}
    \<and> (co_visibility contest = PublicContest \<or> accepted_player (db_of p) (sj_userId actor) contestId)
    \<and> ch_id ch = challengeId \<and> ch_contest_id ch = contestId \<and> ch_enabled ch
    \<and> yp_content y =
        (if accepted_player (db_of p) (sj_userId actor) contestId
           \<and> (co_publication_status contest = Archived \<or> co_start_at contest \<le> now)
           \<and> reached (ch_publish_at ch) now
         then Some (player_content (playerRecord p ch) now) else None)
    \<and> (\<forall>content. yp_content y = Some content \<longrightarrow> (\<forall>h\<in>set (yc_hints content). reached (yh_releasedAt h) now))"
proof -
  have inv: "platform_inv p" by (rule history_inv [OF assms(1) refl assms(2)])
  have db: "accepted_player (db_of p) = accepted_player (pl_rest p)"
    by (simp add: accepted_player_def fun_eq_iff db_of_def)
  from assms(3) obtain x shown where
      tx: "readForPlayer p (sj_userId actor) contestId challengeId now = Inr (x, shown)"
    and y: "y = playerProjection x shown now"
    by (auto simp: challenge_readForPlayer_def map_sum_Inr guarded_Inr)
  then obtain ch where x: "readPlayerContext p (sj_userId actor) contestId now = Inr x"
    and ch: "find (\<lambda>c. ch_contest_id c = contestId \<and> ch_id c = challengeId \<and> ch_enabled c) (pl_challenges p) = Some ch"
    and rec: "shown = playerRecord p ch"
    by (auto simp: readForPlayer_def ebind_Inr_iff split: option.splits)
  have c: "ch \<in> set (pl_challenges p)" "ch_contest_id ch = contestId" "ch_id ch = challengeId" "ch_enabled ch"
    using ch by (auto simp: find_Some_iff)
  have publish: "pc_publishAt shown = ch_publish_at ch" by (simp add: rec playerRecord_def)
  have hints: "\<forall>h\<in>set (yc_hints (player_content shown now)). reached (yh_releasedAt h) now"
    by (auto simp: player_content_def)
  from inv x show ?thesis
  proof (rule readPlayerContext_Inr)
    fix contest :: managed_contest
    assume contest: "contest \<in> set (pl_contests p)" "co_id contest = contestId"
        "co_publication_status contest \<in> {Published, Archived}"
        "co_visibility contest = PublicContest \<or> accepted_player (pl_rest p) (sj_userId actor) contestId"
      and started: "px_contestPhase x \<noteq> Upcoming
        \<longleftrightarrow> co_publication_status contest = Archived \<or> co_start_at contest \<le> now"
      and acc: "px_participationStatus x = Some Accepted \<longleftrightarrow> accepted_player (pl_rest p) (sj_userId actor) contestId"
    have "yp_content y = (if accepted_player (pl_rest p) (sj_userId actor) contestId
           \<and> (co_publication_status contest = Archived \<or> co_start_at contest \<le> now)
           \<and> reached (ch_publish_at ch) now
         then Some (player_content shown now) else None)"
      by (simp add: y playerProjection_def content_visible_def Let_def acc started publish)
    then show ?thesis using contest c hints unfolding db rec
      by (intro bexI [of _ contest] bexI [of _ ch]) (auto split: if_splits)
  qed
qed

end
