(* ===== verification/Platform_Scenario.thy ===== *)
theory Platform_Scenario
  imports Challenge_Properties Scenario
begin

text \<open>
  The properties of the platform applied on a short history: a manager writes a template, drafts a
  contest, mounts and publishes, a team registers and plays, a challenge is revised, and the contest
  is archived.
\<close>

section \<open>A short history\<close>

definition staff :: session_subject where
  "staff = \<lparr>sj_userId = ''o'', sj_role = OrganizerRole, sj_emailVerified = True, sj_mustChangePassword = False\<rparr>"

definition gamer :: session_subject where
  "gamer = \<lparr>sj_userId = ''a'', sj_role = UserRole, sj_emailVerified = True, sj_mustChangePassword = False\<rparr>"

definition seed :: platform where
  "seed = \<lparr>pl_rest = \<lparr>db_users = map account [''o'', ''a''], db_teams = [], db_team_members = [],
       db_team_invites = [], db_contests = [], db_divisions = [], db_participations = [],
       db_contest_challenges = [], db_submissions = [], db_solves = [], db_score_adjustments = [],
       db_cheat_clues = [], db_scoreboard_versions = [], db_contest_events = [], db_audit_events = []\<rparr>,
     pl_contests = [], pl_challenges = [], pl_assets = [], pl_hints = [], pl_templates = [],
     pl_template_versions = [], pl_template_assets = [], pl_template_hints = [],
     pl_objects = [\<lparr>ob_id = ''b'', ob_status = Committed, ob_committed_at = Some 1\<rparr>]\<rparr>"

lemma seed_empty: "empty_platform seed"
  by (simp add: seed_def empty_platform_def fresh_platform_def db_of_def)

definition first_version :: version_snapshot where
  "first_version = \<lparr>vs_title = ''W'', vs_category = Misc, vs_description = ''d'', vs_flagFormat = None,
     vs_flagPolicy = TeamDerivedFlag 1, vs_scoringPolicy = FixedV1 100, vs_instancePolicy = NoInstance,
     vs_assets = [\<lparr>am_contentObjectId = ''b'', am_displayName = ''f'', am_sortOrder = 0\<rparr>],
     vs_hints = [\<lparr>hm_title = ''h'', hm_content = ''x'', hm_release = Some 2, hm_sortOrder = 0\<rparr>]\<rparr>"

definition draft_input :: create_contest_input where
  "draft_input = \<lparr>ci_requestId = ''q'', ci_visibility = None, ci_inviteRequired = None,
     ci_registrationStrategy = Some AutoAccept, ci_scoreboardFreezeAt = None, ci_practiceEnabled = None,
     ci_writeupRequired = None, ci_writeupDeadlineAt = None, ci_minTeamSize = None,
     ci_maxTeamSize = None, ci_allowedEmailDomains = None, cci_title = ''C'', cci_slug = ''c'',
     cci_description = '''', cci_inviteCode = None, cci_startAt = Date 1000, cci_endAt = Date 9000\<rparr>"

definition edit_input :: update_contest_input where
  "edit_input = \<lparr>ci_requestId = ''q'', ci_visibility = None, ci_inviteRequired = None,
     ci_registrationStrategy = None, ci_scoreboardFreezeAt = Some (Some (Date 8000)),
     ci_practiceEnabled = None, ci_writeupRequired = None, ci_writeupDeadlineAt = None,
     ci_minTeamSize = None, ci_maxTeamSize = Some 2, ci_allowedEmailDomains = None,
     uci_contestId = ''c'', uci_expectedVersion = 1, uci_reason = ''r'', uci_title = Some ''Cup'',
     uci_slug = None, uci_description = None, uci_inviteCode = None, uci_startAt = None,
     uci_endAt = None\<rparr>"

definition version_input :: create_version_input where
  "version_input = \<lparr>cvi_requestId = ''q'', cvi_templateId = ''t'', cvi_expectedVersion = 1,
     cvi_reason = ''r'', cvi_title = Some ''V'', cvi_category = None, cvi_description = None,
     cvi_flagFormat = None, cvi_flagPolicy = None, cvi_scoringPolicy = None, cvi_instancePolicy = None,
     cvi_assets = None, cvi_hints = None\<rparr>"

definition mounting :: mount_input where
  "mounting = \<lparr>moi_requestId = ''q'', moi_contestId = ''c'', moi_templateVersionId = ''v'',
     moi_enabled = True, moi_publishAt = None, moi_closeAt = None, moi_submissionLimit = None,
     moi_sortOrder = 0\<rparr>"

definition moving :: contest_lifecycle_input where
  "moving = \<lparr>cli_requestId = ''q'', cli_contestId = ''c'', cli_reason = ''r''\<rparr>"

definition revision :: revise_command where
  "revision = \<lparr>re_actorId = '''', re_requestId = ''q'', re_contestId = ''c'', re_challengeId = ''k'',
     re_expectedVersion = 1, re_reason = ''r'', re_title = None, re_category = None,
     re_description = None, re_flagFormat = None, re_flagPolicy = None,
     re_scoringPolicy = Some (FixedV1 200), re_instancePolicy = None, re_assets = None,
     re_hints = None, re_enabled = None, re_publishAt = None, re_closeAt = None,
     re_submissionLimit = None, re_sortOrder = None\<rparr>"

definition story :: "(tx_env \<times> request) list" where
  "story = [
     (draw ''1'' 10, CreateTemplate ''t'' ''v'' staff \<lparr>cti_requestId = ''q'', cti_name = ''T'',
        cti_slug = ''t'', cti_version = first_version\<rparr>),
     (draw ''c'' 20, CreateContest staff draft_input),
     (draw ''4'' 30, CreateTemplateVersion ''w'' staff version_input 0),
     (draw ''2'' 40, UpdateContest (draw ''3'' 30) staff edit_input 1),
     (draw ''5'' 50, MountChallenge ''k'' staff mounting),
     (draw ''6'' 60, PublishContest staff moving),
     (draw ''r'' 70, Transact (CreateTeam ''R'' ''r'' ''a'' (replicate 32 1) ''x'')),
     (draw ''p'' 80, Transact (RegisterTeam ''a'' ''c'' None)),
     (draw ''7'' 90, ReviseChallenge staff revision),
     (draw ''8'' 9000, ArchiveContest staff moving)]"

text \<open>The first requests, their states, and the state after so many requests.\<close>

definition states :: "js_math \<Rightarrow> nat \<Rightarrow> platform list" where
  "states m n = run_platform m plain_crypto (take n story) [seed]"

definition state_after :: "js_math \<Rightarrow> nat \<Rightarrow> platform" where
  "state_after m n = hd (states m n)"

lemma run_platform_app: "run_platform m c (xs @ ys) hs = run_platform m c ys (run_platform m c xs hs)"
  by (induction xs arbitrary: hs) auto

lemma run_platform_length: "length (run_platform m c xs hs) = length xs + length hs"
  by (induction xs arbitrary: hs) auto

lemma run_platform_nth: "length xs \<le> k \<Longrightarrow> run_platform m c xs hs ! k = hs ! (k - length xs)"
proof (induction xs arbitrary: hs)
  case (Cons x xs)
  then show ?case by (cases x) (simp add: nth_Cons' Suc_le_eq)
qed simp

lemma story_length: "length story = 10"
  by (simp add: story_def)

lemma states_length: "n \<le> 10 \<Longrightarrow> length (states m n) = Suc n"
  by (simp add: states_def run_platform_length story_length)

text \<open>The state after \<open>k\<close> requests is found \<open>n - k\<close> states back.\<close>

lemma states_nth:
  assumes "k \<le> n" and "n \<le> 10"
  shows "states m n ! (n - k) = state_after m k"
proof -
  have split: "take n story = take k story @ drop k (take n story)"
    using assms(1) append_take_drop_id [of k "take n story"] by (simp add: min_def)
  have "length (drop k (take n story)) = n - k" using assms by (simp add: story_length)
  then have "states m n ! (n - k) = states m k ! 0"
    unfolding states_def by (subst split) (simp add: run_platform_app run_platform_nth)
  then show ?thesis
    by (cases "states m k") (simp_all add: state_after_def flip: length_0_conv add: states_length [OF order_trans [OF assms]])
qed

lemma states_pair:
  assumes "k \<le> l" and "l \<le> 10"
  shows "states m l ! 0 = state_after m l" "states m l ! (l - k) = state_after m k" "l - k < length (states m l)"
    "states m l = run_platform m plain_crypto (take l story) [seed]"
  using states_nth [of l l m] states_nth [OF assms] assms by (simp_all add: states_length) (simp add: states_def)

lemma state_reached: "n \<le> 10 \<Longrightarrow> state_after m n \<in> set (run_platform m plain_crypto (take n story) [seed])"
  using states_length [of n m] by (auto simp: state_after_def simp flip: states_def intro!: hd_in_set)

section \<open>The requests succeed\<close>

lemma edit_accepted: "case prepare_update plain_crypto (draw ''3'' 30) staff edit_input (state_after m 2) of
    Inl _ \<Rightarrow> False | Inr command \<Rightarrow> succeeds (updateDraft (draw ''2'' 40) command (state_after m 3))"
  by code_simp

lemma created: "succeeds (contest_createDraft plain_crypto (draw ''c'' 20) staff draft_input (state_after m 1))"
  by code_simp

lemma mounted: "succeeds (challenge_mount (draw ''5'' 50) ''k'' staff mounting (state_after m 4))"
  by code_simp

lemma published: "succeeds (contest_publish (draw ''6'' 60) staff moving (state_after m 5))"
  by code_simp

lemma revised: "succeeds (challenge_revise (draw ''7'' 90) staff revision (state_after m 8))"
  by code_simp

lemma played: "case challenge_readForPlayer 4000 gamer ''c'' ''k'' (state_after m 9) of
    Inl _ \<Rightarrow> False | Inr y \<Rightarrow> yp_content y \<noteq> None"
  by code_simp

lemma frozen_row: "case find_contest (state_after m 6) ''c'' of
    None \<Rightarrow> False | Some r \<Rightarrow> co_publication_status r = Published"
  by code_simp

lemma archived_row: "map_option co_publication_status (find_contest (state_after m 10) ''c'') = Some Archived"
  by code_simp

lemma first_read: "succeeds (read_template (state_after m 1) ''t'' (Some 1))"
  by code_simp

lemma mounted_ids: "map ch_id (pl_challenges (state_after m 5)) = [''k'']"
  by code_simp

lemma board_bounds: "''c'' \<in> co_id ` set (pl_contests (state_after m 9))"
    "score_bound (db_of (state_after m 9)) \<le> max_safe_integer"
proof -
  have "map co_id (pl_contests (state_after m 9)) = [''c'']" by code_simp
  then have "set (map co_id (pl_contests (state_after m 9))) = {''c''}" by simp
  then show "''c'' \<in> co_id ` set (pl_contests (state_after m 9))" by simp
  have "length (db_solves (db_of (state_after m 9))) = 0" "db_score_adjustments (db_of (state_after m 9)) = []"
    by code_simp+
  then show "score_bound (db_of (state_after m 9)) \<le> max_safe_integer"
    by (simp add: score_bound_def max_safe_integer_def)
qed

section \<open>The properties applied\<close>

theorem platform_history_invariant_witness: "platform_inv (state_after exact_math 10)"
  by (rule platform_history_invariant [OF seed_empty state_reached]) simp

theorem published_configuration_fixed_witness:
  "\<exists>r s. find_contest (state_after exact_math 6) ''c'' = Some r \<and> find_contest (state_after exact_math 10) ''c'' = Some s
     \<and> co_publication_status r = Published \<and> co_publication_status s = Archived \<and> configuration s = configuration r"
proof -
  have range: "(6::nat) \<le> 10" "(10::nat) \<le> 10" by simp_all
  note pair = states_pair [OF range, of exact_math]
  obtain r where r: "find_contest (state_after exact_math 6) ''c'' = Some r" "co_publication_status r = Published"
    using frozen_row [of exact_math] by (auto split: option.splits)
  have "find_contest (states exact_math 10 ! (10 - 6)) ''c'' = Some r" using r pair(2) by simp
  from published_configuration_fixed [OF seed_empty pair(4) le0 pair(3) this] r pair(1) archived_row [of exact_math]
  show ?thesis by auto
qed

theorem no_lost_update_witness:
  "\<exists>command s q. find_contest (state_after exact_math 2) ''c'' = Some s
     \<and> find_contest (state_after exact_math 3) ''c'' = Some s
     \<and> find_contest q ''c'' = Some (updated_draft (draw ''2'' 40) command s)"
proof -
  have range: "(2::nat) \<le> 3" "(3::nat) \<le> 10" by simp_all
  note pair = states_pair [OF range, of exact_math]
  obtain command r q where
      "prepare_update plain_crypto (draw ''3'' 30) staff edit_input (state_after exact_math 2) = Inr command"
      "updateDraft (draw ''2'' 40) command (state_after exact_math 3) = Inr (r, q)"
    using edit_accepted [of exact_math] by (auto simp: succeeds_def split: sum.splits)
  then have "prepare_update plain_crypto (draw ''3'' 30) staff edit_input (states exact_math 3 ! (3 - 2)) = Inr command"
      "updateDraft (draw ''2'' 40) command (states exact_math 3 ! 0) = Inr (r, q)"
    using pair(1,2) by simp_all
  from no_lost_update [OF seed_empty pair(4) le0 pair(3) this] pair(1,2) show ?thesis by (auto simp: edit_input_def)
qed

theorem contest_life_refines_witness:
  "\<exists>r q k. contest_publish (draw ''6'' 60) staff moving (state_after exact_math 5) = Inr (r, q)
     \<and> life_step (life (state_after exact_math 5) k) (life q k)"
proof -
  obtain r q where publish: "contest_publish (draw ''6'' 60) staff moving (state_after exact_math 5) = Inr (r, q)"
    using published [of exact_math] by (auto simp: succeeds_def split: sum.splits)
  then show ?thesis using contest_life_refines [OF disjI2 [OF disjI2 [OF disjI1 [OF publish]]]] by blast
qed

theorem published_playable_witness:
  "\<exists>ch\<in>set (enabled_challenges (state_after exact_math 5) ''c''). js_trim (mh_title ch) \<noteq> ''''"
proof -
  obtain r q where "contest_publish (draw ''6'' 60) staff moving (state_after exact_math 5) = Inr (r, q)"
    using published [of exact_math] by (auto simp: succeeds_def split: sum.splits)
  from published_playable [OF this] have "enabled_challenges (state_after exact_math 5) ''c'' \<noteq> []"
    and "\<forall>ch\<in>set (enabled_challenges (state_after exact_math 5) ''c''). js_trim (mh_title ch) \<noteq> ''''"
    by (auto simp: moving_def)
  then show ?thesis by (metis list.set_intros(1) neq_Nil_conv)
qed

theorem template_version_immutable_witness:
  "\<exists>d e. read_template (state_after exact_math 1) ''t'' (Some 1) = Inr d
     \<and> read_template (state_after exact_math 10) ''t'' (Some 1) = Inr e
     \<and> td_challengeVersion e = td_challengeVersion d"
proof -
  have range: "(1::nat) \<le> 10" "(10::nat) \<le> 10" by simp_all
  note pair = states_pair [OF range, of exact_math]
  obtain d where d: "read_template (state_after exact_math 1) ''t'' (Some 1) = Inr d"
    using first_read [of exact_math] by (auto simp: succeeds_def split: sum.splits)
  then have "read_template (states exact_math 10 ! (10 - 1)) ''t'' (Some 1) = Inr d" using pair(2) by simp
  from template_version_immutable [OF seed_empty pair(4) le0 pair(3) this] pair(1) d show ?thesis by auto
qed

theorem challenge_snapshots_versioned_witness:
  "\<exists>ch\<in>set (pl_challenges (state_after exact_math 5)). \<exists>d\<in>set (pl_challenges (state_after exact_math 10)).
     ch_id ch = ''k'' \<and> ch_id d = ''k''
     \<and> mh_version d - mh_version ch = mh_snapshot_revision d - mh_snapshot_revision ch"
proof -
  have range: "(5::nat) \<le> 10" "(10::nat) \<le> 10" by simp_all
  note pair = states_pair [OF range, of exact_math]
  obtain ch where ch: "ch \<in> set (pl_challenges (state_after exact_math 5))" "ch_id ch = ''k''"
    using mounted_ids [of exact_math] by (cases "pl_challenges (state_after exact_math 5)") auto
  then have "ch \<in> set (pl_challenges (states exact_math 10 ! (10 - 5)))" using pair(2) by simp
  from challenge_snapshots_versioned [OF seed_empty pair(4) le0 pair(3) this] pair(1) ch show ?thesis by auto
qed

theorem every_scoreboard_computable_witness:
  "\<exists>r. replay_contest exact_math (db_of (state_after exact_math 9)) ''c'' None = Inr r"
  using every_scoreboard_computable [OF seed_empty state_reached board_bounds, of exact_math] by auto

theorem validated_requests_pass_checks_witness:
  "\<exists>pg. contest_createDraft plain_crypto (draw ''c'' 20) staff (draft_input\<lparr>ci_requestId := ''''\<rparr>) seed
      = Inl (ContestRequestFailed (Some (Constraint pg))) \<and> pg \<in> CheckViolation ` unchecked_texts"
proof -
  have "contest_createDraft plain_crypto (draw ''c'' 20) staff (draft_input\<lparr>ci_requestId := ''''\<rparr>) seed
      = Inl (ContestRequestFailed (Some (Constraint (CheckViolation ''audit_events_request_id_not_empty''))))"
    by code_simp
  then have e: "contest_createDraft plain_crypto (draw ''c'' 20) staff (draft_input\<lparr>ci_requestId := ''''\<rparr>) ([seed] ! 0)
      = Inl (ContestRequestFailed (Some (Constraint (CheckViolation ''audit_events_request_id_not_empty''))))"
    by simp
  have hs: "[seed] = run_platform exact_math plain_crypto [] [seed]" by simp
  from validated_requests_pass_checks [OF seed_empty hs order_refl _ plain_crypto_documented(1) disjI1 [OF e]] e
  show ?thesis by auto
qed


theorem mounted_snapshot_witness:
  "\<exists>r q v. challenge_mount (draw ''5'' 50) ''k'' staff mounting (state_after exact_math 4) = Inr (r, q)
     \<and> tv_id v = ''v'' \<and> row_content (cl_row r) = version_content v"
proof -
  obtain r q where "challenge_mount (draw ''5'' 50) ''k'' staff mounting (state_after exact_math 4) = Inr (r, q)"
    using mounted [of exact_math] by (auto simp: succeeds_def split: sum.splits)
  with mounted_snapshot [OF this] show ?thesis by (auto simp: mounting_def)
qed


theorem player_content_visible_witness:
  "\<exists>y. challenge_readForPlayer 4000 gamer ''c'' ''k'' (state_after exact_math 9) = Inr y
     \<and> yp_content y \<noteq> None \<and> accepted_player (db_of (state_after exact_math 9)) ''a'' ''c''"
proof -
  obtain y where y: "challenge_readForPlayer 4000 gamer ''c'' ''k'' (state_after exact_math 9) = Inr y"
      "yp_content y \<noteq> None"
    using played [of exact_math] by (auto split: sum.splits)
  have "state_after exact_math 9 \<in> set (run_platform exact_math plain_crypto (take 9 story) [seed])"
    by (rule state_reached) simp
  from player_content_visible [OF seed_empty this y(1)] y show ?thesis
    by (auto simp: gamer_def split: if_splits)
qed

end
