(* ===== verification/Spec2Isabelle.thy ===== *)
theory Spec2Isabelle
  imports Replay_Examples Security_Examples Divergences Platform_Scenario
begin

text \<open>
  A verification library for the control plane of SauryCTF, a platform for capture-the-flag contests
  (\<open>src/apps/web/server\<close>, TypeScript on Nitro with PostgreSQL). It models the part that decides results:
  who may do what, how teams form and enter contests, how flags are verified and submissions stored,
  how scores are replayed from the stored facts, how scoreboards are built, cached and shown, and how
  contests and their challenges are configured, published, revised and archived.

  \<^bold>\<open>How the parts interact.\<close> A client calls a service (\<open>domains/*/service.ts\<close>) in the name of a session
  subject. The service checks the subject's capability (\<open>domains/identity/capabilities.ts\<close>), may ask a
  rate limiter, a flag verifier and an answer protector, and then runs one operation of a repository
  (\<open>infrastructure/db/*-repository.ts\<close>), which is one transaction on the tables of \<open>db/schema.ts\<close>. Every
  score is derived: \<open>scoring-replay-repository.ts\<close> loads the facts of a contest, \<open>scoring-replay.ts\<close>
  replays them, \<open>builder.ts\<close> makes a board of the replay, and \<open>view-service.ts\<close> stores boards as
  snapshots and decides which board a viewer gets.

  \<^bold>\<open>Theories.\<close>
  \<^item> \<open>Prelude\<close>: the runtime (strings of code units below 256, dates, safe integers, stable sorting with
    comparators, exceptions as \<open>Inl\<close>) and the shared list lemmas. \<open>Encoding\<close>: UTF-8, hexadecimal text,
    joins, and the record of the crypto functions.
  \<^item> \<open>Challenge_Policies\<close>: the policy schemas of \<open>shared/contracts/challenges.ts\<close>. \<open>Scoring\<close> and
    \<open>Scoring_Replay\<close>: \<open>domains/submissions/scoring.ts\<close> and \<open>scoring-replay.ts\<close>, whole; their lemmas are in
    \<open>Replay_Lemmas\<close>, their properties in \<open>Replay_Properties\<close> and \<open>Replay_Invariance\<close>, applied in
    \<open>Replay_Examples\<close>.
  \<^item> \<open>Database\<close>: the tables as lists of records, with the checks, unique indexes and references the
    modelled repositories meet; an insert or update that violates one fails with its SQLSTATE.
  \<^item> \<open>Submission_Repository\<close>, \<open>Team_Repository\<close>, \<open>Participation_Repository\<close>: every operation of
    \<open>submission-repository.ts\<close>, \<open>team-repository.ts\<close> and \<open>participation-repository.ts\<close>, private methods
    included. \<open>Scoring_Facts\<close>: \<open>scoring-replay-repository.ts\<close>.
  \<^item> \<open>Submission_Frames\<close>, \<open>Scoring_Invariant\<close>, \<open>Scoring_Consistency\<close>, \<open>Team_Invariant\<close>,
    \<open>Participation_Invariant\<close>: what each operation changes, and the invariants it keeps. \<open>System\<close>: all
    transactions as one datatype, their histories and the invariant of the whole database;
    \<open>Submission_Safety\<close>: what holds along a history. \<open>Scenario\<close>: a history on a fresh platform, on which
    the properties are applied.
  \<^item> \<open>Identity_Capabilities\<close>: \<open>capabilities.ts\<close>, and the interface of a guarded service (locale
    \<open>service_errors\<close>). \<open>Flag_Verifier\<close>: \<open>domains/challenges/flag-verifier.ts\<close>. \<open>Answer_Protector\<close>:
    \<open>submission-answer-protector.ts\<close>. \<open>Rate_Limiting\<close>: the two stores of \<open>infrastructure/security\<close> behind
    one interface (locale \<open>rate_limit_store\<close>).
  \<^item> \<open>Submission_Service\<close>, \<open>Registration_Services\<close>: the submission, team and participation services;
    \<open>Submission_Service_Facts\<close> and \<open>Service_System\<close>: their properties, up to the refinement of the
    histories of \<open>System\<close>; \<open>Service_Scenario\<close> applies them.
  \<^item> \<open>Scoreboard_Builder\<close>, \<open>Scoreboard_View\<close>, \<open>Scoreboard_View_Facts\<close>, \<open>Build_Coordinator\<close>: \<open>builder.ts\<close>,
    \<open>view-service.ts\<close> with \<open>scoreboard-view-repository.ts\<close>, and \<open>build-coordinator.ts\<close>.
    \<open>Scoreboard_Scenario\<close> applies them; \<open>Divergences\<close> proves the situations behind the findings.
  \<^item> \<open>Contest_Tables\<close>: the tables of contests, challenges, templates, assets and hints with all their columns
    and the triggers of \<open>db/migrations\<close> that guard snapshots. The record \<open>platform\<close> is these tables with the
    rest of the database; \<open>db_of\<close> gives the database the other repositories see.
  \<^item> \<open>Contest_Repository\<close>, \<open>Contest_Service\<close>: \<open>contest-repository.ts\<close>, \<open>domains/contests/service.ts\<close> and
    \<open>admission.ts\<close>. \<open>Challenge_Templates\<close>: \<open>challenge-template-repository.ts\<close> and
    \<open>domains/challenges/service.ts\<close>. \<open>Contest_Challenges\<close>, \<open>Contest_Challenge_Service\<close>:
    \<open>contest-challenge-repository.ts\<close> and \<open>contest-challenge-service.ts\<close>, what players see included.
  \<^item> \<open>Contest_Facts\<close>, \<open>Contest_Service_Facts\<close>, \<open>Challenge_Facts\<close>, \<open>Snapshot_Facts\<close>: what each of these
    operations changes and the invariants of its tables. \<open>Platform\<close>: the requests of administrators
    interleaved with the transactions of \<open>System\<close>, the invariant of all tables, and the interface of an
    order that every step climbs (locale \<open>platform_order\<close>). \<open>Platform_Properties\<close>,
    \<open>Administration_Properties\<close>, \<open>Challenge_Properties\<close>: its properties; \<open>Platform_Scenario\<close> applies them.

  \<^bold>\<open>How state and operations correspond to the code.\<close> A table is a list of row records, in the order of
  insertion; a query that has no \<open>ORDER BY\<close> and can return several rows is modelled only where their order
  cannot matter. A transaction is a function from the database to an error or a result with the database
  after it; an error rolls back. \<open>now()\<close> and generated identifiers come from the transaction's environment
  (\<open>tx_env\<close>). Where a service makes several statements without a transaction, the model lets other requests
  commit in between: \<open>fc_meanwhile\<close> in \<open>verifyFlag\<close>, the list \<open>wd_others\<close> in \<open>Scoreboard_View\<close>, and the state
  \<open>seen\<close>, read earlier in the history, in \<open>contest_updateDraft\<close> and \<open>template_createVersion\<close>.

  \<^bold>\<open>What the lemmas show.\<close> The replay computes what its inputs say, independently of their order, and
  ignores practice. Histories keep one invariant, which makes the scoreboard replayable at every moment;
  submission limits, admission, eligibility, final acceptance, locked rosters and revoked codes hold along
  every history. The services add nothing to the histories of the repositories and nothing beyond the
  subject's capabilities. Flags, answers and limits do what their interfaces promise. Scoreboard replicas
  converge, and a read shows the board of the facts at the version it names. Contests only move forward
  through their life and are fixed once published; no update of a draft is lost; template versions never
  change; challenges change only by revisions that number themselves; whatever has been configured, every
  scoreboard can be computed and no registration fails for a malformed contest; players see a challenge
  exactly when they may.

  \<^bold>\<open>Bounds.\<close> Doubles of the scoring function are real numbers with the rounding of \<open>Math.round\<close>, and
  \<open>Math.exp\<close> and the decay are taken from a record \<open>js_math\<close>; sums are guarded by the safe integers as in
  the code. No definition uses fuel: all recursion is structural, over lists.

  \<^bold>\<open>Parameters.\<close> SHA-256, HMAC-SHA-256, HKDF and AES-256-GCM are the fields of the record \<open>crypto\<close>; properties
  assume of them only the length of digests (\<open>digests_documented\<close>), that opening and sealing are inverse
  (\<open>aead_documented\<close>) and, for the refusal of foreign flags, no collision among the texts concerned. Unicode
  normalisation and the locale's lower case are the record \<open>unicode\<close>.

  \<^bold>\<open>Not modelled.\<close> Row locks and isolation below the granularity of a transaction; text-length and
  lower-case checks of columns; microseconds of timestamps; the SQL errors of identifiers that are no UUIDs;
  message texts; strings with code units from 256 on. Of the rest of the repository: the Vue application
  and the client code, the HTTP handlers, mail, storage, telemetry, plugins, migrations, the Go worker and
  the domains listed as not modelled in the manifest, which have no part in results.
\<close>

end
